theory Spec2Isabelle
  imports Main "HOL-Library.Word"
begin

unbundle bit_operations_syntax

section \<open>Data model (command\_type.h, label\_map.h, interpreter.h)\<close>

text \<open>
  The headers are not part of the sources at hand; the types below are
  read off the way \<^verbatim>\<open>interpreter.c\<close>, \<^verbatim>\<open>parser.c\<close> and \<^verbatim>\<open>label_map.c\<close> use them.
  An \<^verbatim>\<open>int64_t\<close> is a 64-bit word; \<open>sint\<close> reads it as the signed value and
  \<open>unat\<close> as the \<^verbatim>\<open>uint64_t\<close> it is cast to.  A \<^verbatim>\<open>Command *\<close> is an address
  or \<^verbatim>\<open>NULL\<close> (\<open>None\<close>); the commands live in a store that maps every address
  to the command it holds.  C strings are \<open>string\<close>s without the NUL terminator;
  a \<^verbatim>\<open>char *\<close> that may be \<^verbatim>\<open>NULL\<close> is a \<open>string option\<close>.
\<close>

type_synonym int64_t = "64 word"
type_synonym addr = nat

datatype CommandType =
    CMD_MOV | CMD_ADD | CMD_SUB | CMD_CMP | CMD_CMP_U | CMD_PRINT
  | CMD_AND | CMD_EOR | CMD_ORR | CMD_LSL | CMD_LSR | CMD_ASR
  | CMD_LOAD | CMD_STORE | CMD_PUT | CMD_BRANCH | CMD_CALL | CMD_RET

datatype BranchCondition =
    BRANCH_NONE | BRANCH_ALWAYS | BRANCH_EQUAL | BRANCH_NOT_EQUAL
  | BRANCH_GREATER | BRANCH_LESS | BRANCH_GREATER_EQUAL | BRANCH_LESS_EQUAL

text \<open>
  \<^verbatim>\<open>Operand\<close> is a C union of \<^verbatim>\<open>num_val\<close>, \<^verbatim>\<open>str_val\<close> and \<^verbatim>\<open>base\<close>.  The
  members are kept apart here: the code reads the member that the parser wrote
  for the operand's role.
\<close>

record Operand =
  num_val :: int64_t
  str_val :: "string option"
  base :: char

record Command =
  cmd_type :: CommandType
  cmd_next :: "addr option"
  is_a_immediate :: bool
  is_a_string :: bool
  is_b_immediate :: bool
  is_b_string :: bool
  branch_condition :: BranchCondition
  destination :: Operand
  val_a :: Operand
  val_b :: Operand

record Entry =
  e_id :: string
  e_command :: "addr option"

text \<open>
  \<^verbatim>\<open>LabelMap\<close>: \<^verbatim>\<open>entries\<close> is the array of bucket heads, each bucket a chain
  of entries linked by \<^verbatim>\<open>next\<close> (a list here), and \<^verbatim>\<open>capacity\<close> its length.
\<close>

record LabelMap =
  entries :: "Entry list list"
  capacity :: nat

record StackEntry =
  se_variables :: "int64_t list"
  se_command :: "addr option"

text \<open>
  Modelled from the spec: \<^verbatim>\<open>NUM_VARIABLES\<close> is defined in \<^verbatim>\<open>interpreter.h\<close>,
  which is missing; the spec gives a register file of 32 registers.
\<close>

definition NUM_VARIABLES :: nat where
  "NUM_VARIABLES = 32"

text \<open>
  The \<^verbatim>\<open>Interpreter\<close> struct, with the call stack as a list (top first).
  Two pieces of global state that the interpreter reaches through \<^verbatim>\<open>mem.h\<close>
  and \<^verbatim>\<open>stdio.h\<close> travel with it: the byte store and the lines printed so far.
\<close>

record Interpreter =
  had_error :: bool
  label_map :: LabelMap
  is_greater :: bool
  is_equal :: bool
  is_less :: bool
  the_stack :: "StackEntry list"
  variables :: "int64_t list"
  mem_bytes :: "8 word list"
  printed :: "string list"

text \<open>
  C leaves an access outside an array and a dereference of \<^verbatim>\<open>NULL\<close>
  undefined.  Where the code makes such an access without a check, the model
  stops with a fault instead of inventing a value.
\<close>

datatype fault = ReadOutOfRange | WriteOutOfRange | NullPointer

section \<open>label\_map.c\<close>

text \<open>
  \<^verbatim>\<open>hash_function\<close>: the sum of the characters in an \<^verbatim>\<open>unsigned long\<close>.
  A plain \<^verbatim>\<open>char\<close> is taken as signed (the x86-64 ABI); for ASCII names the
  signedness makes no difference.
\<close>

definition char_to_ulong :: "char \<Rightarrow> 64 word" where
  "char_to_ulong c = scast (of_char c :: 8 word)"

fun hash_loop :: "string \<Rightarrow> 64 word \<Rightarrow> 64 word" where
  "hash_loop [] i = i"
| "hash_loop (c # s) i = hash_loop s (i + char_to_ulong c)"

definition hash_function :: "string \<Rightarrow> 64 word" where
  "hash_function s = hash_loop s 0"

text \<open>The chain walk that both \<^verbatim>\<open>put_label\<close> and \<^verbatim>\<open>get_label\<close> perform.\<close>

fun chain_find :: "Entry list \<Rightarrow> string \<Rightarrow> Entry option" where
  "chain_find [] ident = None"
| "chain_find (e # es) ident = (if e_id e = ident then Some e else chain_find es ident)"

definition label_map_init :: "nat \<Rightarrow> LabelMap" where
  "label_map_init cap = \<lparr>entries = replicate cap [], capacity = cap\<rparr>"

definition entry_init :: "string \<Rightarrow> addr option \<Rightarrow> Entry" where
  "entry_init ident command = \<lparr>e_id = ident, e_command = command\<rparr>"

text \<open>Allocation is taken to succeed, so \<^verbatim>\<open>entry_init\<close> never returns \<^verbatim>\<open>NULL\<close>.\<close>

definition put_label :: "LabelMap \<Rightarrow> string \<Rightarrow> addr option \<Rightarrow> bool \<times> LabelMap" where
  "put_label m ident command =
     (let hash = unat (hash_function ident) mod capacity m;
          bucket = entries m ! hash
      in case chain_find bucket ident of
           Some _ \<Rightarrow> (False, m)
         | None \<Rightarrow>
             (True, m\<lparr>entries := (entries m)[hash := entry_init ident command # bucket]\<rparr>))"

definition get_label :: "LabelMap \<Rightarrow> string \<Rightarrow> Entry option" where
  "get_label m ident =
     (let hash = unat (hash_function ident) mod capacity m
      in chain_find (entries m ! hash) ident)"

text \<open>
  What \<^verbatim>\<open>label_map_init\<close> establishes and \<^verbatim>\<open>put_label\<close> keeps: a positive
  capacity (the code divides by it) and one bucket per slot.
\<close>

definition map_ok :: "LabelMap \<Rightarrow> bool" where
  "map_ok m = (0 < capacity m \<and> length (entries m) = capacity m)"

section \<open>interpreter.c\<close>

definition interpreter_init :: "LabelMap \<Rightarrow> 8 word list \<Rightarrow> string list \<Rightarrow> Interpreter" where
  "interpreter_init m mem out =
     \<lparr>had_error = False, label_map = m, is_greater = False, is_equal = False,
      is_less = False, the_stack = [], variables = replicate NUM_VARIABLES 0,
      mem_bytes = mem, printed = out\<rparr>"

definition fetch_number_value :: "Interpreter \<Rightarrow> Operand \<Rightarrow> bool \<Rightarrow> int64_t \<times> Interpreter" where
  "fetch_number_value intr op is_im =
     (if is_im then (num_val op, intr)
      else
        let var_num = num_val op in
        if sint var_num < 0 \<or> sint var_num \<ge> int NUM_VARIABLES
        then (0, intr\<lparr>had_error := True\<rparr>)
        else (variables intr ! nat (sint var_num), intr))"

definition cond_holds :: "Interpreter \<Rightarrow> BranchCondition \<Rightarrow> bool" where
  "cond_holds intr cond =
     (case cond of
        BRANCH_ALWAYS \<Rightarrow> True
      | BRANCH_EQUAL \<Rightarrow> is_equal intr
      | BRANCH_NOT_EQUAL \<Rightarrow> \<not> is_equal intr
      | BRANCH_GREATER \<Rightarrow> is_greater intr
      | BRANCH_LESS \<Rightarrow> is_less intr
      | BRANCH_GREATER_EQUAL \<Rightarrow> is_greater intr \<or> is_equal intr
      | BRANCH_LESS_EQUAL \<Rightarrow> is_less intr \<or> is_equal intr
      | BRANCH_NONE \<Rightarrow> False)"

text \<open>
  An index into \<^verbatim>\<open>intr->variables\<close> that the code uses without a check:
  inside the array it is the position, outside it the access is undefined.
\<close>

definition reg_index :: "int64_t \<Rightarrow> nat option" where
  "reg_index n =
     (if 0 \<le> sint n \<and> sint n < int NUM_VARIABLES then Some (nat (sint n)) else None)"

subsection \<open>to\_binary\_string\<close>

text \<open>\<^verbatim>\<open>num & (1ULL << i)\<close> as a truth value.\<close>

definition bit_set :: "64 word \<Rightarrow> int \<Rightarrow> bool" where
  "bit_set num i = (num AND push_bit (nat i) 1 \<noteq> 0)"

function highest_bit_loop :: "64 word \<Rightarrow> int \<Rightarrow> int" where
  "highest_bit_loop num highest_bit =
     (if highest_bit \<ge> 0 \<and> \<not> bit_set num highest_bit
      then highest_bit_loop num (highest_bit - 1)
      else highest_bit)"
  by pat_completeness auto
termination
  by (relation "measure (\<lambda>(num, hb). nat (hb + 1))") auto

text \<open>
  The \<^verbatim>\<open>for\<close> loop that writes the digits: \<open>buf\<close> is the part of
  \<^verbatim>\<open>bit_string\<close> written so far, so \<^verbatim>\<open>index\<close> is its length.  On reaching the
  last cell the code terminates the string there and returns.
\<close>

function digits_loop :: "64 word \<Rightarrow> nat \<Rightarrow> int \<Rightarrow> string \<Rightarrow> string" where
  "digits_loop num bit_string_size i buf =
     (if i \<ge> 0 then
        (if length buf \<ge> bit_string_size - 1 then take (bit_string_size - 1) buf
         else digits_loop num bit_string_size (i - 1)
                (buf @ [if bit_set num i then CHR ''1'' else CHR ''0'']))
      else buf)"
  by pat_completeness auto
termination
  by (relation "measure (\<lambda>(num, sz, i, buf). nat (i + 1))") auto

declare highest_bit_loop.simps [simp del] digits_loop.simps [simp del]

definition to_binary_string :: "64 word \<Rightarrow> nat \<Rightarrow> string" where
  "to_binary_string num bit_string_size =
     (if num = 0 then ''0b0''
      else digits_loop num bit_string_size (highest_bit_loop num 63) ''0b'')"


subsection \<open>The byte store and the C library\<close>

text \<open>
  Modelled from the spec: \<^verbatim>\<open>mem.c\<close> is missing.  The spec gives a byte array
  of fixed capacity with bounds-checked load and store of 1, 2, 4 or 8 bytes at
  an offset, reporting failure otherwise.  \<^verbatim>\<open>MEM_CAPACITY\<close> is the length of
  the array.  A load returns the bytes read, a store the array written.
\<close>

definition mem_load :: "8 word list \<Rightarrow> nat \<Rightarrow> nat \<Rightarrow> 8 word list option" where
  "mem_load mem offset n =
     (if n \<in> {1, 2, 4, 8} \<and> offset + n \<le> length mem
      then Some (take n (drop offset mem)) else None)"

definition mem_store :: "8 word list \<Rightarrow> 8 word list \<Rightarrow> nat \<Rightarrow> 8 word list option" where
  "mem_store mem buf offset =
     (if length buf \<in> {1, 2, 4, 8} \<and> offset + length buf \<le> length mem
      then Some (take offset mem @ buf @ drop (offset + length buf) mem) else None)"

text \<open>
  \<^verbatim>\<open>printf\<close> with \<^verbatim>\<open>PRId64\<close> and \<^verbatim>\<open>PRIx64\<close>: the digits of a number, most
  significant first.  Every \<^verbatim>\<open>printf\<close> of the interpreter ends its line, so
  the output is kept as the list of lines.
\<close>

function digits_of :: "nat \<Rightarrow> nat \<Rightarrow> string" where
  "digits_of b n =
     (if b < 2 \<or> n < b then [''0123456789abcdef'' ! n]
      else digits_of b (n div b) @ [''0123456789abcdef'' ! (n mod b)])"
  by pat_completeness auto
termination
  by (relation "measure (\<lambda>(b, n). n)") auto

declare digits_of.simps [simp del]

definition printf_d :: "int \<Rightarrow> string" where
  "printf_d v = (if v < 0 then CHR ''-'' # digits_of 10 (nat (- v)) else digits_of 10 (nat v))"

definition printf_x :: "nat \<Rightarrow> string" where
  "printf_x v = digits_of 16 v"

text \<open>The bytes of a register on a little-endian machine, and back.\<close>

fun word_of_bytes :: "8 word list \<Rightarrow> 64 word" where
  "word_of_bytes [] = 0"
| "word_of_bytes (b # bs) = ucast b OR push_bit 8 (word_of_bytes bs)"

subsection \<open>print\_base\<close>

text \<open>
  The loop of the string case: \<open>str\<close> holds the bytes copied so far, \<open>i\<close>
  is the loop counter.  \<open>None\<close> is the failed \<^verbatim>\<open>mem_load\<close>.
\<close>

function read_str :: "8 word list \<Rightarrow> int64_t \<Rightarrow> nat \<Rightarrow> string \<Rightarrow> string option" where
  "read_str mem offset i str =
     (if i < length mem - 1 then
        (case mem_load mem (unat (offset + of_nat i)) 1 of
           None \<Rightarrow> None
         | Some bs \<Rightarrow>
             if hd bs = 0 then Some str
             else read_str mem offset (i + 1) (str @ [char_of (unat (hd bs))]))
      else Some str)"
  by pat_completeness auto
termination
  by (relation "measure (\<lambda>(mem, offset, i, str). length mem - 1 - i)") auto

declare read_str.simps [simp del]

definition print_base :: "Interpreter \<Rightarrow> Command \<Rightarrow> bool \<times> Interpreter" where
  "print_base intr0 cmd =
     (let (v, intr) = fetch_number_value intr0 (val_a cmd) (is_a_immediate cmd) in
      if had_error intr then (False, intr)
      else if base (val_b cmd) = CHR ''d'' then
        (True, intr\<lparr>printed := printed intr @ [printf_d (sint v)]\<rparr>)
      else if base (val_b cmd) = CHR ''b'' then
        (True, intr\<lparr>printed := printed intr @ [to_binary_string v 67]\<rparr>)
      else if base (val_b cmd) = CHR ''x'' then
        (True, intr\<lparr>printed := printed intr @ [''0x'' @ printf_x (unat v)]\<rparr>)
      else if base (val_b cmd) = CHR ''s'' then
        (let (offset, intr1) = fetch_number_value intr (val_a cmd) (is_a_immediate cmd) in
         if had_error intr1 then (False, intr1)
         else case read_str (mem_bytes intr1) offset 0 [] of
                None \<Rightarrow> (False, intr1\<lparr>had_error := True\<rparr>)
              | Some str \<Rightarrow> (True, intr1\<lparr>printed := printed intr1 @ [str]\<rparr>))
      else (False, intr\<lparr>had_error := True\<rparr>))"


subsection \<open>The cases of the switch in interpret\<close>

text \<open>
  Each case of the \<^verbatim>\<open>switch\<close> is a function of the command and the interpreter.
  The cases that leave \<^verbatim>\<open>current\<close> and \<^verbatim>\<open>jumped\<close> alone return the interpreter;
  BRANCH, CALL and RET return \<^verbatim>\<open>jumped\<close> and \<^verbatim>\<open>current\<close> as well.
\<close>

definition exec_MOV :: "Command \<Rightarrow> Interpreter \<Rightarrow> fault + Interpreter" where
  "exec_MOV cmd intr0 =
     (let (v, intr) = fetch_number_value intr0 (val_a cmd) (is_a_immediate cmd) in
      if had_error intr then Inr intr
      else case reg_index (num_val (destination cmd)) of
             None \<Rightarrow> Inl WriteOutOfRange
           | Some d \<Rightarrow> Inr (intr\<lparr>variables := (variables intr)[d := v]\<rparr>))"

definition exec_ADD_SUB :: "Command \<Rightarrow> Interpreter \<Rightarrow> fault + Interpreter" where
  "exec_ADD_SUB cmd intr0 =
     (let (a, intr1) = fetch_number_value intr0 (val_a cmd) False;
          (b, intr) = fetch_number_value intr1 (val_b cmd) (is_b_immediate cmd) in
      if had_error intr then Inr intr
      else
        let result = (if cmd_type cmd = CMD_ADD then a + b else a - b);
            dest_index = num_val (destination cmd) in
        if sint dest_index < 0 \<or> sint dest_index \<ge> int NUM_VARIABLES
        then Inr (intr\<lparr>had_error := True\<rparr>)
        else Inr (intr\<lparr>variables := (variables intr)[nat (sint dest_index) := result]\<rparr>))"

definition exec_CMP :: "Command \<Rightarrow> Interpreter \<Rightarrow> fault + Interpreter" where
  "exec_CMP cmd intr0 =
     (let (a, intr1) = fetch_number_value intr0 (val_a cmd) False;
          (b, intr) = fetch_number_value intr1 (val_b cmd) (is_b_immediate cmd) in
      if had_error intr then Inr intr
      else
        let g = (if cmd_type cmd = CMD_CMP then sint a > sint b else unat a > unat b);
            e = (a = b) in
        Inr (intr\<lparr>is_greater := g, is_equal := e, is_less := \<not> (g \<or> e)\<rparr>))"

definition exec_PRINT :: "Command \<Rightarrow> Interpreter \<Rightarrow> fault + Interpreter" where
  "exec_PRINT cmd intr0 =
     (let (ok, intr) = print_base intr0 cmd in
      if \<not> ok then Inr (intr\<lparr>had_error := True\<rparr>) else Inr intr)"

definition exec_AND_EOR_ORR :: "Command \<Rightarrow> Interpreter \<Rightarrow> fault + Interpreter" where
  "exec_AND_EOR_ORR cmd intr0 =
     (let (a, intr1) = fetch_number_value intr0 (val_a cmd) False;
          (b, intr) = fetch_number_value intr1 (val_b cmd) False in
      if had_error intr then Inr intr
      else
        let result = (if cmd_type cmd = CMD_AND then a AND b
                      else if cmd_type cmd = CMD_EOR then a XOR b else a OR b) in
        case reg_index (num_val (destination cmd)) of
          None \<Rightarrow> Inl WriteOutOfRange
        | Some d \<Rightarrow> Inr (intr\<lparr>variables := (variables intr)[d := result]\<rparr>))"

text \<open>
  The shifts: \<^verbatim>\<open>a << b\<close> on the bits of \<open>a\<close>, \<^verbatim>\<open>(uint64_t)a >> b\<close> filling
  with zeros, and \<^verbatim>\<open>a >> b\<close> on the signed \<open>a\<close>, which the compilers in use
  (and the comment in the code) take as the shift that keeps the sign bit.
\<close>

definition exec_SHIFT :: "Command \<Rightarrow> Interpreter \<Rightarrow> fault + Interpreter" where
  "exec_SHIFT cmd intr0 =
     (let (a, intr1) = fetch_number_value intr0 (val_a cmd) False;
          (b, intr) = fetch_number_value intr1 (val_b cmd) (is_b_immediate cmd) in
      if had_error intr then Inr intr
      else if sint b < 0 \<or> sint b > 63 then Inr (intr\<lparr>had_error := True\<rparr>)
      else
        let result = (if cmd_type cmd = CMD_LSL then push_bit (nat (sint b)) a
                      else if cmd_type cmd = CMD_LSR then drop_bit (nat (sint b)) a
                      else signed_drop_bit (nat (sint b)) a) in
        case reg_index (num_val (destination cmd)) of
          None \<Rightarrow> Inl WriteOutOfRange
        | Some d \<Rightarrow> Inr (intr\<lparr>variables := (variables intr)[d := result]\<rparr>))"

text \<open>
  LOAD fetches the offset and the byte count as \<^verbatim>\<open>size_t\<close>, clears the
  destination register and lets \<^verbatim>\<open>mem_load\<close> write into its low bytes.
\<close>

definition exec_LOAD :: "Command \<Rightarrow> Interpreter \<Rightarrow> fault + Interpreter" where
  "exec_LOAD cmd intr0 =
     (let (offset, intr1) = fetch_number_value intr0 (val_b cmd) (is_b_immediate cmd);
          (bytes, intr) = fetch_number_value intr1 (val_a cmd) (is_a_immediate cmd) in
      case reg_index (num_val (destination cmd)) of
        None \<Rightarrow> Inl WriteOutOfRange
      | Some d \<Rightarrow>
          (case mem_load (mem_bytes intr) (unat offset) (unat bytes) of
             None \<Rightarrow> Inr (intr\<lparr>variables := (variables intr)[d := 0], had_error := True\<rparr>)
           | Some bs \<Rightarrow> Inr (intr\<lparr>variables := (variables intr)[d := word_of_bytes bs]\<rparr>)))"

text \<open>
  STORE reads its source register, which the parser puts in the destination
  slot, straight from the array.  The bound \<^verbatim>\<open>offset + bytes > MEM_CAPACITY\<close>
  is compared on the signed values.
\<close>

definition exec_STORE :: "Command \<Rightarrow> Interpreter \<Rightarrow> fault + Interpreter" where
  "exec_STORE cmd intr0 =
     (let src_index = num_val (destination cmd);
          (bytes, intr1) = fetch_number_value intr0 (val_a cmd) (is_a_immediate cmd);
          (offset, intr) = fetch_number_value intr1 (val_b cmd) (is_b_immediate cmd) in
      if bytes \<noteq> 1 \<and> bytes \<noteq> 2 \<and> bytes \<noteq> 4 \<and> bytes \<noteq> 8
      then Inr (intr\<lparr>had_error := True\<rparr>)
      else if sint offset + sint bytes > int (length (mem_bytes intr))
      then Inr (intr\<lparr>had_error := True\<rparr>)
      else case reg_index src_index of
             None \<Rightarrow> Inl ReadOutOfRange
           | Some r \<Rightarrow>
               (let v = variables intr ! r;
                    buffer = map (\<lambda>i. ucast (signed_drop_bit (i * 8) v AND 0xFF)) [0..<unat bytes]
                in case mem_store (mem_bytes intr) buffer (unat offset) of
                     None \<Rightarrow> Inr (intr\<lparr>had_error := True\<rparr>)
                   | Some mem \<Rightarrow> Inr (intr\<lparr>mem_bytes := mem\<rparr>)))"

text \<open>
  The loop of PUT over the characters of the literal and its terminator; the
  bytes written before a failed \<^verbatim>\<open>mem_store\<close> stay written.
\<close>

fun put_loop :: "8 word list \<Rightarrow> int64_t \<Rightarrow> nat \<Rightarrow> 8 word list \<Rightarrow> bool \<times> 8 word list" where
  "put_loop [] offset i mem = (True, mem)"
| "put_loop (c # cs) offset i mem =
     (case mem_store mem [c] (unat (offset + of_nat i)) of
        None \<Rightarrow> (False, mem)
      | Some mem' \<Rightarrow> put_loop cs offset (i + 1) mem')"

definition exec_PUT :: "Command \<Rightarrow> Interpreter \<Rightarrow> fault + Interpreter" where
  "exec_PUT cmd intr0 =
     (let (offset, intr) = fetch_number_value intr0 (val_b cmd) (is_b_immediate cmd) in
      case str_val (val_a cmd) of
        None \<Rightarrow> Inr (intr\<lparr>had_error := True\<rparr>)
      | Some str \<Rightarrow>
          if had_error intr then Inr (intr\<lparr>had_error := True\<rparr>)
          else
            let (ok, mem) = put_loop (map of_char str @ [0]) offset 0 (mem_bytes intr) in
            Inr (intr\<lparr>mem_bytes := mem, had_error := \<not> ok\<rparr>))"

definition exec_BRANCH ::
  "Command \<Rightarrow> addr \<Rightarrow> Interpreter \<Rightarrow> fault + (bool \<times> addr option \<times> Interpreter)" where
  "exec_BRANCH cmd current intr =
     (if cond_holds intr (branch_condition cmd) then
        (case str_val (val_a cmd) of
           None \<Rightarrow> Inl NullPointer
         | Some label \<Rightarrow>
             (case get_label (label_map intr) label of
                None \<Rightarrow>
                  if take 2 label = ''.L'' then Inr (True, None, intr)
                  else Inr (False, Some current,
                            intr\<lparr>had_error := True,
                                  printed := printed intr @ [''Label not found: '' @ label]\<rparr>)
              | Some entry \<Rightarrow> Inr (True, e_command entry, intr)))
      else Inr (True, cmd_next cmd, intr))"

text \<open>Allocation is taken to succeed, so CALL always gets its frame.\<close>

definition exec_CALL ::
  "Command \<Rightarrow> addr \<Rightarrow> Interpreter \<Rightarrow> fault + (bool \<times> addr option \<times> Interpreter)" where
  "exec_CALL cmd current intr =
     (case str_val (val_a cmd) of
        None \<Rightarrow> Inl NullPointer
      | Some label \<Rightarrow>
          (case get_label (label_map intr) label of
             None \<Rightarrow>
               Inr (False, Some current,
                    intr\<lparr>had_error := True,
                          printed := printed intr @ [''Label not found: '' @ label]\<rparr>)
           | Some target \<Rightarrow>
               (let stack_entry = \<lparr>se_variables = take NUM_VARIABLES (variables intr),
                                   se_command = cmd_next cmd\<rparr>
                in Inr (True, e_command target,
                        intr\<lparr>the_stack := stack_entry # the_stack intr\<rparr>))))"

definition exec_RET ::
  "Command \<Rightarrow> addr \<Rightarrow> Interpreter \<Rightarrow> fault + (bool \<times> addr option \<times> Interpreter)" where
  "exec_RET cmd current intr =
     (case the_stack intr of
        [] \<Rightarrow> Inr (True, None, intr)
      | stack_entry # rest \<Rightarrow>
          Inr (True, se_command stack_entry,
               intr\<lparr>the_stack := rest,
                     variables := take 1 (variables intr) @
                       take (NUM_VARIABLES - 1) (drop 1 (se_variables stack_entry))\<rparr>))"

definition no_jump ::
  "addr \<Rightarrow> fault + Interpreter \<Rightarrow> fault + (bool \<times> addr option \<times> Interpreter)" where
  "no_jump current r = (case r of Inl f \<Rightarrow> Inl f | Inr intr \<Rightarrow> Inr (False, Some current, intr))"

definition exec_switch ::
  "Command \<Rightarrow> addr \<Rightarrow> Interpreter \<Rightarrow> fault + (bool \<times> addr option \<times> Interpreter)" where
  "exec_switch cmd current intr =
     (case cmd_type cmd of
        CMD_MOV \<Rightarrow> no_jump current (exec_MOV cmd intr)
      | CMD_ADD \<Rightarrow> no_jump current (exec_ADD_SUB cmd intr)
      | CMD_SUB \<Rightarrow> no_jump current (exec_ADD_SUB cmd intr)
      | CMD_CMP \<Rightarrow> no_jump current (exec_CMP cmd intr)
      | CMD_CMP_U \<Rightarrow> no_jump current (exec_CMP cmd intr)
      | CMD_PRINT \<Rightarrow> no_jump current (exec_PRINT cmd intr)
      | CMD_AND \<Rightarrow> no_jump current (exec_AND_EOR_ORR cmd intr)
      | CMD_EOR \<Rightarrow> no_jump current (exec_AND_EOR_ORR cmd intr)
      | CMD_ORR \<Rightarrow> no_jump current (exec_AND_EOR_ORR cmd intr)
      | CMD_LSL \<Rightarrow> no_jump current (exec_SHIFT cmd intr)
      | CMD_LSR \<Rightarrow> no_jump current (exec_SHIFT cmd intr)
      | CMD_ASR \<Rightarrow> no_jump current (exec_SHIFT cmd intr)
      | CMD_LOAD \<Rightarrow> no_jump current (exec_LOAD cmd intr)
      | CMD_STORE \<Rightarrow> no_jump current (exec_STORE cmd intr)
      | CMD_PUT \<Rightarrow> no_jump current (exec_PUT cmd intr)
      | CMD_BRANCH \<Rightarrow> exec_BRANCH cmd current intr
      | CMD_CALL \<Rightarrow> exec_CALL cmd current intr
      | CMD_RET \<Rightarrow> exec_RET cmd current intr)"

subsection \<open>interpret\<close>

text \<open>
  One pass through the body of the \<^verbatim>\<open>while\<close> loop, entered with a non-null
  \<^verbatim>\<open>current\<close>: the switch, then the step to \<^verbatim>\<open>current->next\<close> when there was
  neither an error nor a jump.  The result is the new \<^verbatim>\<open>current\<close> and the
  interpreter.
\<close>

definition loop_body ::
  "(addr \<Rightarrow> Command) \<Rightarrow> addr \<Rightarrow> Interpreter \<Rightarrow> fault + (addr option \<times> Interpreter)" where
  "loop_body h current intr =
     (case exec_switch (h current) current intr of
        Inl f \<Rightarrow> Inl f
      | Inr (jumped, cur, intr') \<Rightarrow>
          Inr (if \<not> had_error intr' \<and> \<not> jumped then cmd_next (h current) else cur, intr'))"

text \<open>
  The loop itself.  The code sets no bound on the number of iterations, so
  the loop may run forever: the result is \<open>None\<close> then, and \<open>Some\<close> of the
  \<^verbatim>\<open>current\<close> and the interpreter at the exit (or of the fault) otherwise.
\<close>

partial_function (option) interpret_loop ::
  "(addr \<Rightarrow> Command) \<Rightarrow> addr option \<Rightarrow> Interpreter \<Rightarrow> (fault + (addr option \<times> Interpreter)) option"
where
  "interpret_loop h current intr =
     (case current of
        None \<Rightarrow> Some (Inr (None, intr))
      | Some a \<Rightarrow>
          if had_error intr then Some (Inr (Some a, intr))
          else (case loop_body h a intr of
                  Inl f \<Rightarrow> Some (Inl f)
                | Inr (cur, intr') \<Rightarrow> interpret_loop h cur intr'))"

text \<open>\<^verbatim>\<open>interpret\<close> (the name is taken in Isabelle, hence the suffix).\<close>

definition interpret_run ::
  "(addr \<Rightarrow> Command) \<Rightarrow> Interpreter \<Rightarrow> addr option \<Rightarrow> (fault + Interpreter) option" where
  "interpret_run h intr commands =
     (case commands of
        None \<Rightarrow> Some (Inr intr)
      | Some a \<Rightarrow>
          (case interpret_loop h (Some a) intr of
             None \<Rightarrow> None
           | Some (Inl f) \<Rightarrow> Some (Inl f)
           | Some (Inr (cur, intr')) \<Rightarrow> Some (Inr (intr'\<lparr>the_stack := []\<rparr>))))"


section \<open>parser.c\<close>

subsection \<open>Tokens and the token source\<close>

text \<open>
  \<^verbatim>\<open>token_type.h\<close> is missing; the kinds below are the ones \<^verbatim>\<open>parser.c\<close>
  names.  A token's \<^verbatim>\<open>lexeme\<close> points into the source text: it is modelled
  as the text from the token's first character to the end of the source, of
  which the first \<^verbatim>\<open>length\<close> characters are the token.
\<close>

datatype TokenType =
    TOK_IDENT | TOK_NUM | TOK_STR | TOK_NL | TOK_EOF | TOK_COLON
  | TOK_MOV | TOK_ADD | TOK_SUB | TOK_CMP | TOK_CMP_U | TOK_PRINT
  | TOK_AND | TOK_EOR | TOK_ORR | TOK_LSL | TOK_LSR | TOK_ASR
  | TOK_LOAD | TOK_STORE | TOK_PUT
  | TOK_BRANCH | TOK_BRANCH_EQ | TOK_BRANCH_GE | TOK_BRANCH_GT
  | TOK_BRANCH_LE | TOK_BRANCH_LT | TOK_BRANCH_NEQ
  | TOK_CALL | TOK_RET

record Token =
  tok_type :: TokenType
  lexeme :: string
  tok_length :: nat

text \<open>
  Modelled from the spec: the lexer (\<^verbatim>\<open>lexer.c\<close>) is missing.  The spec
  gives a token source with a pull operation that returns the next token and
  an end-of-input token.  A lexer is the list of tokens it has yet to return;
  once the list is used up it returns the end-of-input token.
\<close>

type_synonym Lexer = "Token list"

definition eof_token :: Token where
  "eof_token = \<lparr>tok_type = TOK_EOF, lexeme = [], tok_length = 0\<rparr>"

definition lexer_next_token :: "Lexer \<Rightarrow> Token \<times> Lexer" where
  "lexer_next_token l = (case l of [] \<Rightarrow> (eof_token, []) | t # ts \<Rightarrow> (t, ts))"

text \<open>
  The \<^verbatim>\<open>Parser\<close> struct.  The commands that the parser allocates live in
  \<open>p_heap\<close>; \<open>p_brk\<close> is the next address \<^verbatim>\<open>calloc\<close> hands out.  Allocation
  is taken to succeed and a freed address is not handed out again.
\<close>

record Parser =
  p_lexer :: Lexer
  p_had_error :: bool
  p_label_map :: LabelMap
  p_current :: Token
  p_next :: Token
  p_heap :: "addr \<Rightarrow> Command"
  p_brk :: addr

definition parser_init :: "Lexer \<Rightarrow> LabelMap \<Rightarrow> (addr \<Rightarrow> Command) \<Rightarrow> addr \<Rightarrow> Parser" where
  "parser_init lexer m heap brk =
     (let (c, l1) = lexer_next_token lexer; (n, l2) = lexer_next_token l1
      in \<lparr>p_lexer = l2, p_had_error = False, p_label_map = m, p_current = c, p_next = n,
          p_heap = heap, p_brk = brk\<rparr>)"

definition is_at_end :: "Parser \<Rightarrow> bool" where
  "is_at_end parser = (tok_type (p_current parser) = TOK_EOF)"

text \<open>\<^verbatim>\<open>advance\<close> also returns the token it leaves, which no caller uses.\<close>

definition advance :: "Parser \<Rightarrow> Parser" where
  "advance parser =
     (if \<not> is_at_end parser then
        (let (n, l) = lexer_next_token (p_lexer parser)
         in parser\<lparr>p_current := p_next parser, p_next := n, p_lexer := l\<rparr>)
      else parser)"

definition consume :: "Parser \<Rightarrow> TokenType \<Rightarrow> bool \<times> Parser" where
  "consume parser ty =
     (if tok_type (p_current parser) = ty then (True, advance parser) else (False, parser))"

text \<open>The command that \<^verbatim>\<open>calloc\<close> and the assignments of \<^verbatim>\<open>create_command\<close> leave.\<close>

definition zero_operand :: Operand where
  "zero_operand = \<lparr>num_val = 0, str_val = None, base = CHR 0x00\<rparr>"

definition create_command :: "CommandType \<Rightarrow> Parser \<Rightarrow> addr \<times> Parser" where
  "create_command ty parser =
     (p_brk parser,
      parser\<lparr>p_heap := (p_heap parser)(p_brk parser :=
                 \<lparr>cmd_type = ty, cmd_next = None, is_a_immediate = False, is_a_string = False,
                  is_b_immediate = False, is_b_string = False, branch_condition = BRANCH_NONE,
                  destination = zero_operand, val_a = zero_operand, val_b = zero_operand\<rparr>),
              p_brk := Suc (p_brk parser)\<rparr>)"

text \<open>\<^verbatim>\<open>s[i]\<close> in a C string: past the last character stands the terminator.\<close>

definition char_at :: "string \<Rightarrow> nat \<Rightarrow> char" where
  "char_at s i = (if i < length s then s ! i else CHR 0x00)"

definition is_variable :: "Token \<Rightarrow> bool" where
  "is_variable token = (tok_length token \<ge> 2 \<and> char_at (lexeme token) 0 = CHR ''x'')"

definition is_base :: "Token \<Rightarrow> bool" where
  "is_base token =
     (tok_length token = 1 \<and>
      (char_at (lexeme token) 0 = CHR ''d'' \<or> char_at (lexeme token) 0 = CHR ''x'' \<or>
       char_at (lexeme token) 0 = CHR ''s'' \<or> char_at (lexeme token) 0 = CHR ''b''))"

subsection \<open>strtol and strtoll\<close>

text \<open>
  The C library's conversion (C11, 7.22.1.4) for a base from 2 to 36: white
  space, an optional sign, for base 16 an optional \<^verbatim>\<open>0x\<close> or \<^verbatim>\<open>0X\<close> that a
  hexadecimal digit follows, then the longest run of digits of the base.  The
  result is the value, clamped to the range of \<^verbatim>\<open>long long\<close>, and the number
  of characters up to \<^verbatim>\<open>endptr\<close>; without a digit nothing is consumed and the
  value is 0.  \<^verbatim>\<open>long\<close> has 64 bits as well, so \<^verbatim>\<open>strtol\<close> is the same function.
\<close>

definition isspace :: "char \<Rightarrow> bool" where
  "isspace c = ((of_char c :: nat) = 32 \<or> (9 \<le> (of_char c :: nat) \<and> (of_char c :: nat) \<le> 13))"

definition digit_value :: "char \<Rightarrow> nat option" where
  "digit_value c =
     (let n = (of_char c :: nat) in
      if 48 \<le> n \<and> n \<le> 57 then Some (n - 48)
      else if 97 \<le> n \<and> n \<le> 122 then Some (n - 87)
      else if 65 \<le> n \<and> n \<le> 90 then Some (n - 55)
      else None)"

definition is_digit_of :: "nat \<Rightarrow> char \<Rightarrow> bool" where
  "is_digit_of b c = (case digit_value c of None \<Rightarrow> False | Some d \<Rightarrow> d < b)"

definition digits_value :: "nat \<Rightarrow> string \<Rightarrow> int" where
  "digits_value b ds = foldl (\<lambda>acc c. acc * int b + int (the (digit_value c))) 0 ds"

definition strtoll :: "string \<Rightarrow> nat \<Rightarrow> int \<times> nat" where
  "strtoll nptr b =
     (let ws = length (takeWhile isspace nptr);
          s1 = drop ws nptr;
          neg = (char_at s1 0 = CHR ''-'');
          sg = (if char_at s1 0 = CHR ''-'' \<or> char_at s1 0 = CHR ''+'' then 1 else 0);
          s2 = drop sg s1;
          px = (if b = 16 \<and> char_at s2 0 = CHR ''0''
                   \<and> (char_at s2 1 = CHR ''x'' \<or> char_at s2 1 = CHR ''X'')
                   \<and> is_digit_of 16 (char_at s2 2)
                then 2 else 0);
          ds = takeWhile (is_digit_of b) (drop px s2);
          v = (if neg then - digits_value b ds else digits_value b ds)
      in if ds = [] then (0, 0)
         else (max (- (2 ^ 63)) (min (2 ^ 63 - 1) v), ws + sg + px + length ds))"

subsection \<open>Operands\<close>

text \<open>
  The functions that fill an \<^verbatim>\<open>Operand\<close> through a pointer and return
  \<^verbatim>\<open>bool\<close> return here \<open>None\<close> for \<^verbatim>\<open>false\<close> (nothing is written then) and
  otherwise what they wrote, together with the parser where they move it.
\<close>

definition parse_variable :: "Token \<Rightarrow> int64_t option" where
  "parse_variable token =
     (let (tempnum, n) = strtoll (drop 1 (lexeme token)) 10 in
      if tok_length token \<noteq> 1 + n \<or> tempnum < 0 \<or> tempnum > 31 then None
      else Some (of_int tempnum))"

definition parse_number :: "Token \<Rightarrow> bool \<times> int64_t" where
  "parse_number token =
     (let (skip, b) =
            (if tok_length token > 2 \<and> char_at (lexeme token) 0 = CHR ''0'' then
               (if char_at (lexeme token) 1 = CHR ''x'' then (2, 16)
                else if char_at (lexeme token) 1 = CHR ''b'' then (2, 2)
                else (0, 10))
             else (0, 10));
          (v, n) = strtoll (drop skip (lexeme token)) b
      in (tok_length token = skip + n, of_int v))"

definition parse_base :: "Parser \<Rightarrow> (char \<times> Parser) option" where
  "parse_base parser =
     (if \<not> is_base (p_current parser) then None
      else Some (char_at (lexeme (p_current parser)) 0, advance parser))"

definition parse_im :: "Parser \<Rightarrow> int64_t option" where
  "parse_im parser =
     (if tok_type (p_current parser) \<noteq> TOK_NUM then None
      else case parse_number (p_current parser) of
             (False, _) \<Rightarrow> None
           | (True, result) \<Rightarrow> Some result)"

definition parse_variable_operand :: "Parser \<Rightarrow> (int64_t \<times> Parser) option" where
  "parse_variable_operand parser =
     (if tok_type (p_current parser) \<noteq> TOK_IDENT \<or> \<not> is_variable (p_current parser) then None
      else case parse_variable (p_current parser) of
             None \<Rightarrow> None
           | Some var_num \<Rightarrow> Some (var_num, advance parser))"

text \<open>The result carries the number, the \<^verbatim>\<open>is_immediate\<close> flag and the parser.\<close>

definition parse_var_or_imm :: "Parser \<Rightarrow> (int64_t \<times> bool \<times> Parser) option" where
  "parse_var_or_imm parser =
     (if tok_type (p_current parser) = TOK_IDENT \<and> is_variable (p_current parser) then
        (case parse_variable_operand parser of
           None \<Rightarrow> None
         | Some (var_num, parser') \<Rightarrow> Some (var_num, False, parser'))
      else if tok_type (p_current parser) = TOK_NUM then
        (case parse_im parser of
           None \<Rightarrow> None
         | Some result \<Rightarrow> Some (result, True, advance parser))
      else None)"


subsection \<open>Lines\<close>

text \<open>
  The tokens still to come, counted without the end-of-input token.  Every
  \<^verbatim>\<open>advance\<close> from a token other than end-of-input lowers the count, which
  bounds the loops and the recursion of the parser.
\<close>

definition remaining :: "Parser \<Rightarrow> nat" where
  "remaining parser =
     length (p_lexer parser)
     + (if tok_type (p_next parser) = TOK_EOF then 0 else 1)
     + (if tok_type (p_current parser) = TOK_EOF then 0 else 1)"

lemma remaining_advance_le: "remaining (advance parser) \<le> remaining parser"
  by (auto simp: remaining_def advance_def is_at_end_def lexer_next_token_def eof_token_def
        Let_def split: list.splits)

lemma remaining_advance_less:
  "tok_type (p_current parser) \<noteq> TOK_EOF \<Longrightarrow> remaining (advance parser) < remaining parser"
  by (auto simp: remaining_def advance_def is_at_end_def lexer_next_token_def eof_token_def
        Let_def split: list.splits)

function skip_nls :: "Parser \<Rightarrow> Parser" where
  "skip_nls parser =
     (case consume parser TOK_NL of
        (True, parser') \<Rightarrow> skip_nls parser'
      | (False, parser') \<Rightarrow> parser')"
  by pat_completeness auto
termination
  by (relation "measure remaining")
     (auto simp: consume_def remaining_advance_less split: if_splits)

declare skip_nls.simps [simp del]

definition consume_newline :: "Parser \<Rightarrow> bool \<times> Parser" where
  "consume_newline parser =
     (case consume parser TOK_NL of
        (True, parser') \<Rightarrow> (True, parser')
      | (False, parser') \<Rightarrow> consume parser' TOK_EOF)"

subsection \<open>The cases of the switch in parse\_cmd\<close>

text \<open>
  A case of the \<^verbatim>\<open>switch\<close> either returns from \<^verbatim>\<open>parse_cmd\<close> or breaks
  with \<^verbatim>\<open>cmd\<close> set.  The command is built in a local value and written to
  its address at the \<^verbatim>\<open>break\<close>; nothing reads the address before.
  \<^verbatim>\<open>free_command\<close> (in the missing \<^verbatim>\<open>command.c\<close>) releases a command; the
  heap keeps the dead cell.
\<close>

datatype flow = Returned "addr option" | Broke "addr option"

definition fail :: "Parser \<Rightarrow> flow \<times> Parser" where
  "fail parser = (Returned None, parser\<lparr>p_had_error := True\<rparr>)"

definition break_with :: "addr \<Rightarrow> Command \<Rightarrow> Parser \<Rightarrow> flow \<times> Parser" where
  "break_with a cmd parser = (Broke (Some a), parser\<lparr>p_heap := (p_heap parser)(a := cmd)\<rparr>)"

definition set_num :: "int64_t \<Rightarrow> Operand \<Rightarrow> Operand" where
  "set_num v op = op\<lparr>num_val := v\<rparr>"

definition set_str :: "string \<Rightarrow> Operand \<Rightarrow> Operand" where
  "set_str s op = op\<lparr>str_val := Some s\<rparr>"

definition parse_MOV :: "Parser \<Rightarrow> flow \<times> Parser" where
  "parse_MOV parser0 =
     (let (a, parser1) = create_command CMD_MOV parser0;
          cmd = p_heap parser1 a;
          parser2 = advance parser1 in
      case parse_variable_operand parser2 of
        None \<Rightarrow> fail parser2
      | Some (d, parser3) \<Rightarrow>
          (let parser4 = skip_nls parser3 in
           case parse_im parser4 of
             None \<Rightarrow> fail parser4
           | Some v \<Rightarrow>
               break_with a
                 (cmd\<lparr>destination := set_num d (destination cmd),
                      val_a := set_num v (val_a cmd), is_a_immediate := True\<rparr>)
                 (advance parser4)))"

definition parse_ADD_SUB :: "CommandType \<Rightarrow> Parser \<Rightarrow> flow \<times> Parser" where
  "parse_ADD_SUB ty parser0 =
     (let (a, parser1) = create_command ty parser0;
          cmd = p_heap parser1 a;
          parser2 = advance parser1 in
      case parse_variable_operand parser2 of
        None \<Rightarrow> fail parser2
      | Some (d, parser3) \<Rightarrow>
          (case parse_variable_operand parser3 of
             None \<Rightarrow> fail parser3
           | Some (va, parser4) \<Rightarrow>
               (case parse_var_or_imm parser4 of
                  None \<Rightarrow> fail parser4
                | Some (vb, imm, parser5) \<Rightarrow>
                    break_with a
                      (cmd\<lparr>destination := set_num d (destination cmd),
                           val_a := set_num va (val_a cmd),
                           val_b := set_num vb (val_b cmd), is_b_immediate := imm\<rparr>)
                      parser5)))"

definition parse_CMP :: "CommandType \<Rightarrow> Parser \<Rightarrow> flow \<times> Parser" where
  "parse_CMP ty parser0 =
     (let (a, parser1) = create_command ty parser0;
          cmd = p_heap parser1 a;
          parser2 = advance parser1 in
      case parse_variable_operand parser2 of
        None \<Rightarrow> fail parser2
      | Some (va, parser3) \<Rightarrow>
          (case parse_var_or_imm parser3 of
             None \<Rightarrow> fail parser3
           | Some (vb, imm, parser4) \<Rightarrow>
               break_with a
                 (cmd\<lparr>val_a := set_num va (val_a cmd),
                      val_b := set_num vb (val_b cmd), is_b_immediate := imm\<rparr>)
                 parser4))"

definition parse_PRINT :: "Parser \<Rightarrow> flow \<times> Parser" where
  "parse_PRINT parser0 =
     (let (a, parser1) = create_command CMD_PRINT parser0;
          cmd = p_heap parser1 a;
          parser2 = advance parser1 in
      case parse_var_or_imm parser2 of
        None \<Rightarrow> fail parser2
      | Some (va, imm, parser3) \<Rightarrow>
          (case parse_base parser3 of
             None \<Rightarrow> fail parser3
           | Some (b, parser4) \<Rightarrow>
               break_with a
                 (cmd\<lparr>val_a := set_num va (val_a cmd), is_a_immediate := imm,
                      val_b := (val_b cmd)\<lparr>base := b\<rparr>\<rparr>)
                 parser4))"

definition parse_AND_EOR_ORR :: "CommandType \<Rightarrow> Parser \<Rightarrow> flow \<times> Parser" where
  "parse_AND_EOR_ORR ty parser0 =
     (let (a, parser1) = create_command ty parser0;
          cmd = p_heap parser1 a;
          parser2 = advance parser1 in
      case parse_variable_operand parser2 of
        None \<Rightarrow> fail parser2
      | Some (d, parser3) \<Rightarrow>
          (case parse_variable_operand parser3 of
             None \<Rightarrow> fail parser3
           | Some (va, parser4) \<Rightarrow>
               (case parse_variable_operand parser4 of
                  None \<Rightarrow> fail parser4
                | Some (vb, parser5) \<Rightarrow>
                    break_with a
                      (cmd\<lparr>destination := set_num d (destination cmd),
                           val_a := set_num va (val_a cmd),
                           val_b := set_num vb (val_b cmd),
                           is_a_immediate := False, is_b_immediate := False\<rparr>)
                      parser5)))"

text \<open>The case of the shifts reads as that of ADD and SUB does.\<close>

definition parse_SHIFT :: "CommandType \<Rightarrow> Parser \<Rightarrow> flow \<times> Parser" where
  "parse_SHIFT ty parser0 =
     (let (a, parser1) = create_command ty parser0;
          cmd = p_heap parser1 a;
          parser2 = advance parser1 in
      case parse_variable_operand parser2 of
        None \<Rightarrow> fail parser2
      | Some (d, parser3) \<Rightarrow>
          (case parse_variable_operand parser3 of
             None \<Rightarrow> fail parser3
           | Some (va, parser4) \<Rightarrow>
               (case parse_var_or_imm parser4 of
                  None \<Rightarrow> fail parser4
                | Some (vb, imm, parser5) \<Rightarrow>
                    break_with a
                      (cmd\<lparr>destination := set_num d (destination cmd),
                           val_a := set_num va (val_a cmd),
                           val_b := set_num vb (val_b cmd), is_b_immediate := imm\<rparr>)
                      parser5)))"

definition parse_LOAD :: "Parser \<Rightarrow> flow \<times> Parser" where
  "parse_LOAD parser0 =
     (let (a, parser1) = create_command CMD_LOAD parser0;
          cmd = p_heap parser1 a;
          parser2 = advance parser1 in
      case parse_variable_operand parser2 of
        None \<Rightarrow> fail parser2
      | Some (d, parser3) \<Rightarrow>
          (case parse_im parser3 of
             None \<Rightarrow> fail parser3
           | Some va \<Rightarrow>
               (let parser4 = advance parser3 in
                case parse_var_or_imm parser4 of
                  None \<Rightarrow> fail parser4
                | Some (vb, imm, parser5) \<Rightarrow>
                    break_with a
                      (cmd\<lparr>destination := set_num d (destination cmd),
                           val_a := set_num va (val_a cmd), is_a_immediate := True,
                           val_b := set_num vb (val_b cmd), is_b_immediate := imm\<rparr>)
                      parser5)))"

definition parse_STORE :: "Parser \<Rightarrow> flow \<times> Parser" where
  "parse_STORE parser0 =
     (let (a, parser1) = create_command CMD_STORE parser0;
          cmd = p_heap parser1 a;
          parser2 = advance parser1 in
      case parse_variable_operand parser2 of
        None \<Rightarrow> fail parser2
      | Some (d, parser3) \<Rightarrow>
          (case parse_var_or_imm parser3 of
             None \<Rightarrow> fail parser3
           | Some (vb, imm, parser4) \<Rightarrow>
               (case parse_im parser4 of
                  None \<Rightarrow> fail parser4
                | Some va \<Rightarrow>
                    break_with a
                      (cmd\<lparr>destination := set_num d (destination cmd),
                           val_b := set_num vb (val_b cmd), is_b_immediate := imm,
                           val_a := set_num va (val_a cmd), is_a_immediate := True\<rparr>)
                      (advance parser4))))"

definition parse_PUT :: "Parser \<Rightarrow> flow \<times> Parser" where
  "parse_PUT parser0 =
     (let (a, parser1) = create_command CMD_PUT parser0;
          cmd = p_heap parser1 a;
          parser2 = advance parser1 in
      if tok_type (p_current parser2) \<noteq> TOK_STR then fail parser2
      else
        let str = take (tok_length (p_current parser2)) (lexeme (p_current parser2));
            parser3 = advance parser2 in
        case parse_var_or_imm parser3 of
          None \<Rightarrow> fail parser3
        | Some (vb, imm, parser4) \<Rightarrow>
            break_with a
              (cmd\<lparr>val_a := set_str str (val_a cmd), is_a_string := True,
                   val_b := set_num vb (val_b cmd), is_b_immediate := imm\<rparr>)
              parser4)"

definition branch_condition_of :: "TokenType \<Rightarrow> BranchCondition" where
  "branch_condition_of ty =
     (if ty = TOK_BRANCH then BRANCH_ALWAYS
      else if ty = TOK_BRANCH_EQ then BRANCH_EQUAL
      else if ty = TOK_BRANCH_GE then BRANCH_GREATER_EQUAL
      else if ty = TOK_BRANCH_GT then BRANCH_GREATER
      else if ty = TOK_BRANCH_LE then BRANCH_LESS_EQUAL
      else if ty = TOK_BRANCH_LT then BRANCH_LESS
      else if ty = TOK_BRANCH_NEQ then BRANCH_NOT_EQUAL
      else BRANCH_NONE)"

definition parse_BRANCH :: "TokenType \<Rightarrow> Parser \<Rightarrow> flow \<times> Parser" where
  "parse_BRANCH ty parser0 =
     (let (a, parser1) = create_command CMD_BRANCH parser0;
          cmd = (p_heap parser1 a)\<lparr>branch_condition := branch_condition_of ty\<rparr>;
          parser2 = advance parser1 in
      if tok_type (p_current parser2) \<noteq> TOK_IDENT then fail parser2
      else
        break_with a
          (cmd\<lparr>val_a := set_str (take (tok_length (p_current parser2)) (lexeme (p_current parser2)))
                            (val_a cmd),
               is_a_string := True\<rparr>)
          (advance parser2))"

definition parse_CALL :: "Parser \<Rightarrow> flow \<times> Parser" where
  "parse_CALL parser0 =
     (let (a, parser1) = create_command CMD_CALL parser0;
          cmd = p_heap parser1 a;
          parser2 = advance parser1 in
      if tok_type (p_current parser2) \<noteq> TOK_IDENT then fail parser2
      else
        break_with a
          (cmd\<lparr>val_a := set_str (take (tok_length (p_current parser2)) (lexeme (p_current parser2)))
                            (val_a cmd),
               is_a_string := True\<rparr>)
          (advance parser2))"

definition parse_RET :: "Parser \<Rightarrow> flow \<times> Parser" where
  "parse_RET parser0 =
     (let (a, parser1) = create_command CMD_RET parser0
      in break_with a (p_heap parser1 a) (advance parser1))"

definition parse_switch :: "Parser \<Rightarrow> flow \<times> Parser" where
  "parse_switch parser =
     (case tok_type (p_current parser) of
        TOK_MOV \<Rightarrow> parse_MOV parser
      | TOK_ADD \<Rightarrow> parse_ADD_SUB CMD_ADD parser
      | TOK_SUB \<Rightarrow> parse_ADD_SUB CMD_SUB parser
      | TOK_CMP \<Rightarrow> parse_CMP CMD_CMP parser
      | TOK_CMP_U \<Rightarrow> parse_CMP CMD_CMP_U parser
      | TOK_PRINT \<Rightarrow> parse_PRINT parser
      | TOK_AND \<Rightarrow> parse_AND_EOR_ORR CMD_AND parser
      | TOK_EOR \<Rightarrow> parse_AND_EOR_ORR CMD_EOR parser
      | TOK_ORR \<Rightarrow> parse_AND_EOR_ORR CMD_ORR parser
      | TOK_LSL \<Rightarrow> parse_SHIFT CMD_LSL parser
      | TOK_LSR \<Rightarrow> parse_SHIFT CMD_LSR parser
      | TOK_ASR \<Rightarrow> parse_SHIFT CMD_ASR parser
      | TOK_LOAD \<Rightarrow> parse_LOAD parser
      | TOK_STORE \<Rightarrow> parse_STORE parser
      | TOK_PUT \<Rightarrow> parse_PUT parser
      | TOK_BRANCH \<Rightarrow> parse_BRANCH TOK_BRANCH parser
      | TOK_BRANCH_EQ \<Rightarrow> parse_BRANCH TOK_BRANCH_EQ parser
      | TOK_BRANCH_GE \<Rightarrow> parse_BRANCH TOK_BRANCH_GE parser
      | TOK_BRANCH_GT \<Rightarrow> parse_BRANCH TOK_BRANCH_GT parser
      | TOK_BRANCH_LE \<Rightarrow> parse_BRANCH TOK_BRANCH_LE parser
      | TOK_BRANCH_LT \<Rightarrow> parse_BRANCH TOK_BRANCH_LT parser
      | TOK_BRANCH_NEQ \<Rightarrow> parse_BRANCH TOK_BRANCH_NEQ parser
      | TOK_CALL \<Rightarrow> parse_CALL parser
      | TOK_RET \<Rightarrow> parse_RET parser
      | _ \<Rightarrow> (Broke None, parser\<lparr>p_had_error := True\<rparr>))"

text \<open>
  The part of \<^verbatim>\<open>parse_cmd\<close> from the \<^verbatim>\<open>switch\<close> on: the case of the
  keyword, then the terminator.
\<close>

definition parse_instruction :: "Parser \<Rightarrow> addr option \<times> Parser" where
  "parse_instruction parser =
     (case parse_switch parser of
        (Returned r, parser') \<Rightarrow> (r, parser')
      | (Broke cmd, parser') \<Rightarrow>
          (case consume_newline parser' of
             (False, parser'') \<Rightarrow> (None, parser''\<lparr>p_had_error := True\<rparr>)
           | (True, parser'') \<Rightarrow> (cmd, parser'')))"


subsection \<open>parse\_cmd and parse\_commands\<close>

lemma remaining_skip_nls_le: "remaining (skip_nls parser) \<le> remaining parser"
proof (induction parser rule: skip_nls.induct)
  case (1 parser)
  show ?case
  proof (cases "tok_type (p_current parser) = TOK_NL")
    case True
    then have "skip_nls parser = skip_nls (advance parser)"
      by (subst skip_nls.simps) (simp add: consume_def)
    moreover have "remaining (skip_nls (advance parser)) \<le> remaining (advance parser)"
      using "1.IH" True by (simp add: consume_def)
    ultimately show ?thesis using remaining_advance_le [of parser] by simp
  next
    case False
    then have "skip_nls parser = parser"
      by (subst skip_nls.simps) (simp add: consume_def)
    then show ?thesis by simp
  qed
qed

function parse_cmd :: "Parser \<Rightarrow> addr option \<times> Parser" where
  "parse_cmd parser0 =
     (let parser = skip_nls parser0; token = p_current parser in
      if tok_type token = TOK_IDENT \<and> tok_type (p_next parser) = TOK_COLON then
        (case parse_cmd (advance (advance parser)) of
           (None, parser') \<Rightarrow> (None, parser')
         | (Some labeled_cmd, parser') \<Rightarrow>
             (case put_label (p_label_map parser') (take (tok_length token) (lexeme token))
                     (Some labeled_cmd) of
                (False, m) \<Rightarrow> (Some labeled_cmd, parser'\<lparr>p_label_map := m, p_had_error := True\<rparr>)
              | (True, m) \<Rightarrow> (Some labeled_cmd, parser'\<lparr>p_label_map := m\<rparr>)))
      else if tok_type token = TOK_EOF then (None, parser)
      else parse_instruction parser)"
  by pat_completeness auto
termination
proof (relation "measure remaining")
  show "wf (measure remaining)" by simp
next
  fix parser0 parser token
  assume p: "parser = skip_nls parser0" and t: "token = p_current parser"
    and c: "tok_type token = TOK_IDENT \<and> tok_type (p_next parser) = TOK_COLON"
  from c t have "tok_type (p_current parser) \<noteq> TOK_EOF" by simp
  then have "remaining (advance parser) < remaining parser"
    by (rule remaining_advance_less)
  with remaining_advance_le [of "advance parser"] remaining_skip_nls_le [of parser0] p
  show "(advance (advance parser), parser0) \<in> measure remaining" by simp
qed

declare parse_cmd.simps [simp del]


lemma remaining_upd [simp]:
  "remaining (parser\<lparr>p_had_error := e\<rparr>) = remaining parser"
  "remaining (parser\<lparr>p_heap := h\<rparr>) = remaining parser"
  "remaining (parser\<lparr>p_brk := b\<rparr>) = remaining parser"
  "remaining (parser\<lparr>p_label_map := m\<rparr>) = remaining parser"
  by (simp_all add: remaining_def)

lemma create_command_tokens:
  "create_command ty parser = (a, parser') \<Longrightarrow>
   remaining parser' = remaining parser \<and> p_current parser' = p_current parser"
  by (auto simp: create_command_def)

lemma parse_variable_operand_le:
  "parse_variable_operand parser = Some (v, parser') \<Longrightarrow> remaining parser' \<le> remaining parser"
  by (auto simp: parse_variable_operand_def remaining_advance_le split: if_splits option.splits)

lemma parse_var_or_imm_le:
  "parse_var_or_imm parser = Some (v, i, parser') \<Longrightarrow> remaining parser' \<le> remaining parser"
  by (auto simp: parse_var_or_imm_def remaining_advance_le
      split: if_splits option.splits dest: parse_variable_operand_le)

lemma parse_base_le:
  "parse_base parser = Some (b, parser') \<Longrightarrow> remaining parser' \<le> remaining parser"
  by (auto simp: parse_base_def remaining_advance_le split: if_splits)

lemma consume_newline_le:
  "consume_newline parser = (ok, parser') \<Longrightarrow> remaining parser' \<le> remaining parser"
  by (auto simp: consume_newline_def consume_def remaining_advance_le split: if_splits)

lemma advance_after_create:
  "create_command ty parser = (a, parser1) \<Longrightarrow> tok_type (p_current parser) \<noteq> TOK_EOF \<Longrightarrow>
   remaining (advance parser1) < remaining parser"
  using remaining_advance_less [of parser1] create_command_tokens [of ty parser a parser1]
  by simp

lemmas arm_defs = parse_MOV_def parse_ADD_SUB_def parse_CMP_def parse_PRINT_def
  parse_AND_EOR_ORR_def parse_SHIFT_def parse_LOAD_def parse_STORE_def parse_PUT_def
  parse_BRANCH_def parse_CALL_def parse_RET_def

definition advance_drop :: "Parser \<Rightarrow> nat" where
  "advance_drop parser = remaining parser - remaining (advance parser)"

definition skip_drop :: "Parser \<Rightarrow> nat" where
  "skip_drop parser = remaining parser - remaining (skip_nls parser)"

lemma remaining_drop:
  "remaining (advance parser) = remaining parser - advance_drop parser"
  "remaining (skip_nls parser) = remaining parser - skip_drop parser"
  using remaining_advance_le [of parser] remaining_skip_nls_le [of parser]
  by (simp_all add: advance_drop_def skip_drop_def)

lemma parse_MOV_progress:
  assumes "parse_MOV parser = (fl, parser')" "tok_type (p_current parser) \<noteq> TOK_EOF"
  shows "remaining parser' < remaining parser \<and> fl \<noteq> Returned (Some c) \<and> fl \<noteq> Broke None"
proof -
  obtain a p1 where cr: "create_command CMD_MOV parser = (a, p1)"
    by (cases "create_command CMD_MOV parser")
  note adv = advance_after_create [OF cr assms(2)]
  show ?thesis
    using assms(1) adv
    by (auto simp: parse_MOV_def cr fail_def break_with_def Let_def remaining_drop
        split: option.splits if_splits
        dest!: parse_variable_operand_le parse_var_or_imm_le parse_base_le)
       (arith+)?
qed

lemma parse_ADD_SUB_progress:
  assumes "parse_ADD_SUB ty parser = (fl, parser')" "tok_type (p_current parser) \<noteq> TOK_EOF"
  shows "remaining parser' < remaining parser \<and> fl \<noteq> Returned (Some c) \<and> fl \<noteq> Broke None"
proof -
  obtain a p1 where cr: "create_command ty parser = (a, p1)"
    by (cases "create_command ty parser")
  note adv = advance_after_create [OF cr assms(2)]
  show ?thesis
    using assms(1) adv
    by (auto simp: parse_ADD_SUB_def cr fail_def break_with_def Let_def remaining_drop
        split: option.splits if_splits
        dest!: parse_variable_operand_le parse_var_or_imm_le parse_base_le)
       (arith+)?
qed

lemma parse_CMP_progress:
  assumes "parse_CMP ty parser = (fl, parser')" "tok_type (p_current parser) \<noteq> TOK_EOF"
  shows "remaining parser' < remaining parser \<and> fl \<noteq> Returned (Some c) \<and> fl \<noteq> Broke None"
proof -
  obtain a p1 where cr: "create_command ty parser = (a, p1)"
    by (cases "create_command ty parser")
  note adv = advance_after_create [OF cr assms(2)]
  show ?thesis
    using assms(1) adv
    by (auto simp: parse_CMP_def cr fail_def break_with_def Let_def remaining_drop
        split: option.splits if_splits
        dest!: parse_variable_operand_le parse_var_or_imm_le parse_base_le)
       (arith+)?
qed

lemma parse_PRINT_progress:
  assumes "parse_PRINT parser = (fl, parser')" "tok_type (p_current parser) \<noteq> TOK_EOF"
  shows "remaining parser' < remaining parser \<and> fl \<noteq> Returned (Some c) \<and> fl \<noteq> Broke None"
proof -
  obtain a p1 where cr: "create_command CMD_PRINT parser = (a, p1)"
    by (cases "create_command CMD_PRINT parser")
  note adv = advance_after_create [OF cr assms(2)]
  show ?thesis
    using assms(1) adv
    by (auto simp: parse_PRINT_def cr fail_def break_with_def Let_def remaining_drop
        split: option.splits if_splits
        dest!: parse_variable_operand_le parse_var_or_imm_le parse_base_le)
       (arith+)?
qed

lemma parse_AND_EOR_ORR_progress:
  assumes "parse_AND_EOR_ORR ty parser = (fl, parser')" "tok_type (p_current parser) \<noteq> TOK_EOF"
  shows "remaining parser' < remaining parser \<and> fl \<noteq> Returned (Some c) \<and> fl \<noteq> Broke None"
proof -
  obtain a p1 where cr: "create_command ty parser = (a, p1)"
    by (cases "create_command ty parser")
  note adv = advance_after_create [OF cr assms(2)]
  show ?thesis
    using assms(1) adv
    by (auto simp: parse_AND_EOR_ORR_def cr fail_def break_with_def Let_def remaining_drop
        split: option.splits if_splits
        dest!: parse_variable_operand_le parse_var_or_imm_le parse_base_le)
       (arith+)?
qed

lemma parse_SHIFT_progress:
  assumes "parse_SHIFT ty parser = (fl, parser')" "tok_type (p_current parser) \<noteq> TOK_EOF"
  shows "remaining parser' < remaining parser \<and> fl \<noteq> Returned (Some c) \<and> fl \<noteq> Broke None"
proof -
  obtain a p1 where cr: "create_command ty parser = (a, p1)"
    by (cases "create_command ty parser")
  note adv = advance_after_create [OF cr assms(2)]
  show ?thesis
    using assms(1) adv
    by (auto simp: parse_SHIFT_def cr fail_def break_with_def Let_def remaining_drop
        split: option.splits if_splits
        dest!: parse_variable_operand_le parse_var_or_imm_le parse_base_le)
       (arith+)?
qed

lemma parse_LOAD_progress:
  assumes "parse_LOAD parser = (fl, parser')" "tok_type (p_current parser) \<noteq> TOK_EOF"
  shows "remaining parser' < remaining parser \<and> fl \<noteq> Returned (Some c) \<and> fl \<noteq> Broke None"
proof -
  obtain a p1 where cr: "create_command CMD_LOAD parser = (a, p1)"
    by (cases "create_command CMD_LOAD parser")
  note adv = advance_after_create [OF cr assms(2)]
  show ?thesis
    using assms(1) adv
    by (auto simp: parse_LOAD_def cr fail_def break_with_def Let_def remaining_drop
        split: option.splits if_splits
        dest!: parse_variable_operand_le parse_var_or_imm_le parse_base_le)
       (arith+)?
qed

lemma parse_STORE_progress:
  assumes "parse_STORE parser = (fl, parser')" "tok_type (p_current parser) \<noteq> TOK_EOF"
  shows "remaining parser' < remaining parser \<and> fl \<noteq> Returned (Some c) \<and> fl \<noteq> Broke None"
proof -
  obtain a p1 where cr: "create_command CMD_STORE parser = (a, p1)"
    by (cases "create_command CMD_STORE parser")
  note adv = advance_after_create [OF cr assms(2)]
  show ?thesis
    using assms(1) adv
    by (auto simp: parse_STORE_def cr fail_def break_with_def Let_def remaining_drop
        split: option.splits if_splits
        dest!: parse_variable_operand_le parse_var_or_imm_le parse_base_le)
       (arith+)?
qed

lemma parse_PUT_progress:
  assumes "parse_PUT parser = (fl, parser')" "tok_type (p_current parser) \<noteq> TOK_EOF"
  shows "remaining parser' < remaining parser \<and> fl \<noteq> Returned (Some c) \<and> fl \<noteq> Broke None"
proof -
  obtain a p1 where cr: "create_command CMD_PUT parser = (a, p1)"
    by (cases "create_command CMD_PUT parser")
  note adv = advance_after_create [OF cr assms(2)]
  show ?thesis
    using assms(1) adv
    by (auto simp: parse_PUT_def cr fail_def break_with_def Let_def remaining_drop
        split: option.splits if_splits
        dest!: parse_variable_operand_le parse_var_or_imm_le parse_base_le)
       (arith+)?
qed

lemma parse_BRANCH_progress:
  assumes "parse_BRANCH tk parser = (fl, parser')" "tok_type (p_current parser) \<noteq> TOK_EOF"
  shows "remaining parser' < remaining parser \<and> fl \<noteq> Returned (Some c) \<and> fl \<noteq> Broke None"
proof -
  obtain a p1 where cr: "create_command CMD_BRANCH parser = (a, p1)"
    by (cases "create_command CMD_BRANCH parser")
  note adv = advance_after_create [OF cr assms(2)]
  show ?thesis
    using assms(1) adv
    by (auto simp: parse_BRANCH_def cr fail_def break_with_def Let_def remaining_drop
        split: option.splits if_splits
        dest!: parse_variable_operand_le parse_var_or_imm_le parse_base_le)
       (arith+)?
qed

lemma parse_CALL_progress:
  assumes "parse_CALL parser = (fl, parser')" "tok_type (p_current parser) \<noteq> TOK_EOF"
  shows "remaining parser' < remaining parser \<and> fl \<noteq> Returned (Some c) \<and> fl \<noteq> Broke None"
proof -
  obtain a p1 where cr: "create_command CMD_CALL parser = (a, p1)"
    by (cases "create_command CMD_CALL parser")
  note adv = advance_after_create [OF cr assms(2)]
  show ?thesis
    using assms(1) adv
    by (auto simp: parse_CALL_def cr fail_def break_with_def Let_def remaining_drop
        split: option.splits if_splits
        dest!: parse_variable_operand_le parse_var_or_imm_le parse_base_le)
       (arith+)?
qed

lemma parse_RET_progress:
  assumes "parse_RET parser = (fl, parser')" "tok_type (p_current parser) \<noteq> TOK_EOF"
  shows "remaining parser' < remaining parser \<and> fl \<noteq> Returned (Some c) \<and> fl \<noteq> Broke None"
proof -
  obtain a p1 where cr: "create_command CMD_RET parser = (a, p1)"
    by (cases "create_command CMD_RET parser")
  note adv = advance_after_create [OF cr assms(2)]
  show ?thesis
    using assms(1) adv
    by (auto simp: parse_RET_def cr fail_def break_with_def Let_def remaining_drop
        split: option.splits if_splits
        dest!: parse_variable_operand_le parse_var_or_imm_le parse_base_le)
       (arith+)?
qed

lemma parse_switch_progress:
  assumes "tok_type (p_current parser) \<noteq> TOK_EOF" "parse_switch parser = (fl, parser')"
  shows "fl \<noteq> Returned (Some c)
       \<and> (fl = Broke None \<and> remaining parser' = remaining parser \<and> p_current parser' = p_current parser
          \<or> fl \<noteq> Broke None \<and> remaining parser' < remaining parser)"
  using assms
  by (cases "tok_type (p_current parser)")
     (auto simp: parse_switch_def
      dest: parse_MOV_progress parse_ADD_SUB_progress parse_CMP_progress parse_PRINT_progress
        parse_AND_EOR_ORR_progress parse_SHIFT_progress parse_LOAD_progress parse_STORE_progress
        parse_PUT_progress parse_BRANCH_progress parse_CALL_progress parse_RET_progress)

lemma parse_instruction_progress:
  assumes "tok_type (p_current parser) \<noteq> TOK_EOF" "parse_instruction parser = (Some c, parser')"
  shows "remaining parser' < remaining parser"
proof -
  obtain fl p1 where sw: "parse_switch parser = (fl, p1)" by (cases "parse_switch parser")
  from parse_switch_progress [OF assms(1) sw, of c] assms(2) sw
  show ?thesis
    by (auto simp: parse_instruction_def split: flow.splits prod.splits bool.splits
        dest!: consume_newline_le)
qed

lemma parse_cmd_progress:
  "parse_cmd parser0 = (Some c, parser') \<Longrightarrow> remaining parser' < remaining parser0"
proof (induction parser0 arbitrary: c parser' rule: parse_cmd.induct)
  case (1 parser0)
  let ?p = "skip_nls parser0"
  show ?case
  proof (cases "tok_type (p_current ?p) = TOK_IDENT \<and> tok_type (p_next ?p) = TOK_COLON")
    case True
    then have ne: "tok_type (p_current ?p) \<noteq> TOK_EOF" by simp
    obtain r p2 where rec: "parse_cmd (advance (advance ?p)) = (r, p2)"
      by (cases "parse_cmd (advance (advance ?p))")
    from "1.prems" True rec have r: "r = Some c" and rem: "remaining parser' = remaining p2"
      by (subst (asm) parse_cmd.simps, auto simp: Let_def split: option.splits prod.splits bool.splits)+
    from "1.IH" [OF refl refl True] rec r have "remaining p2 < remaining (advance (advance ?p))"
      by simp
    with rem remaining_advance_le [of "advance ?p"] remaining_advance_le [of ?p]
      remaining_skip_nls_le [of parser0]
    show ?thesis by simp
  next
    case False
    with "1.prems" have ne: "tok_type (p_current ?p) \<noteq> TOK_EOF"
      and pi: "parse_instruction ?p = (Some c, parser')"
      by (subst (asm) parse_cmd.simps, auto simp: Let_def split: if_splits)+
    from parse_instruction_progress [OF ne pi] remaining_skip_nls_le [of parser0]
    show ?thesis by simp
  qed
qed

lemma parse_cmd_progress_snd:
  "parse_cmd parser0 = (Some c, parser') \<Longrightarrow> remaining (snd (parse_cmd parser0)) < remaining parser0"
  using parse_cmd_progress [of parser0 c parser'] by simp

text \<open>
  \<^verbatim>\<open>parse_commands\<close>: \<open>head\<close> is the list built so far and \<open>tail\<close> the last
  command linked (\<open>None\<close> while \<^verbatim>\<open>tail_ptr\<close> still points at \<^verbatim>\<open>head\<close>).
\<close>

function parse_commands_loop :: "addr option \<Rightarrow> addr option \<Rightarrow> Parser \<Rightarrow> addr option \<times> Parser" where
  "parse_commands_loop head tail parser =
     (if \<not> p_had_error parser \<and> \<not> is_at_end parser then
        (case parse_cmd parser of
           (None, parser') \<Rightarrow> (head, parser')
         | (Some cmd, parser') \<Rightarrow>
             (case tail of
                None \<Rightarrow> parse_commands_loop (Some cmd) (Some cmd) parser'
              | Some t \<Rightarrow>
                  parse_commands_loop head (Some cmd)
                    (parser'\<lparr>p_heap := (p_heap parser')(t := (p_heap parser' t)\<lparr>cmd_next := Some cmd\<rparr>)\<rparr>)))
      else (head, parser))"
  by pat_completeness auto
termination
proof (relation "measure (\<lambda>(head, tail, parser). remaining parser)")
  show "wf (measure (\<lambda>(head, tail, parser). remaining parser))" by simp
qed (auto simp: case_prod_beta dest: parse_cmd_progress [OF sym] parse_cmd_progress_snd [OF sym])

declare parse_commands_loop.simps [simp del]

definition parse_commands :: "Parser \<Rightarrow> addr option \<times> Parser" where
  "parse_commands parser = parse_commands_loop None None parser"

section \<open>Notions used in the statements\<close>

text \<open>
  The C types fix the size of the register file and of every saved frame;
  with lists that is a property of the state, kept by every command.
\<close>

definition regs_ok :: "Interpreter \<Rightarrow> bool" where
  "regs_ok intr =
     (length (variables intr) = NUM_VARIABLES
      \<and> (\<forall>fr \<in> set (the_stack intr). length (se_variables fr) = NUM_VARIABLES))"

text \<open>
  Executions with calls nested \<open>n\<close> deep.  \<open>nested h n c c'\<close>: from
  configuration \<open>c\<close> (the \<^verbatim>\<open>current\<close> pointer and the interpreter) the loop
  reaches \<open>c'\<close> by commands other than CALL and RET, then, when \<open>n > 0\<close>, a
  CALL, an execution nested \<open>n - 1\<close> deep from the callee's first command up
  to a RET, that RET, and again commands other than CALL and RET.  Every step
  is one pass of the loop body that starts without the error flag.
\<close>

inductive nested ::
  "(addr \<Rightarrow> Command) \<Rightarrow> nat \<Rightarrow> addr option \<times> Interpreter \<Rightarrow> addr option \<times> Interpreter \<Rightarrow> bool"
  for h :: "addr \<Rightarrow> Command"
where
  nested_done: "nested h 0 c c"
| nested_plain:
    "\<lbrakk>cmd_type (h a) \<noteq> CMD_CALL; cmd_type (h a) \<noteq> CMD_RET; \<not> had_error intr;
      loop_body h a intr = Inr c'; nested h n c' c''\<rbrakk>
     \<Longrightarrow> nested h n (Some a, intr) c''"
| nested_call:
    "\<lbrakk>cmd_type (h a) = CMD_CALL; \<not> had_error intr; loop_body h a intr = Inr c1;
      nested h n c1 (Some r, intr2);
      cmd_type (h r) = CMD_RET; \<not> had_error intr2; loop_body h r intr2 = Inr c3;
      nested h 0 c3 c4\<rbrakk>
     \<Longrightarrow> nested h (Suc n) (Some a, intr) c4"

text \<open>The character \<^verbatim>\<open>to_binary_string\<close> writes for bit \<open>j\<close> of a number.\<close>

definition bit_char :: "64 word \<Rightarrow> nat \<Rightarrow> char" where
  "bit_char num j = (if bit num j then CHR ''1'' else CHR ''0'')"

section \<open>Example states and programs\<close>

text \<open>
  Concrete inputs on which the theorems below are exercised.  An operand that
  holds a number, and a command as \<^verbatim>\<open>calloc\<close> and \<^verbatim>\<open>create_command\<close> leave it.
\<close>

definition num_operand :: "int64_t \<Rightarrow> Operand" where
  "num_operand n = \<lparr>num_val = n, str_val = None, base = CHR 0x00\<rparr>"

definition blank_command :: "CommandType \<Rightarrow> Command" where
  "blank_command ty =
     \<lparr>cmd_type = ty, cmd_next = None, is_a_immediate = False, is_a_string = False,
      is_b_immediate = False, is_b_string = False, branch_condition = BRANCH_NONE,
      destination = num_operand 0, val_a = num_operand 0, val_b = num_operand 0\<rparr>"

definition example_intr :: Interpreter where
  "example_intr = interpreter_init (label_map_init 8) (replicate 64 0) []"

text \<open>\<^verbatim>\<open>cmp x1 3\<close> with 5 in \<^verbatim>\<open>x1\<close>.\<close>

definition cmp_prog :: "addr \<Rightarrow> Command" where
  "cmp_prog = (\<lambda>_. (blank_command CMD_CMP)
     \<lparr>val_a := num_operand 1, val_b := num_operand 3, is_b_immediate := True\<rparr>)"

definition cmp_intr :: Interpreter where
  "cmp_intr = example_intr\<lparr>variables := (variables example_intr)[1 := 5]\<rparr>"

text \<open>\<^verbatim>\<open>add x2 x0 1\<close> with the largest signed value in \<^verbatim>\<open>x0\<close>.\<close>

definition add_prog :: "addr \<Rightarrow> Command" where
  "add_prog = (\<lambda>_. (blank_command CMD_ADD)
     \<lparr>destination := num_operand 2, val_a := num_operand 0, val_b := num_operand 1,
      is_b_immediate := True\<rparr>)"

definition add_intr :: Interpreter where
  "add_intr = example_intr\<lparr>variables := (variables example_intr)[0 := 0x7FFFFFFFFFFFFFFF]\<rparr>"

text \<open>A shift of \<^verbatim>\<open>x1\<close> into \<^verbatim>\<open>x2\<close> by an immediate amount, with the sign bit alone set in \<^verbatim>\<open>x1\<close>.\<close>

definition shift_prog :: "CommandType \<Rightarrow> int64_t \<Rightarrow> addr \<Rightarrow> Command" where
  "shift_prog ty n = (\<lambda>_. (blank_command ty)
     \<lparr>destination := num_operand 2, val_a := num_operand 1, val_b := num_operand n,
      is_b_immediate := True\<rparr>)"

definition shift_intr :: Interpreter where
  "shift_intr = example_intr\<lparr>variables := (variables example_intr)[1 := 0x8000000000000000]\<rparr>"

text \<open>A branch to a label, with \<^verbatim>\<open>current->next\<close> at address 1.\<close>

definition str_operand :: "string \<Rightarrow> Operand" where
  "str_operand s = \<lparr>num_val = 0, str_val = Some s, base = CHR 0x00\<rparr>"

definition branch_prog :: "BranchCondition \<Rightarrow> string \<Rightarrow> addr \<Rightarrow> Command" where
  "branch_prog c l = (\<lambda>_. (blank_command CMD_BRANCH)
     \<lparr>branch_condition := c, val_a := str_operand l, is_a_string := True, cmd_next := Some 1\<rparr>)"

text \<open>\<^verbatim>\<open>store\<close> of 8 bytes at offset 0 from the register with index \<open>r\<close>.\<close>

definition store_prog :: "int64_t \<Rightarrow> addr \<Rightarrow> Command" where
  "store_prog r = (\<lambda>_. (blank_command CMD_STORE)
     \<lparr>destination := num_operand r, val_a := num_operand 8, is_a_immediate := True,
      val_b := num_operand 0, is_b_immediate := True\<rparr>)"

text \<open>
  Two nested calls:
  \<^verbatim>\<open>0: call f   1: ret   2: f: mov x1 9   3: call g   4: ret   5: g: mov x0 7   6: ret\<close>
  run from a state with 5 in \<^verbatim>\<open>x1\<close>.  \<open>nest_intr stk x0 x1\<close> is the state with
  call stack \<open>stk\<close> and the given values in \<^verbatim>\<open>x0\<close> and \<^verbatim>\<open>x1\<close>.
\<close>

definition nest_map :: LabelMap where
  "nest_map = snd (put_label (snd (put_label (label_map_init 8) ''f'' (Some 2))) ''g'' (Some 5))"

definition nest_regs :: "int64_t \<Rightarrow> int64_t \<Rightarrow> int64_t list" where
  "nest_regs x0 x1 = x0 # x1 # replicate 30 0"

definition call_cmd :: "string \<Rightarrow> addr option \<Rightarrow> Command" where
  "call_cmd l n = (blank_command CMD_CALL)\<lparr>val_a := str_operand l, is_a_string := True, cmd_next := n\<rparr>"

definition mov_cmd :: "int64_t \<Rightarrow> int64_t \<Rightarrow> addr option \<Rightarrow> Command" where
  "mov_cmd d v n = (blank_command CMD_MOV)
     \<lparr>destination := num_operand d, val_a := num_operand v, is_a_immediate := True, cmd_next := n\<rparr>"

definition ret_cmd :: "addr option \<Rightarrow> Command" where
  "ret_cmd n = (blank_command CMD_RET)\<lparr>cmd_next := n\<rparr>"

definition nest_prog :: "addr \<Rightarrow> Command" where
  "nest_prog a =
     (if a = 0 then call_cmd ''f'' (Some 1)
      else if a = 1 then ret_cmd (Some 2)
      else if a = 2 then mov_cmd 1 9 (Some 3)
      else if a = 3 then call_cmd ''g'' (Some 4)
      else if a = 4 then ret_cmd (Some 5)
      else if a = 5 then mov_cmd 0 7 (Some 6)
      else ret_cmd None)"

definition nest_frame_f :: StackEntry where
  "nest_frame_f = \<lparr>se_variables = nest_regs 0 5, se_command = Some 1\<rparr>"

definition nest_frame_g :: StackEntry where
  "nest_frame_g = \<lparr>se_variables = nest_regs 0 9, se_command = Some 4\<rparr>"

definition nest_intr :: "StackEntry list \<Rightarrow> int64_t \<Rightarrow> int64_t \<Rightarrow> Interpreter" where
  "nest_intr stk x0 x1 =
     (interpreter_init nest_map (replicate 64 0) [])\<lparr>the_stack := stk, variables := nest_regs x0 x1\<rparr>"

text \<open>\<^verbatim>\<open>print x1\<close> in the base \<open>b\<close>, with \<open>v\<close> in \<^verbatim>\<open>x1\<close>.\<close>

definition print_prog :: "char \<Rightarrow> addr \<Rightarrow> Command" where
  "print_prog b = (\<lambda>_. (blank_command CMD_PRINT)
     \<lparr>val_a := num_operand 1, val_b := \<lparr>num_val = 0, str_val = None, base = b\<rparr>\<rparr>)"

definition print_intr :: "int64_t \<Rightarrow> Interpreter" where
  "print_intr v = example_intr\<lparr>variables := (variables example_intr)[1 := v]\<rparr>"

text \<open>
  The tokens ahead of the parser: \<open>peek parser 0\<close> is \<^verbatim>\<open>current\<close>,
  \<open>peek parser 1\<close> is \<^verbatim>\<open>next\<close>, then come the tokens of the lexer and after
  them the end-of-input token.
\<close>

definition upcoming :: "Parser \<Rightarrow> Token list" where
  "upcoming parser = p_current parser # p_next parser # p_lexer parser"

definition peek :: "Parser \<Rightarrow> nat \<Rightarrow> Token" where
  "peek parser i = (if i < length (upcoming parser) then upcoming parser ! i else eof_token)"

text \<open>
  The number of operand tokens that the case of a keyword in \<^verbatim>\<open>parse_cmd\<close>
  reads, and the kinds that are keywords.
\<close>

definition operand_count :: "TokenType \<Rightarrow> nat" where
  "operand_count kw =
     (if kw \<in> {TOK_ADD, TOK_SUB, TOK_AND, TOK_EOR, TOK_ORR, TOK_LSL, TOK_LSR, TOK_ASR,
                TOK_LOAD, TOK_STORE} then 3
      else if kw \<in> {TOK_MOV, TOK_CMP, TOK_CMP_U, TOK_PRINT, TOK_PUT} then 2
      else if kw \<in> {TOK_BRANCH, TOK_BRANCH_EQ, TOK_BRANCH_GE, TOK_BRANCH_GT, TOK_BRANCH_LE,
                     TOK_BRANCH_LT, TOK_BRANCH_NEQ, TOK_CALL} then 1
      else 0)"

definition is_keyword :: "TokenType \<Rightarrow> bool" where
  "is_keyword kw =
     (kw \<notin> {TOK_IDENT, TOK_NUM, TOK_STR, TOK_NL, TOK_EOF, TOK_COLON})"

text \<open>A token of the given kind whose text is the whole of \<open>s\<close>.\<close>

definition token :: "TokenType \<Rightarrow> string \<Rightarrow> Token" where
  "token ty s = \<lparr>tok_type = ty, lexeme = s, tok_length = length s\<rparr>"

definition mov_nl_source :: string where
  "mov_nl_source = ''mov x0'' @ [CHR 0x0A] @ ''5'' @ [CHR 0x0A]"

definition mov_nl_tokens :: "Token list" where
  "mov_nl_tokens =
     [\<lparr>tok_type = TOK_MOV, lexeme = mov_nl_source, tok_length = 3\<rparr>,
      \<lparr>tok_type = TOK_IDENT, lexeme = drop 4 mov_nl_source, tok_length = 2\<rparr>,
      \<lparr>tok_type = TOK_NL, lexeme = drop 6 mov_nl_source, tok_length = 1\<rparr>,
      \<lparr>tok_type = TOK_NUM, lexeme = drop 7 mov_nl_source, tok_length = 1\<rparr>,
      \<lparr>tok_type = TOK_NL, lexeme = drop 8 mov_nl_source, tok_length = 1\<rparr>]"

definition mov_nl_parser :: Parser where
  "mov_nl_parser = parser_init mov_nl_tokens (label_map_init 8) (\<lambda>_. blank_command CMD_RET) 0"



text \<open>The source \<^verbatim>\<open>L: ret\<close> on two lines.\<close>

definition dup_tokens :: "Token list" where
  "dup_tokens =
     [token TOK_IDENT ''L'', token TOK_COLON '':'', token TOK_RET ''ret'', token TOK_NL [CHR 0x0A],
      token TOK_IDENT ''L'', token TOK_COLON '':'', token TOK_RET ''ret'', token TOK_NL [CHR 0x0A]]"

definition dup_parser :: Parser where
  "dup_parser = parser_init dup_tokens (label_map_init 8) (\<lambda>_. blank_command CMD_RET) 0"

text \<open>The parser after the first line.\<close>

definition dup_second :: Parser where
  "dup_second = snd (parse_cmd dup_parser)"

text \<open>
  What the tokens of a lexer are taken to satisfy: no newline or end-of-input
  token ahead is one of the single letters \<^verbatim>\<open>d\<close>, \<^verbatim>\<open>x\<close>, \<^verbatim>\<open>s\<close>, \<^verbatim>\<open>b\<close>
  (\<^verbatim>\<open>parse_base\<close> looks at the text of a token, not at its kind).
\<close>

definition nl_tokens_ok :: "Parser \<Rightarrow> bool" where
  "nl_tokens_ok parser =
     list_all (\<lambda>t. tok_type t = TOK_NL \<or> tok_type t = TOK_EOF \<longrightarrow> \<not> is_base t) (upcoming parser)"

text \<open>The source \<^verbatim>\<open>add x1\<close>, newline, \<^verbatim>\<open>x2 x3\<close>, newline.\<close>

definition add_nl_parser :: Parser where
  "add_nl_parser =
     parser_init
       [token TOK_ADD ''add'', token TOK_IDENT ''x1'', token TOK_NL [CHR 0x0A],
        token TOK_IDENT ''x2'', token TOK_IDENT ''x3'', token TOK_NL [CHR 0x0A]]
       (label_map_init 8) (\<lambda>_. blank_command CMD_RET) 0"

section \<open>Properties\<close>

lemmas ex_defs = example_intr_def interpreter_init_def label_map_init_def NUM_VARIABLES_def
  blank_command_def num_operand_def

subsection \<open>The loop\<close>

lemma interpret_loop_null: "interpret_loop h None intr = Some (Inr (None, intr))"
  by (subst interpret_loop.simps) simp

lemma interpret_loop_error:
  "had_error intr \<Longrightarrow> interpret_loop h (Some a) intr = Some (Inr (Some a, intr))"
  by (subst interpret_loop.simps) simp

lemma interpret_loop_step:
  "\<not> had_error intr \<Longrightarrow> loop_body h a intr = Inr (cur, intr') \<Longrightarrow>
   interpret_loop h (Some a) intr = interpret_loop h cur intr'"
  by (subst interpret_loop.simps) simp

lemma interpret_loop_fault:
  "\<not> had_error intr \<Longrightarrow> loop_body h a intr = Inl f \<Longrightarrow>
   interpret_loop h (Some a) intr = Some (Inl f)"
  by (subst interpret_loop.simps) simp

lemma loop_body_no_jump:
  "exec_switch (h a) a intr = no_jump a r \<Longrightarrow>
   loop_body h a intr =
     (case r of Inl f \<Rightarrow> Inl f
      | Inr i \<Rightarrow> Inr (if had_error i then Some a else cmd_next (h a), i))"
  by (simp add: loop_body_def no_jump_def split: sum.splits)

subsection \<open>Fetching an operand\<close>

lemma fetch_cases:
  "fetch_number_value intr op is_im = (v, intr') \<Longrightarrow>
   intr' = intr \<or> (intr' = intr\<lparr>had_error := True\<rparr> \<and> v = 0)"
  by (auto simp: fetch_number_value_def Let_def split: if_splits)

lemma fetch_snd_error:
  "had_error intr \<Longrightarrow> had_error (snd (fetch_number_value intr op is_im))"
  by (auto simp: fetch_number_value_def Let_def split: if_splits)

subsection \<open>CMP and CMP\_U\<close>

text \<open>
  C3.  After a CMP or CMP\_U that executed without error, \<open>is_greater\<close> is the
  signed comparison of the two fetched operands for CMP and the unsigned
  comparison for CMP\_U, \<open>is_equal\<close> is their equality, \<open>is_less\<close> is the
  negation of (greater or equal), exactly one of the three flags is true, and
  execution goes on with the next command.
\<close>

theorem cmp_flags_exactly_one:
  assumes ty: "cmd_type (h a) = CMD_CMP \<or> cmd_type (h a) = CMD_CMP_U"
    and ok: "\<not> had_error intr"
    and run: "loop_body h a intr = Inr (cur, intr')"
    and ok': "\<not> had_error intr'"
  shows "is_greater intr' =
           (if cmd_type (h a) = CMD_CMP
            then sint (fst (fetch_number_value intr (val_a (h a)) False))
                   > sint (fst (fetch_number_value intr (val_b (h a)) (is_b_immediate (h a))))
            else unat (fst (fetch_number_value intr (val_a (h a)) False))
                   > unat (fst (fetch_number_value intr (val_b (h a)) (is_b_immediate (h a)))))
       \<and> is_equal intr' =
           (fst (fetch_number_value intr (val_a (h a)) False)
              = fst (fetch_number_value intr (val_b (h a)) (is_b_immediate (h a))))
       \<and> is_less intr' = (\<not> (is_greater intr' \<or> is_equal intr'))
       \<and> ((is_greater intr' \<and> \<not> is_equal intr' \<and> \<not> is_less intr')
          \<or> (\<not> is_greater intr' \<and> is_equal intr' \<and> \<not> is_less intr')
          \<or> (\<not> is_greater intr' \<and> \<not> is_equal intr' \<and> is_less intr'))
       \<and> cur = cmd_next (h a)"
proof -
  obtain x i1 where f1: "fetch_number_value intr (val_a (h a)) False = (x, i1)"
    by (cases "fetch_number_value intr (val_a (h a)) False")
  obtain y i2 where f2: "fetch_number_value i1 (val_b (h a)) (is_b_immediate (h a)) = (y, i2)"
    by (cases "fetch_number_value i1 (val_b (h a)) (is_b_immediate (h a))")
  have sw: "exec_switch (h a) a intr = no_jump a (exec_CMP (h a) intr)"
    using ty by (auto simp: exec_switch_def)
  from run have lb: "(case exec_CMP (h a) intr of Inl f \<Rightarrow> Inl f
      | Inr i \<Rightarrow> Inr (if had_error i then Some a else cmd_next (h a), i)) = Inr (cur, intr')"
    by (simp add: loop_body_no_jump [of h a intr, OF sw])
  have noerr: "\<not> had_error i2"
    using lb ok' f1 f2 by (auto simp: exec_CMP_def Let_def split: if_splits)
  then have i1: "i1 = intr"
    using fetch_cases [OF f1] fetch_snd_error [of i1 "val_b (h a)" "is_b_immediate (h a)"] f2
    by auto
  have y: "fst (fetch_number_value intr (val_b (h a)) (is_b_immediate (h a))) = y"
    using f2 i1 by simp
  show ?thesis
    using lb ok' f1 f2 y noerr
    by (auto simp: exec_CMP_def Let_def split: if_splits)
qed

theorem cmp_flags_exactly_one_witness:
  "(cmd_type (cmp_prog 0) = CMD_CMP \<or> cmd_type (cmp_prog 0) = CMD_CMP_U)
   \<and> \<not> had_error cmp_intr
   \<and> loop_body cmp_prog 0 cmp_intr = Inr (None, cmp_intr\<lparr>is_greater := True\<rparr>)
   \<and> \<not> had_error (cmp_intr\<lparr>is_greater := True\<rparr>)
   \<and> is_greater (cmp_intr\<lparr>is_greater := True\<rparr>)
   \<and> \<not> is_equal (cmp_intr\<lparr>is_greater := True\<rparr>)
   \<and> \<not> is_less (cmp_intr\<lparr>is_greater := True\<rparr>)"
proof -
  have 1: "cmd_type (cmp_prog 0) = CMD_CMP \<or> cmd_type (cmp_prog 0) = CMD_CMP_U"
    by (simp add: cmp_prog_def ex_defs)
  have 2: "\<not> had_error cmp_intr" by (simp add: cmp_intr_def ex_defs)
  have 3: "loop_body cmp_prog 0 cmp_intr = Inr (None, cmp_intr\<lparr>is_greater := True\<rparr>)"
    by (simp add: loop_body_def exec_switch_def no_jump_def exec_CMP_def fetch_number_value_def
          cmp_prog_def cmp_intr_def ex_defs)
  have 4: "\<not> had_error (cmp_intr\<lparr>is_greater := True\<rparr>)" using 2 by simp
  show ?thesis
    using cmp_flags_exactly_one [of cmp_prog 0, OF 1 2 3 4] 1 2 3 by (simp add: cmp_intr_def ex_defs)
qed

subsection \<open>ADD and SUB\<close>

text \<open>
  C4.  When both operands of an ADD or SUB are fetched without error, the
  destination index is checked against 0..31: outside it the error flag is
  set, the command is not left and the loop stops there; inside it the register
  receives the sum or difference modulo \<open>2 ^ 64\<close> and execution goes on with
  the next command.
\<close>

theorem add_sub_wraps:
  assumes ty: "cmd_type (h a) = CMD_ADD \<or> cmd_type (h a) = CMD_SUB"
    and ok: "\<not> had_error intr"
    and fa: "fetch_number_value intr (val_a (h a)) False = (x, intr)"
    and fb: "fetch_number_value intr (val_b (h a)) (is_b_immediate (h a)) = (y, intr)"
  shows "loop_body h a intr =
           (if sint (num_val (destination (h a))) < 0 \<or> 32 \<le> sint (num_val (destination (h a)))
            then Inr (Some a, intr\<lparr>had_error := True\<rparr>)
            else Inr (cmd_next (h a),
                      intr\<lparr>variables := (variables intr)
                         [nat (sint (num_val (destination (h a)))) :=
                            (if cmd_type (h a) = CMD_ADD then x + y else x - y)]\<rparr>))
       \<and> (sint (num_val (destination (h a))) < 0 \<or> 32 \<le> sint (num_val (destination (h a)))
            \<longrightarrow> interpret_loop h (Some a) intr = Some (Inr (Some a, intr\<lparr>had_error := True\<rparr>)))
       \<and> uint (x + y) = (uint x + uint y) mod 2 ^ 64
       \<and> uint (x - y) = (uint x - uint y) mod 2 ^ 64"
proof -
  have sw: "exec_switch (h a) a intr = no_jump a (exec_ADD_SUB (h a) intr)"
    using ty by (auto simp: exec_switch_def)
  have lb: "loop_body h a intr =
           (if sint (num_val (destination (h a))) < 0 \<or> 32 \<le> sint (num_val (destination (h a)))
            then Inr (Some a, intr\<lparr>had_error := True\<rparr>)
            else Inr (cmd_next (h a),
                      intr\<lparr>variables := (variables intr)
                         [nat (sint (num_val (destination (h a)))) :=
                            (if cmd_type (h a) = CMD_ADD then x + y else x - y)]\<rparr>))"
    using ok fa fb
    by (auto simp: loop_body_no_jump [of h a intr, OF sw] exec_ADD_SUB_def Let_def
          NUM_VARIABLES_def)
  have stop: "interpret_loop h (Some a) intr = Some (Inr (Some a, intr\<lparr>had_error := True\<rparr>))"
    if bad: "sint (num_val (destination (h a))) < 0 \<or> 32 \<le> sint (num_val (destination (h a)))"
  proof -
    from bad lb have "loop_body h a intr = Inr (Some a, intr\<lparr>had_error := True\<rparr>)"
      by (simp only: if_True)
    from interpret_loop_step [OF ok this] show ?thesis
      by (simp add: interpret_loop_error)
  qed
  have "uint (x + y) = (uint x + uint y) mod 2 ^ 64"
    and "uint (x - y) = (uint x - uint y) mod 2 ^ 64"
    by (simp_all add: uint_word_ariths)
  with lb stop show ?thesis by blast
qed

theorem add_sub_wraps_witness:
  "(cmd_type (add_prog 0) = CMD_ADD \<or> cmd_type (add_prog 0) = CMD_SUB)
   \<and> \<not> had_error add_intr
   \<and> fetch_number_value add_intr (val_a (add_prog 0)) False = (0x7FFFFFFFFFFFFFFF, add_intr)
   \<and> fetch_number_value add_intr (val_b (add_prog 0)) (is_b_immediate (add_prog 0)) = (1, add_intr)
   \<and> loop_body add_prog 0 add_intr =
       Inr (None, add_intr\<lparr>variables := (variables add_intr)[2 := 0x8000000000000000]\<rparr>)
   \<and> sint (0x8000000000000000 :: 64 word) = - (2 ^ 63)"
proof -
  have 1: "cmd_type (add_prog 0) = CMD_ADD \<or> cmd_type (add_prog 0) = CMD_SUB"
    by (simp add: add_prog_def ex_defs)
  have 2: "\<not> had_error add_intr" by (simp add: add_intr_def ex_defs)
  have 3: "fetch_number_value add_intr (val_a (add_prog 0)) False
             = (0x7FFFFFFFFFFFFFFF, add_intr)"
    by (simp add: fetch_number_value_def add_prog_def add_intr_def ex_defs)
  have 4: "fetch_number_value add_intr (val_b (add_prog 0)) (is_b_immediate (add_prog 0))
             = (1, add_intr)"
    by (simp add: fetch_number_value_def add_prog_def add_intr_def ex_defs)
  have 5: "sint (num_val (destination (add_prog 0))) = 2"
    "cmd_type (add_prog 0) = CMD_ADD" "cmd_next (add_prog 0) = None"
    by (simp_all add: add_prog_def ex_defs)
  have 6: "(0x7FFFFFFFFFFFFFFF :: 64 word) + 1 = 0x8000000000000000" by simp
  have 7: "sint (0x8000000000000000 :: 64 word) = - (2 ^ 63)" by simp
  show ?thesis
    using add_sub_wraps [of add_prog 0, OF 1 2 3 4] 1 2 3 4 7 unfolding 5 6 by simp
qed

subsection \<open>LSL, LSR and ASR\<close>

text \<open>
  C5.  When both operands of a shift are fetched without error, the amount is
  checked against 0..63 as a signed value: outside it (64 and -1 included) the
  error flag is set, the command is not left and the loop stops there; inside
  it (63 included) the destination register, when its index is a register's,
  receives the value of the first source register shifted: LSL multiplies by
  \<open>2 ^ b\<close> modulo \<open>2 ^ 64\<close>, LSR divides the unsigned value by \<open>2 ^ b\<close>
  (zeros come in), ASR divides the signed value by \<open>2 ^ b\<close> rounding down
  (the sign bit comes in).
\<close>

theorem shift_bounds:
  assumes ty: "cmd_type (h a) = CMD_LSL \<or> cmd_type (h a) = CMD_LSR \<or> cmd_type (h a) = CMD_ASR"
    and ok: "\<not> had_error intr"
    and fa: "fetch_number_value intr (val_a (h a)) False = (x, intr)"
    and fb: "fetch_number_value intr (val_b (h a)) (is_b_immediate (h a)) = (b, intr)"
  shows "(sint b < 0 \<or> 63 < sint b \<longrightarrow>
            loop_body h a intr = Inr (Some a, intr\<lparr>had_error := True\<rparr>)
          \<and> interpret_loop h (Some a) intr = Some (Inr (Some a, intr\<lparr>had_error := True\<rparr>)))
       \<and> (0 \<le> sint b \<and> sint b \<le> 63 \<longrightarrow>
            (\<forall>d. reg_index (num_val (destination (h a))) = Some d \<longrightarrow>
               loop_body h a intr =
                 Inr (cmd_next (h a),
                      intr\<lparr>variables := (variables intr)
                        [d := (if cmd_type (h a) = CMD_LSL then push_bit (nat (sint b)) x
                               else if cmd_type (h a) = CMD_LSR then drop_bit (nat (sint b)) x
                               else signed_drop_bit (nat (sint b)) x)]\<rparr>)))
       \<and> uint (push_bit (nat (sint b)) x) = (uint x * 2 ^ nat (sint b)) mod 2 ^ 64
       \<and> uint (drop_bit (nat (sint b)) x) = uint x div 2 ^ nat (sint b)
       \<and> sint (signed_drop_bit (nat (sint b)) x) = sint x div 2 ^ nat (sint b)"
proof -
  have sw: "exec_switch (h a) a intr = no_jump a (exec_SHIFT (h a) intr)"
    using ty by (auto simp: exec_switch_def)
  have bad: "loop_body h a intr = Inr (Some a, intr\<lparr>had_error := True\<rparr>)"
    if "sint b < 0 \<or> 63 < sint b"
    using that ok fa fb
    by (auto simp: loop_body_no_jump [of h a intr, OF sw] exec_SHIFT_def Let_def)
  have stop: "interpret_loop h (Some a) intr = Some (Inr (Some a, intr\<lparr>had_error := True\<rparr>))"
    if "sint b < 0 \<or> 63 < sint b"
    using interpret_loop_step [OF ok bad [OF that]] by (simp add: interpret_loop_error)
  have good: "loop_body h a intr =
                 Inr (cmd_next (h a),
                      intr\<lparr>variables := (variables intr)
                        [d := (if cmd_type (h a) = CMD_LSL then push_bit (nat (sint b)) x
                               else if cmd_type (h a) = CMD_LSR then drop_bit (nat (sint b)) x
                               else signed_drop_bit (nat (sint b)) x)]\<rparr>)"
    if "0 \<le> sint b \<and> sint b \<le> 63" "reg_index (num_val (destination (h a))) = Some d" for d
    using that ok fa fb
    by (auto simp: loop_body_no_jump [of h a intr, OF sw] exec_SHIFT_def Let_def)
  have 1: "uint (push_bit (nat (sint b)) x) = (uint x * 2 ^ nat (sint b)) mod 2 ^ 64"
    unfolding unsigned_push_bit_eq by (simp add: push_bit_eq_mult take_bit_eq_mod)
  have 2: "uint (drop_bit (nat (sint b)) x) = uint x div 2 ^ nat (sint b)"
  proof -
    have "take_bit 64 (uint x) = uint x"
      using uint_lt2p [of x] by (simp add: take_bit_int_eq_self)
    then show ?thesis
      unfolding unsigned_drop_bit_eq by (simp add: drop_bit_eq_div)
  qed
  have 3: "sint (signed_drop_bit (nat (sint b)) x) = sint x div 2 ^ nat (sint b)"
    by (simp add: sint_signed_drop_bit_eq drop_bit_eq_div)
  from bad stop good 1 2 3 show ?thesis by blast
qed

lemmas step_defs = loop_body_def exec_switch_def no_jump_def fetch_number_value_def reg_index_def

theorem shift_bounds_witness:
  "(cmd_type (shift_prog CMD_ASR 63 0) = CMD_LSL \<or> cmd_type (shift_prog CMD_ASR 63 0) = CMD_LSR
      \<or> cmd_type (shift_prog CMD_ASR 63 0) = CMD_ASR)
   \<and> \<not> had_error shift_intr
   \<and> fetch_number_value shift_intr (val_a (shift_prog CMD_ASR 63 0)) False
        = (0x8000000000000000, shift_intr)
   \<and> fetch_number_value shift_intr (val_b (shift_prog CMD_ASR 63 0))
        (is_b_immediate (shift_prog CMD_ASR 63 0)) = (63, shift_intr)
   \<and> loop_body (shift_prog CMD_ASR 63) 0 shift_intr
        = Inr (None, shift_intr\<lparr>variables := (variables shift_intr)[2 := - 1]\<rparr>)
   \<and> loop_body (shift_prog CMD_LSR 63) 0 shift_intr
        = Inr (None, shift_intr\<lparr>variables := (variables shift_intr)[2 := 1]\<rparr>)
   \<and> loop_body (shift_prog CMD_LSL 63) 0 (shift_intr\<lparr>variables := (variables shift_intr)[1 := 1]\<rparr>)
        = Inr (None, shift_intr\<lparr>variables := (variables shift_intr)[1 := 1, 2 := 0x8000000000000000]\<rparr>)
   \<and> loop_body (shift_prog CMD_LSL 64) 0 shift_intr
        = Inr (Some 0, shift_intr\<lparr>had_error := True\<rparr>)
   \<and> loop_body (shift_prog CMD_ASR (- 1)) 0 shift_intr
        = Inr (Some 0, shift_intr\<lparr>had_error := True\<rparr>)"
proof -
  have 1: "cmd_type (shift_prog CMD_ASR 63 0) = CMD_LSL \<or> cmd_type (shift_prog CMD_ASR 63 0) = CMD_LSR
      \<or> cmd_type (shift_prog CMD_ASR 63 0) = CMD_ASR"
    by (simp add: shift_prog_def ex_defs)
  have 2: "\<not> had_error shift_intr" by (simp add: shift_intr_def ex_defs)
  have 3: "fetch_number_value shift_intr (val_a (shift_prog CMD_ASR 63 0)) False
        = (0x8000000000000000, shift_intr)"
    by (simp add: fetch_number_value_def shift_prog_def shift_intr_def ex_defs)
  have 4: "fetch_number_value shift_intr (val_b (shift_prog CMD_ASR 63 0))
        (is_b_immediate (shift_prog CMD_ASR 63 0)) = (63, shift_intr)"
    by (simp add: fetch_number_value_def shift_prog_def shift_intr_def ex_defs)
  have 5: "reg_index (num_val (destination (shift_prog CMD_ASR 63 0))) = Some 2"
    "cmd_type (shift_prog CMD_ASR 63 0) = CMD_ASR" "cmd_next (shift_prog CMD_ASR 63 0) = None"
    by (simp_all add: shift_prog_def reg_index_def ex_defs)
  have 6: "signed_drop_bit 63 (0x8000000000000000 :: 64 word) = - 1" 
    by code_simp
  have a: "loop_body (shift_prog CMD_ASR 63) 0 shift_intr
        = Inr (None, shift_intr\<lparr>variables := (variables shift_intr)[2 := - 1]\<rparr>)"
    using shift_bounds [of "shift_prog CMD_ASR 63" 0, OF 1 2 3 4] 5 6 by simp
  have b: "loop_body (shift_prog CMD_LSR 63) 0 shift_intr
        = Inr (None, shift_intr\<lparr>variables := (variables shift_intr)[2 := 1]\<rparr>)"
    by (simp add: step_defs exec_SHIFT_def shift_prog_def shift_intr_def ex_defs)
  have c: "loop_body (shift_prog CMD_LSL 63) 0 (shift_intr\<lparr>variables := (variables shift_intr)[1 := 1]\<rparr>)
        = Inr (None, shift_intr\<lparr>variables := (variables shift_intr)[1 := 1, 2 := 0x8000000000000000]\<rparr>)"
    by (simp add: step_defs exec_SHIFT_def shift_prog_def shift_intr_def ex_defs)
  have d: "loop_body (shift_prog CMD_LSL 64) 0 shift_intr
        = Inr (Some 0, shift_intr\<lparr>had_error := True\<rparr>)"
    by (simp add: step_defs exec_SHIFT_def shift_prog_def shift_intr_def ex_defs)
  have e: "loop_body (shift_prog CMD_ASR (- 1)) 0 shift_intr
        = Inr (Some 0, shift_intr\<lparr>had_error := True\<rparr>)"
    by (simp add: step_defs exec_SHIFT_def shift_prog_def shift_intr_def ex_defs)
  from 1 2 3 4 a b c d e show ?thesis by blast
qed

subsection \<open>BRANCH\<close>

text \<open>
  C2.  A BRANCH whose condition holds and whose label is not in the table:
  if the label starts with \<^verbatim>\<open>.L\<close>, \<^verbatim>\<open>current\<close> becomes \<^verbatim>\<open>NULL\<close> without
  an error and the loop ends normally; otherwise the error flag is set (and
  the label reported), \<^verbatim>\<open>current\<close> stays on the BRANCH and the loop ends
  there.  When the condition does not hold, \<^verbatim>\<open>current\<close> moves to the next
  command in program order.
\<close>

theorem branch_unresolved:
  assumes ty: "cmd_type (h a) = CMD_BRANCH"
    and ok: "\<not> had_error intr"
    and lbl: "str_val (val_a (h a)) = Some label"
  shows "(cond_holds intr (branch_condition (h a)) \<and> get_label (label_map intr) label = None
            \<and> (\<exists>rest. label = ''.L'' @ rest) \<longrightarrow>
            loop_body h a intr = Inr (None, intr)
          \<and> interpret_loop h (Some a) intr = Some (Inr (None, intr)))
       \<and> (cond_holds intr (branch_condition (h a)) \<and> get_label (label_map intr) label = None
            \<and> \<not> (\<exists>rest. label = ''.L'' @ rest) \<longrightarrow>
            loop_body h a intr =
              Inr (Some a, intr\<lparr>had_error := True,
                                 printed := printed intr @ [''Label not found: '' @ label]\<rparr>)
          \<and> interpret_loop h (Some a) intr =
              Some (Inr (Some a, intr\<lparr>had_error := True,
                                 printed := printed intr @ [''Label not found: '' @ label]\<rparr>)))
       \<and> (\<not> cond_holds intr (branch_condition (h a)) \<longrightarrow>
            loop_body h a intr = Inr (cmd_next (h a), intr))"
proof -
  have pre: "(take 2 label = ''.L'') = (\<exists>rest. label = ''.L'' @ rest)"
  proof
    assume "take 2 label = ''.L''"
    then have "label = ''.L'' @ drop 2 label" by (metis append_take_drop_id)
    then show "\<exists>rest. label = ''.L'' @ rest" ..
  next
    assume "\<exists>rest. label = ''.L'' @ rest"
    then show "take 2 label = ''.L''" by auto
  qed
  have sw: "exec_switch (h a) a intr = exec_BRANCH (h a) a intr"
    using ty by (simp add: exec_switch_def)
  have local: "loop_body h a intr = Inr (None, intr)"
    if "cond_holds intr (branch_condition (h a))" "get_label (label_map intr) label = None"
       "\<exists>rest. label = ''.L'' @ rest"
    using that lbl ok pre by (simp add: loop_body_def sw exec_BRANCH_def)
  have other: "loop_body h a intr =
      Inr (Some a, intr\<lparr>had_error := True,
                         printed := printed intr @ [''Label not found: '' @ label]\<rparr>)"
    if "cond_holds intr (branch_condition (h a))" "get_label (label_map intr) label = None"
       "\<not> (\<exists>rest. label = ''.L'' @ rest)"
    using that lbl ok pre by (simp add: loop_body_def sw exec_BRANCH_def)
  have nocond: "loop_body h a intr = Inr (cmd_next (h a), intr)"
    if "\<not> cond_holds intr (branch_condition (h a))"
    using that lbl ok by (simp add: loop_body_def sw exec_BRANCH_def)
  have stop1: "interpret_loop h (Some a) intr = Some (Inr (None, intr))"
    if "loop_body h a intr = Inr (None, intr)"
    using interpret_loop_step [OF ok that] by (simp add: interpret_loop_null)
  have stop2: "interpret_loop h (Some a) intr = Some (Inr (Some a, intr\<lparr>had_error := True,
                         printed := printed intr @ [''Label not found: '' @ label]\<rparr>))"
    if "loop_body h a intr = Inr (Some a, intr\<lparr>had_error := True,
                         printed := printed intr @ [''Label not found: '' @ label]\<rparr>)"
    using interpret_loop_step [OF ok that] by (simp add: interpret_loop_error)
  from local other nocond stop1 stop2 show ?thesis by blast
qed

theorem branch_unresolved_witness:
  "cmd_type (branch_prog BRANCH_ALWAYS ''.Lend'' 0) = CMD_BRANCH
   \<and> \<not> had_error example_intr
   \<and> str_val (val_a (branch_prog BRANCH_ALWAYS ''.Lend'' 0)) = Some ''.Lend''
   \<and> cond_holds example_intr (branch_condition (branch_prog BRANCH_ALWAYS ''.Lend'' 0))
   \<and> get_label (label_map example_intr) ''.Lend'' = None
   \<and> loop_body (branch_prog BRANCH_ALWAYS ''.Lend'') 0 example_intr = Inr (None, example_intr)
   \<and> interpret_loop (branch_prog BRANCH_ALWAYS ''.Lend'') (Some 0) example_intr
        = Some (Inr (None, example_intr))
   \<and> loop_body (branch_prog BRANCH_ALWAYS ''end'') 0 example_intr
        = Inr (Some 0, example_intr\<lparr>had_error := True, printed := [''Label not found: end'']\<rparr>)
   \<and> loop_body (branch_prog BRANCH_EQUAL ''end'') 0 example_intr = Inr (Some 1, example_intr)"
proof -
  have 1: "cmd_type (branch_prog BRANCH_ALWAYS ''.Lend'' 0) = CMD_BRANCH"
    by (simp add: branch_prog_def ex_defs)
  have 2: "\<not> had_error example_intr" by (simp add: ex_defs)
  have 3: "str_val (val_a (branch_prog BRANCH_ALWAYS ''.Lend'' 0)) = Some ''.Lend''"
    by (simp add: branch_prog_def str_operand_def ex_defs)
  have 4: "cond_holds example_intr (branch_condition (branch_prog BRANCH_ALWAYS ''.Lend'' 0))"
    by (simp add: cond_holds_def branch_prog_def ex_defs)
  have 5: "get_label (label_map example_intr) ''.Lend'' = None"
    by (simp add: get_label_def ex_defs)
  have 6: "\<exists>rest. ''.Lend'' = ''.L'' @ rest" by simp
  have 7: "loop_body (branch_prog BRANCH_ALWAYS ''end'') 0 example_intr
        = Inr (Some 0, example_intr\<lparr>had_error := True, printed := [''Label not found: end'']\<rparr>)"
    by (simp add: step_defs exec_BRANCH_def cond_holds_def get_label_def branch_prog_def
          str_operand_def ex_defs)
  have 8: "loop_body (branch_prog BRANCH_EQUAL ''end'') 0 example_intr = Inr (Some 1, example_intr)"
    by (simp add: step_defs exec_BRANCH_def cond_holds_def get_label_def branch_prog_def
          str_operand_def ex_defs)
  from branch_unresolved [of "branch_prog BRANCH_ALWAYS ''.Lend''" 0, OF 1 2 3] 4 5 6
  have "loop_body (branch_prog BRANCH_ALWAYS ''.Lend'') 0 example_intr = Inr (None, example_intr)
      \<and> interpret_loop (branch_prog BRANCH_ALWAYS ''.Lend'') (Some 0) example_intr
        = Some (Inr (None, example_intr))"
    by blast
  with 1 2 3 4 5 7 8 show ?thesis by blast
qed

subsection \<open>Register reads\<close>

lemma print_base_no_fault: "exec_PRINT cmd intr \<noteq> Inl f"
  by (simp add: exec_PRINT_def split: prod.splits)

lemma no_read_fault:
  "cmd_type cmd \<noteq> CMD_STORE \<Longrightarrow> exec_switch cmd a intr \<noteq> Inl ReadOutOfRange"
  by (cases "cmd_type cmd")
     (auto simp: exec_switch_def no_jump_def exec_MOV_def exec_ADD_SUB_def exec_CMP_def
        print_base_no_fault exec_AND_EOR_ORR_def exec_SHIFT_def exec_LOAD_def exec_PUT_def
        exec_BRANCH_def exec_CALL_def exec_RET_def Let_def
      split: sum.splits prod.splits option.splits if_splits list.splits)

text \<open>
  C10, as the code has it.  \<^verbatim>\<open>fetch_number_value\<close> on a register operand
  whose index is outside 0..31 sets the error flag and returns 0 without
  touching the register file, and no command other than STORE reads a
  register in any other way.  STORE reads its source register, which sits in
  the destination slot, straight from the array: with an index outside 0..31
  (and a valid size and offset) that read is outside the register file.
\<close>

theorem fetch_bounds_checked:
  "(\<not> is_im \<and> (sint (num_val op) < 0 \<or> 32 \<le> sint (num_val op)) \<longrightarrow>
      fetch_number_value intr op is_im = (0, intr\<lparr>had_error := True\<rparr>))
   \<and> (cmd_type (h a) \<noteq> CMD_STORE \<longrightarrow> loop_body h a intr \<noteq> Inl ReadOutOfRange)
   \<and> (cmd_type (h a) = CMD_STORE
        \<and> fetch_number_value intr (val_a (h a)) (is_a_immediate (h a)) = (bytes, intr)
        \<and> fetch_number_value intr (val_b (h a)) (is_b_immediate (h a)) = (offset, intr)
        \<and> (bytes = 1 \<or> bytes = 2 \<or> bytes = 4 \<or> bytes = 8)
        \<and> sint offset + sint bytes \<le> int (length (mem_bytes intr))
        \<and> (sint (num_val (destination (h a))) < 0 \<or> 32 \<le> sint (num_val (destination (h a))))
        \<longrightarrow> loop_body h a intr = Inl ReadOutOfRange)"
proof (intro conjI impI)
  assume "\<not> is_im \<and> (sint (num_val op) < 0 \<or> 32 \<le> sint (num_val op))"
  then show "fetch_number_value intr op is_im = (0, intr\<lparr>had_error := True\<rparr>)"
    by (auto simp: fetch_number_value_def NUM_VARIABLES_def)
next
  assume "cmd_type (h a) \<noteq> CMD_STORE"
  from no_read_fault [OF this, of a intr]
  show "loop_body h a intr \<noteq> Inl ReadOutOfRange"
    by (auto simp: loop_body_def split: sum.splits)
next
  assume st: "cmd_type (h a) = CMD_STORE
        \<and> fetch_number_value intr (val_a (h a)) (is_a_immediate (h a)) = (bytes, intr)
        \<and> fetch_number_value intr (val_b (h a)) (is_b_immediate (h a)) = (offset, intr)
        \<and> (bytes = 1 \<or> bytes = 2 \<or> bytes = 4 \<or> bytes = 8)
        \<and> sint offset + sint bytes \<le> int (length (mem_bytes intr))
        \<and> (sint (num_val (destination (h a))) < 0 \<or> 32 \<le> sint (num_val (destination (h a))))"
  then have sw: "exec_switch (h a) a intr = no_jump a (exec_STORE (h a) intr)"
    by (simp add: exec_switch_def)
  from st have "exec_STORE (h a) intr = Inl ReadOutOfRange"
    by (auto simp: exec_STORE_def reg_index_def NUM_VARIABLES_def)
  then show "loop_body h a intr = Inl ReadOutOfRange"
    by (simp add: loop_body_no_jump [of h a intr, OF sw])
qed

text \<open>
  C10 as stated fails: \<^verbatim>\<open>store x32 0 8\<close>, run without the error flag, reads
  \<^verbatim>\<open>variables[32]\<close>.
\<close>

theorem store_reads_unchecked:
  "cmd_type (store_prog 32 0) = CMD_STORE
   \<and> \<not> had_error example_intr
   \<and> sint (num_val (destination (store_prog 32 0))) = 32
   \<and> loop_body (store_prog 32) 0 example_intr = Inl ReadOutOfRange"
  by (simp add: step_defs exec_STORE_def store_prog_def ex_defs)

theorem fetch_bounds_checked_witness:
  "fetch_number_value example_intr (num_operand 32) False
      = (0, example_intr\<lparr>had_error := True\<rparr>)
   \<and> cmd_type (cmp_prog 0) \<noteq> CMD_STORE
   \<and> loop_body cmp_prog 0 cmp_intr \<noteq> Inl ReadOutOfRange
   \<and> cmd_type (store_prog (- 1) 0) = CMD_STORE
   \<and> loop_body (store_prog (- 1)) 0 example_intr = Inl ReadOutOfRange"
proof -
  have 1: "\<not> False \<and> (sint (num_val (num_operand 32)) < 0 \<or> 32 \<le> sint (num_val (num_operand 32)))"
    by (simp add: num_operand_def)
  have 2: "cmd_type (cmp_prog 0) \<noteq> CMD_STORE" by (simp add: cmp_prog_def ex_defs)
  have 3: "cmd_type (store_prog (- 1) 0) = CMD_STORE
        \<and> fetch_number_value example_intr (val_a (store_prog (- 1) 0))
             (is_a_immediate (store_prog (- 1) 0)) = (8, example_intr)
        \<and> fetch_number_value example_intr (val_b (store_prog (- 1) 0))
             (is_b_immediate (store_prog (- 1) 0)) = (0, example_intr)
        \<and> ((8 :: int64_t) = 1 \<or> (8 :: int64_t) = 2 \<or> (8 :: int64_t) = 4 \<or> (8 :: int64_t) = 8)
        \<and> sint (0 :: int64_t) + sint (8 :: int64_t) \<le> int (length (mem_bytes example_intr))
        \<and> (sint (num_val (destination (store_prog (- 1) 0))) < 0
             \<or> 32 \<le> sint (num_val (destination (store_prog (- 1) 0))))"
    by (simp add: fetch_number_value_def store_prog_def ex_defs)
  have a: "fetch_number_value example_intr (num_operand 32) False
      = (0, example_intr\<lparr>had_error := True\<rparr>)"
    using fetch_bounds_checked [where is_im = False and op = "num_operand 32"
        and intr = example_intr and h = cmp_prog and a = 0] 1 by blast
  have b: "loop_body cmp_prog 0 cmp_intr \<noteq> Inl ReadOutOfRange"
    using fetch_bounds_checked [where is_im = False and op = "num_operand 32"
        and intr = cmp_intr and h = cmp_prog and a = 0] 2 by blast
  have c: "loop_body (store_prog (- 1)) 0 example_intr = Inl ReadOutOfRange"
    using fetch_bounds_checked [where is_im = False and op = "num_operand 32"
        and intr = example_intr and h = "store_prog (- 1)" and a = 0 and bytes = 8 and offset = 0] 3
    by blast
  from a b c 2 3 show ?thesis by blast
qed

subsection \<open>CALL and RET\<close>

lemma fetch_keeps:
  "fetch_number_value intr op is_im = (v, intr') \<Longrightarrow>
   the_stack intr' = the_stack intr \<and> variables intr' = variables intr"
  by (auto simp: fetch_number_value_def Let_def split: if_splits)

lemma print_base_keeps:
  "print_base intr cmd = (ok, intr') \<Longrightarrow>
   the_stack intr' = the_stack intr \<and> variables intr' = variables intr"
  by (auto simp: print_base_def Let_def split: if_splits prod.splits option.splits
      dest!: fetch_keeps)

lemma plain_keeps:
  assumes "cmd_type cmd \<noteq> CMD_CALL" "cmd_type cmd \<noteq> CMD_RET"
    and "exec_switch cmd a intr = Inr (j, cur, intr')"
  shows "the_stack intr' = the_stack intr \<and> length (variables intr') = length (variables intr)"
  using assms
  by (cases "cmd_type cmd")
     (auto simp: exec_switch_def no_jump_def exec_MOV_def exec_ADD_SUB_def exec_CMP_def
        exec_PRINT_def exec_AND_EOR_ORR_def exec_SHIFT_def exec_LOAD_def exec_STORE_def
        exec_PUT_def exec_BRANCH_def Let_def
      split: sum.splits prod.splits option.splits if_splits
      dest!: fetch_keeps print_base_keeps)

lemma call_step:
  assumes "cmd_type (h a) = CMD_CALL" "str_val (val_a (h a)) = Some label"
  shows "loop_body h a intr =
     (case get_label (label_map intr) label of
        None \<Rightarrow> Inr (Some a, intr\<lparr>had_error := True,
                       printed := printed intr @ [''Label not found: '' @ label]\<rparr>)
      | Some target \<Rightarrow>
          Inr (e_command target,
               intr\<lparr>the_stack := \<lparr>se_variables = take NUM_VARIABLES (variables intr),
                                    se_command = cmd_next (h a)\<rparr> # the_stack intr\<rparr>))"
  using assms
  by (simp add: loop_body_def exec_switch_def exec_CALL_def Let_def split: option.splits)

lemma call_step_ok:
  assumes "cmd_type (h a) = CMD_CALL" "loop_body h a intr = Inr (cur, intr')"
    "\<not> had_error intr'"
  shows "intr' = intr\<lparr>the_stack := \<lparr>se_variables = take NUM_VARIABLES (variables intr),
                                    se_command = cmd_next (h a)\<rparr> # the_stack intr\<rparr>"
  using assms
  by (auto simp: loop_body_def exec_switch_def exec_CALL_def Let_def
      split: option.splits sum.splits if_splits)

lemma ret_step:
  assumes "cmd_type (h a) = CMD_RET"
  shows "loop_body h a intr =
     (case the_stack intr of
        [] \<Rightarrow> Inr (None, intr)
      | fr # rest \<Rightarrow>
          Inr (se_command fr,
               intr\<lparr>the_stack := rest,
                     variables := take 1 (variables intr) @
                       take (NUM_VARIABLES - 1) (drop 1 (se_variables fr))\<rparr>))"
  using assms
  by (simp add: loop_body_def exec_switch_def exec_RET_def split: list.splits)

lemma restored_nth:
  assumes "length vs = NUM_VARIABLES" "length fvs = NUM_VARIABLES"
  shows "(take 1 vs @ take (NUM_VARIABLES - 1) (drop 1 fvs)) ! 0 = vs ! 0"
    and "1 \<le> i \<Longrightarrow> i < NUM_VARIABLES \<Longrightarrow>
         (take 1 vs @ take (NUM_VARIABLES - 1) (drop 1 fvs)) ! i = fvs ! i"
    and "length (take 1 vs @ take (NUM_VARIABLES - 1) (drop 1 fvs)) = NUM_VARIABLES"
  using assms by (auto simp: NUM_VARIABLES_def nth_append)

lemma loop_body_regs_ok:
  assumes "regs_ok intr" "loop_body h a intr = Inr (cur, intr')"
  shows "regs_ok intr'"
proof (cases "cmd_type (h a) = CMD_CALL \<or> cmd_type (h a) = CMD_RET")
  case False
  from assms(2) obtain j c where "exec_switch (h a) a intr = Inr (j, c, intr')"
    by (auto simp: loop_body_def split: sum.splits)
  from plain_keeps [OF _ _ this] False assms(1) show ?thesis
    by (simp add: regs_ok_def)
next
  case True
  then show ?thesis
  proof
    assume c: "cmd_type (h a) = CMD_CALL"
    from assms show ?thesis
      by (auto simp: loop_body_def exec_switch_def exec_CALL_def Let_def c regs_ok_def
          split: option.splits sum.splits if_splits)
  next
    assume r: "cmd_type (h a) = CMD_RET"
    from assms show ?thesis
      by (auto simp: ret_step [of h a, OF r] regs_ok_def restored_nth(3) split: list.splits)
  qed
qed

lemma nested_keeps:
  "nested h n c c' \<Longrightarrow>
   the_stack (snd c') = the_stack (snd c) \<and> (regs_ok (snd c) \<longrightarrow> regs_ok (snd c'))"
proof (induction rule: nested.induct)
  case (nested_done c)
  show ?case by simp
next
  case (nested_plain a intr c' n c'')
  obtain cur intr' where c': "c' = (cur, intr')" by (cases c')
  from nested_plain(4) c' obtain j c where "exec_switch (h a) a intr = Inr (j, c, intr')"
    by (auto simp: loop_body_def split: sum.splits)
  from plain_keeps [OF nested_plain(1,2) this] have "the_stack intr' = the_stack intr" by simp
  moreover have "regs_ok intr \<Longrightarrow> regs_ok intr'"
    using loop_body_regs_ok nested_plain(4) c' by blast
  ultimately show ?case using nested_plain.IH c' by simp
next
  case (nested_call a intr c1 n r intr2 c3 c4)
  obtain cur1 intr1 where c1: "c1 = (cur1, intr1)" by (cases c1)
  obtain cur3 intr3 where c3: "c3 = (cur3, intr3)" by (cases c3)
  from nested_call.IH(1) c1 have s2: "the_stack intr2 = the_stack intr1"
    and w2: "regs_ok intr1 \<Longrightarrow> regs_ok intr2" by simp_all
  have e1: "\<not> had_error intr1"
  proof
    assume e: "had_error intr1"
    from nested_call(4) c1 have "nested h n (cur1, intr1) (Some r, intr2)" by simp
    then have "had_error intr2"
      using e by (cases rule: nested.cases) auto
    with nested_call(6) show False by simp
  qed
  from nested_call(3) c1 have "loop_body h a intr = Inr (cur1, intr1)" by simp
  from call_step_ok [of h a, OF nested_call(1) this e1]
  have i1: "the_stack intr1 = \<lparr>se_variables = take NUM_VARIABLES (variables intr),
                                    se_command = cmd_next (h a)\<rparr> # the_stack intr"
    by simp
  from nested_call(7) c3 s2 i1 have s3: "the_stack intr3 = the_stack intr"
    by (auto simp: ret_step [of h r, OF nested_call(5)])
  have w1: "regs_ok intr \<Longrightarrow> regs_ok intr1"
    using loop_body_regs_ok nested_call(3) c1 by blast
  have w3: "regs_ok intr2 \<Longrightarrow> regs_ok intr3"
    using loop_body_regs_ok nested_call(7) c3 by blast
  from nested_call.IH(2) c3 s3 w1 w2 w3 show ?case by simp
qed

text \<open>
  C1.  From a state without error whose register file and frames have 32
  registers each: a CALL whose label is not in the table sets the error flag
  and the loop stops on it; a CALL whose label resolves pushes a frame with all
  registers and the command after the CALL, and continues at the label's
  command.  A RET on an empty stack sets \<^verbatim>\<open>current\<close> to \<^verbatim>\<open>NULL\<close> and the
  loop ends normally; a RET on a non-empty stack pops the top frame, takes
  registers 1..31 from it, leaves register 0 as it is and continues at the
  frame's command.  Hence, for a CALL followed by an execution nested \<open>n\<close>
  deep (that is \<open>n + 1\<close> nested CALLs and, up to the closing RET, as many
  RETs): the closing RET continues after the first CALL with the stack and the
  registers 1..31 as they were before that CALL, and with register 0 as the
  callees left it.
\<close>

theorem call_ret_frames:
  assumes ok: "\<not> had_error intr" and wf: "regs_ok intr"
  shows
   "(cmd_type (h a) = CMD_CALL \<and> str_val (val_a (h a)) = Some label \<longrightarrow>
       (get_label (label_map intr) label = None \<longrightarrow>
          loop_body h a intr =
            Inr (Some a, intr\<lparr>had_error := True,
                               printed := printed intr @ [''Label not found: '' @ label]\<rparr>)
        \<and> interpret_loop h (Some a) intr =
            Some (Inr (Some a, intr\<lparr>had_error := True,
                               printed := printed intr @ [''Label not found: '' @ label]\<rparr>)))
     \<and> (\<forall>target. get_label (label_map intr) label = Some target \<longrightarrow>
          loop_body h a intr =
            Inr (e_command target,
                 intr\<lparr>the_stack := \<lparr>se_variables = variables intr,
                                      se_command = cmd_next (h a)\<rparr> # the_stack intr\<rparr>)))
  \<and> (cmd_type (h a) = CMD_RET \<longrightarrow>
       (the_stack intr = [] \<longrightarrow>
          loop_body h a intr = Inr (None, intr)
        \<and> interpret_loop h (Some a) intr = Some (Inr (None, intr)))
     \<and> (\<forall>fr rest. the_stack intr = fr # rest \<longrightarrow>
          (\<exists>intr'. loop_body h a intr = Inr (se_command fr, intr')
              \<and> the_stack intr' = rest
              \<and> variables intr' ! 0 = variables intr ! 0
              \<and> (\<forall>i. 1 \<le> i \<and> i < 32 \<longrightarrow> variables intr' ! i = se_variables fr ! i))))
  \<and> (\<forall>n c1 r intr2.
        cmd_type (h a) = CMD_CALL \<and> loop_body h a intr = Inr c1
        \<and> nested h n c1 (Some r, intr2) \<and> cmd_type (h r) = CMD_RET \<and> \<not> had_error intr2 \<longrightarrow>
        (\<exists>intr3. loop_body h r intr2 = Inr (cmd_next (h a), intr3)
           \<and> the_stack intr3 = the_stack intr
           \<and> variables intr3 ! 0 = variables intr2 ! 0
           \<and> (\<forall>i. 1 \<le> i \<and> i < 32 \<longrightarrow> variables intr3 ! i = variables intr ! i)))"
proof -
  from wf have len: "length (variables intr) = NUM_VARIABLES"
    and frames: "\<And>fr. fr \<in> set (the_stack intr) \<Longrightarrow> length (se_variables fr) = NUM_VARIABLES"
    by (simp_all add: regs_ok_def)
  have tk: "take NUM_VARIABLES (variables intr) = variables intr" using len by simp
  have call_none: "loop_body h a intr =
            Inr (Some a, intr\<lparr>had_error := True,
                               printed := printed intr @ [''Label not found: '' @ label]\<rparr>)
        \<and> interpret_loop h (Some a) intr =
            Some (Inr (Some a, intr\<lparr>had_error := True,
                               printed := printed intr @ [''Label not found: '' @ label]\<rparr>))"
    if "cmd_type (h a) = CMD_CALL" "str_val (val_a (h a)) = Some label"
       "get_label (label_map intr) label = None"
  proof -
    have lb: "loop_body h a intr =
            Inr (Some a, intr\<lparr>had_error := True,
                               printed := printed intr @ [''Label not found: '' @ label]\<rparr>)"
      using call_step [of h a label intr, OF that(1,2)] that(3) by simp
    from interpret_loop_step [OF ok lb] lb show ?thesis
      by (simp add: interpret_loop_error)
  qed
  have call_some: "loop_body h a intr =
            Inr (e_command target,
                 intr\<lparr>the_stack := \<lparr>se_variables = variables intr,
                                      se_command = cmd_next (h a)\<rparr> # the_stack intr\<rparr>)"
    if "cmd_type (h a) = CMD_CALL" "str_val (val_a (h a)) = Some label"
       "get_label (label_map intr) label = Some target" for target
    using call_step [of h a label intr, OF that(1,2)] that(3) tk by simp
  have ret_empty: "loop_body h a intr = Inr (None, intr)
        \<and> interpret_loop h (Some a) intr = Some (Inr (None, intr))"
    if "cmd_type (h a) = CMD_RET" "the_stack intr = []"
  proof -
    have lb: "loop_body h a intr = Inr (None, intr)"
      using ret_step [of h a intr, OF that(1)] that(2) by simp
    from interpret_loop_step [OF ok lb] lb show ?thesis
      by (simp add: interpret_loop_null)
  qed
  have ret_pop: "\<exists>intr'. loop_body h a intr = Inr (se_command fr, intr')
              \<and> the_stack intr' = rest
              \<and> variables intr' ! 0 = variables intr ! 0
              \<and> (\<forall>i. 1 \<le> i \<and> i < 32 \<longrightarrow> variables intr' ! i = se_variables fr ! i)"
    if "cmd_type (h a) = CMD_RET" "the_stack intr = fr # rest" for fr rest
  proof -
    have fl: "length (se_variables fr) = NUM_VARIABLES" using frames that(2) by simp
    show ?thesis
      using ret_step [of h a intr, OF that(1)] that(2) restored_nth(1,2) [OF len fl]
      by (simp add: NUM_VARIABLES_def)
  qed
  have disc: "\<exists>intr3. loop_body h r intr2 = Inr (cmd_next (h a), intr3)
           \<and> the_stack intr3 = the_stack intr
           \<and> variables intr3 ! 0 = variables intr2 ! 0
           \<and> (\<forall>i. 1 \<le> i \<and> i < 32 \<longrightarrow> variables intr3 ! i = variables intr ! i)"
    if c: "cmd_type (h a) = CMD_CALL" and lb: "loop_body h a intr = Inr c1"
      and nest: "nested h n c1 (Some r, intr2)" and r: "cmd_type (h r) = CMD_RET"
      and ok2: "\<not> had_error intr2"
    for n c1 r intr2
  proof -
    obtain cur1 intr1 where c1: "c1 = (cur1, intr1)" by (cases c1)
    have e1: "\<not> had_error intr1"
    proof
      assume e: "had_error intr1"
      from nest c1 have "nested h n (cur1, intr1) (Some r, intr2)" by simp
      then have "had_error intr2" using e by (cases rule: nested.cases) auto
      with ok2 show False by simp
    qed
    from lb c1 have lb1: "loop_body h a intr = Inr (cur1, intr1)" by simp
    from call_step_ok [of h a, OF c lb1 e1] tk
    have i1: "intr1 = intr\<lparr>the_stack := \<lparr>se_variables = variables intr,
                                    se_command = cmd_next (h a)\<rparr> # the_stack intr\<rparr>"
      by simp
    have w1: "regs_ok intr1" using loop_body_regs_ok [OF wf lb1] .
    from nested_keeps [OF nest] c1 w1
    have s2: "the_stack intr2 = the_stack intr1" and w2: "regs_ok intr2" by simp_all
    from w2 have len2: "length (variables intr2) = NUM_VARIABLES" by (simp add: regs_ok_def)
    from s2 i1 have stk2: "the_stack intr2 = \<lparr>se_variables = variables intr,
                                    se_command = cmd_next (h a)\<rparr> # the_stack intr"
      by simp
    show ?thesis
      using ret_step [of h r intr2, OF r] stk2 restored_nth(1,2) [OF len2 len]
      by (simp add: NUM_VARIABLES_def)
  qed
  from call_none call_some ret_empty ret_pop disc show ?thesis by blast
qed

lemmas nest_defs = nest_prog_def nest_intr_def nest_map_def nest_regs_def nest_frame_f_def
  nest_frame_g_def call_cmd_def mov_cmd_def ret_cmd_def str_operand_def put_label_def
  get_label_def hash_function_def char_to_ulong_def entry_init_def

lemma nest_run:
  "loop_body nest_prog 0 (nest_intr [] 0 5) = Inr (Some 2, nest_intr [nest_frame_f] 0 5)"
  "loop_body nest_prog 2 (nest_intr [nest_frame_f] 0 5) = Inr (Some 3, nest_intr [nest_frame_f] 0 9)"
  "loop_body nest_prog 3 (nest_intr [nest_frame_f] 0 9)
     = Inr (Some 5, nest_intr [nest_frame_g, nest_frame_f] 0 9)"
  "loop_body nest_prog 5 (nest_intr [nest_frame_g, nest_frame_f] 0 9)
     = Inr (Some 6, nest_intr [nest_frame_g, nest_frame_f] 7 9)"
  "loop_body nest_prog 6 (nest_intr [nest_frame_g, nest_frame_f] 7 9)
     = Inr (Some 4, nest_intr [nest_frame_f] 7 9)"
  "loop_body nest_prog 4 (nest_intr [nest_frame_f] 7 9) = Inr (Some 1, nest_intr [] 7 5)"
  by (simp_all add: step_defs exec_CALL_def exec_RET_def exec_MOV_def nest_defs ex_defs)

theorem call_ret_frames_witness:
  "\<not> had_error (nest_intr [] 0 5) \<and> regs_ok (nest_intr [] 0 5)
   \<and> cmd_type (nest_prog 0) = CMD_CALL
   \<and> loop_body nest_prog 0 (nest_intr [] 0 5) = Inr (Some 2, nest_intr [nest_frame_f] 0 5)
   \<and> nested nest_prog (Suc 0) (Some 2, nest_intr [nest_frame_f] 0 5) (Some 4, nest_intr [nest_frame_f] 7 9)
   \<and> cmd_type (nest_prog 4) = CMD_RET
   \<and> \<not> had_error (nest_intr [nest_frame_f] 7 9)
   \<and> (\<exists>intr3. loop_body nest_prog 4 (nest_intr [nest_frame_f] 7 9) = Inr (cmd_next (nest_prog 0), intr3)
         \<and> the_stack intr3 = []
         \<and> variables intr3 ! 0 = 7
         \<and> variables intr3 ! 1 = 5)"
proof -
  have ok: "\<not> had_error (nest_intr [] 0 5)" by (simp add: nest_defs ex_defs)
  have wf: "regs_ok (nest_intr [] 0 5)" by (simp add: regs_ok_def nest_defs ex_defs)
  have ty0: "cmd_type (nest_prog 0) = CMD_CALL" by (simp add: nest_defs ex_defs)
  have ty: "cmd_type (nest_prog 2) \<noteq> CMD_CALL" "cmd_type (nest_prog 2) \<noteq> CMD_RET"
    "cmd_type (nest_prog 3) = CMD_CALL"
    "cmd_type (nest_prog 5) \<noteq> CMD_CALL" "cmd_type (nest_prog 5) \<noteq> CMD_RET"
    "cmd_type (nest_prog 6) = CMD_RET" "cmd_type (nest_prog 4) = CMD_RET"
    by (simp_all add: nest_defs ex_defs)
  have oks: "\<not> had_error (nest_intr [nest_frame_f] 0 5)" "\<not> had_error (nest_intr [nest_frame_f] 0 9)"
    "\<not> had_error (nest_intr [nest_frame_g, nest_frame_f] 0 9)"
    "\<not> had_error (nest_intr [nest_frame_g, nest_frame_f] 7 9)"
    "\<not> had_error (nest_intr [nest_frame_f] 7 9)"
    by (simp_all add: nest_defs ex_defs)
  have inner: "nested nest_prog 0 (Some 5, nest_intr [nest_frame_g, nest_frame_f] 0 9)
                 (Some 6, nest_intr [nest_frame_g, nest_frame_f] 7 9)"
    by (rule nested_plain [OF ty(4,5) oks(3) nest_run(4) nested_done])
  have mid: "nested nest_prog (Suc 0) (Some 3, nest_intr [nest_frame_f] 0 9)
                 (Some 4, nest_intr [nest_frame_f] 7 9)"
    by (rule nested_call [OF ty(3) oks(2) nest_run(3) inner ty(6) oks(4) nest_run(5) nested_done])
  have nest: "nested nest_prog (Suc 0) (Some 2, nest_intr [nest_frame_f] 0 5)
                 (Some 4, nest_intr [nest_frame_f] 7 9)"
    by (rule nested_plain [OF ty(1,2) oks(1) nest_run(2) mid])
  have vals: "the_stack (nest_intr [] 0 5) = []" "variables (nest_intr [nest_frame_f] 7 9) ! 0 = 7"
    "variables (nest_intr [] 0 5) ! 1 = 5"
    by (simp_all add: nest_defs ex_defs)
  from call_ret_frames [of "nest_intr [] 0 5" nest_prog 0, OF ok wf]
    ty0 nest_run(1) nest ty(7) oks(5)
  have "\<exists>intr3. loop_body nest_prog 4 (nest_intr [nest_frame_f] 7 9)
           = Inr (cmd_next (nest_prog 0), intr3)
         \<and> the_stack intr3 = the_stack (nest_intr [] 0 5)
         \<and> variables intr3 ! 0 = variables (nest_intr [nest_frame_f] 7 9) ! 0
         \<and> (\<forall>i. 1 \<le> i \<and> i < 32 \<longrightarrow> variables intr3 ! i = variables (nest_intr [] 0 5) ! i)"
    by blast
  then obtain intr3 where
    "loop_body nest_prog 4 (nest_intr [nest_frame_f] 7 9) = Inr (cmd_next (nest_prog 0), intr3)"
    "the_stack intr3 = []" "variables intr3 ! 0 = 7" "variables intr3 ! 1 = 5"
    using vals by auto
  with ok wf ty0 nest_run(1) nest ty(7) oks(5) show ?thesis by blast
qed

subsection \<open>PRINT\<close>

lemma bit_set_iff: "0 \<le> i \<Longrightarrow> bit_set num i = bit num (nat i)"
  by (simp add: bit_set_def bit_iff_and_push_bit_not_eq_0)

lemma digits_loop_eq:
  "- 1 \<le> i \<Longrightarrow> length buf + nat (i + 1) \<le> sz - 1 \<Longrightarrow>
   digits_loop num sz i buf = buf @ map (bit_char num) (rev [0..<nat (i + 1)])"
proof (induction num sz i buf rule: digits_loop.induct)
  case (1 num sz i buf)
  show ?case
  proof (cases "i \<ge> 0")
    case False
    with "1.prems" have "i = - 1" by simp
    then show ?thesis by (simp add: digits_loop.simps)
  next
    case True
    with "1.prems" have guard: "\<not> length buf \<ge> sz - 1" by auto
    have n: "nat (i + 1) = Suc (nat i)" using True by simp
    have ih: "digits_loop num sz (i - 1) (buf @ [if bit_set num i then CHR ''1'' else CHR ''0''])
      = (buf @ [if bit_set num i then CHR ''1'' else CHR ''0''])
          @ map (bit_char num) (rev [0..<nat (i - 1 + 1)])"
      using "1.IH" [OF True guard] "1.prems" True by simp
    show ?thesis
      using True guard ih
      by (subst digits_loop.simps) (simp add: n bit_set_iff bit_char_def)
  qed
qed

lemma highest_bit_loop_spec:
  "- 1 \<le> k \<Longrightarrow> k \<le> 63 \<Longrightarrow> num \<noteq> 0 \<Longrightarrow> (\<forall>j. nat (k + 1) \<le> j \<longrightarrow> \<not> bit num j) \<Longrightarrow>
   0 \<le> highest_bit_loop num k \<and> highest_bit_loop num k \<le> k
   \<and> bit num (nat (highest_bit_loop num k))
   \<and> (\<forall>j. nat (highest_bit_loop num k) < j \<longrightarrow> \<not> bit num j)"
proof (induction num k rule: highest_bit_loop.induct)
  case (1 num k)
  show ?case
  proof (cases "k \<ge> 0 \<and> \<not> bit_set num k")
    case True
    then have nb: "\<not> bit num (nat k)" using bit_set_iff [of k num] by blast
    have "\<forall>j. nat (k - 1 + 1) \<le> j \<longrightarrow> \<not> bit num j"
    proof (intro allI impI)
      fix j assume "nat (k - 1 + 1) \<le> j"
      then have "j = nat k \<or> nat (k + 1) \<le> j" using True by auto
      with nb "1.prems"(4) show "\<not> bit num j" by auto
    qed
    with "1.IH" [OF True] "1.prems" True
    have rec: "0 \<le> highest_bit_loop num (k - 1) \<and> highest_bit_loop num (k - 1) \<le> k - 1
      \<and> bit num (nat (highest_bit_loop num (k - 1)))
      \<and> (\<forall>j. nat (highest_bit_loop num (k - 1)) < j \<longrightarrow> \<not> bit num j)"
      by simp
    show ?thesis
    proof -
      have "highest_bit_loop num k = highest_bit_loop num (k - 1)"
        by (subst highest_bit_loop.simps) (use True in auto)
      with rec show ?thesis by simp
    qed
  next
    case False
    have k0: "k \<ge> 0"
    proof (rule ccontr)
      assume "\<not> k \<ge> 0"
      with "1.prems" have "k = - 1" by simp
      with "1.prems"(4) have "\<forall>j. \<not> bit num j" by simp
      then have "num = 0" by (simp add: bit_eq_iff)
      with "1.prems"(3) show False by simp
    qed
    with False have b: "bit num (nat k)" using bit_set_iff [of k num] by blast
    have hb: "highest_bit_loop num k = k"
      by (subst highest_bit_loop.simps) (use False in auto)
    have "\<forall>j. nat k < j \<longrightarrow> \<not> bit num j"
      using "1.prems"(4) k0 by (auto simp: nat_add_distrib)
    with hb k0 b show ?thesis by simp
  qed
qed

lemma to_binary_string_eq:
  "to_binary_string 0 67 = ''0b0''"
  "num \<noteq> 0 \<Longrightarrow>
     \<exists>k < 64. bit num k \<and> (\<forall>j > k. \<not> bit num j)
       \<and> to_binary_string num 67 = ''0b'' @ map (bit_char num) (rev [0..<Suc k])"
proof -
  show "to_binary_string 0 67 = ''0b0''" by (simp add: to_binary_string_def)
next
  assume nz: "num \<noteq> 0"
  have hi: "\<forall>j. nat (63 + 1) \<le> j \<longrightarrow> \<not> bit num j"
    by (auto dest: bit_imp_le_length)
  let ?hb = "highest_bit_loop num 63"
  from highest_bit_loop_spec [of 63 num, OF _ _ nz hi]
  have hb: "0 \<le> ?hb" "?hb \<le> 63" "bit num (nat ?hb)" "\<forall>j. nat ?hb < j \<longrightarrow> \<not> bit num j"
    by simp_all
  have "digits_loop num 67 ?hb ''0b'' = ''0b'' @ map (bit_char num) (rev [0..<nat (?hb + 1)])"
    using hb(1,2) by (intro digits_loop_eq) auto
  moreover have "nat (?hb + 1) = Suc (nat ?hb)" using hb(1) by simp
  ultimately have "to_binary_string num 67 = ''0b'' @ map (bit_char num) (rev [0..<Suc (nat ?hb)])"
    using nz by (simp add: to_binary_string_def)
  moreover have "nat ?hb < 64" using hb(1,2) by simp
  ultimately show "\<exists>k < 64. bit num k \<and> (\<forall>j > k. \<not> bit num j)
       \<and> to_binary_string num 67 = ''0b'' @ map (bit_char num) (rev [0..<Suc k])"
    using hb(3,4) by blast
qed

lemma printf_x_minus_one: "printf_x (unat (- 1 :: 64 word)) = ''ffffffffffffffff''"
proof -
  have u: "unat (- 1 :: 64 word) = 18446744073709551615"
    by (simp add: unsigned_minus_1_eq_mask mask_eq_exp_minus_1)
  have d: "digits_of 16 18446744073709551615 = ''ffffffffffffffff''"
    by (simp add: digits_of.simps)
  show ?thesis by (simp only: u printf_x_def d)
qed

lemma printf_d_examples: "printf_d (- 1) = ''-1''" "printf_d 8 = ''8''"
  by (simp_all add: printf_d_def digits_of.simps)

text \<open>
  C6.  A PRINT whose value is fetched without error appends one line and goes
  on: in base \<^verbatim>\<open>d\<close> the signed value in decimal; in base \<^verbatim>\<open>b\<close> the string
  \<^verbatim>\<open>0b0\<close> for 0 and otherwise \<^verbatim>\<open>0b\<close> followed by the bits from the highest
  set bit down to bit 0 (so the first digit is 1); in base \<^verbatim>\<open>x\<close> the string
  \<^verbatim>\<open>0x\<close> followed by the unsigned value in lower-case hexadecimal, which for
  -1 is \<^verbatim>\<open>ffffffffffffffff\<close>.
\<close>

theorem print_formats:
  assumes ty: "cmd_type (h a) = CMD_PRINT"
    and ok: "\<not> had_error intr"
    and fa: "fetch_number_value intr (val_a (h a)) (is_a_immediate (h a)) = (v, intr)"
  shows
   "(base (val_b (h a)) = CHR ''d'' \<longrightarrow>
       loop_body h a intr =
         Inr (cmd_next (h a), intr\<lparr>printed := printed intr @ [printf_d (sint v)]\<rparr>))
    \<and> (base (val_b (h a)) = CHR ''b'' \<longrightarrow>
       loop_body h a intr =
         Inr (cmd_next (h a), intr\<lparr>printed := printed intr @ [to_binary_string v 67]\<rparr>)
       \<and> (v = 0 \<longrightarrow> to_binary_string v 67 = ''0b0'')
       \<and> (v \<noteq> 0 \<longrightarrow>
            (\<exists>k<64. bit v k \<and> (\<forall>j>k. \<not> bit v j)
               \<and> to_binary_string v 67 = ''0b'' @ map (bit_char v) (rev [0..<Suc k]))))
    \<and> (base (val_b (h a)) = CHR ''x'' \<longrightarrow>
       loop_body h a intr =
         Inr (cmd_next (h a), intr\<lparr>printed := printed intr @ [''0x'' @ printf_x (unat v)]\<rparr>))
    \<and> printf_x (unat (- 1 :: 64 word)) = ''ffffffffffffffff''"
proof -
  have sw: "exec_switch (h a) a intr = no_jump a (exec_PRINT (h a) intr)"
    using ty by (simp add: exec_switch_def)
  have d: "loop_body h a intr =
         Inr (cmd_next (h a), intr\<lparr>printed := printed intr @ [printf_d (sint v)]\<rparr>)"
    if "base (val_b (h a)) = CHR ''d''"
    using that ok fa
    by (simp add: loop_body_no_jump [of h a intr, OF sw] exec_PRINT_def print_base_def)
  have b: "loop_body h a intr =
         Inr (cmd_next (h a), intr\<lparr>printed := printed intr @ [to_binary_string v 67]\<rparr>)"
    if "base (val_b (h a)) = CHR ''b''"
    using that ok fa
    by (simp add: loop_body_no_jump [of h a intr, OF sw] exec_PRINT_def print_base_def)
  have x: "loop_body h a intr =
         Inr (cmd_next (h a), intr\<lparr>printed := printed intr @ [''0x'' @ printf_x (unat v)]\<rparr>)"
    if "base (val_b (h a)) = CHR ''x''"
    using that ok fa
    by (simp add: loop_body_no_jump [of h a intr, OF sw] exec_PRINT_def print_base_def)
  have z: "v = 0 \<Longrightarrow> to_binary_string v 67 = ''0b0''"
    using to_binary_string_eq(1) by simp
  note nz = to_binary_string_eq(2) [of v]
  from d b x z nz printf_x_minus_one show ?thesis by blast
qed

theorem print_formats_witness:
  "cmd_type (print_prog CHR ''b'' 0) = CMD_PRINT
   \<and> \<not> had_error (print_intr 0)
   \<and> fetch_number_value (print_intr 0) (val_a (print_prog CHR ''b'' 0))
        (is_a_immediate (print_prog CHR ''b'' 0)) = (0, print_intr 0)
   \<and> loop_body (print_prog CHR ''b'') 0 (print_intr 0)
        = Inr (None, (print_intr 0)\<lparr>printed := [''0b0'']\<rparr>)
   \<and> loop_body (print_prog CHR ''b'') 0 (print_intr 5)
        = Inr (None, (print_intr 5)\<lparr>printed := [''0b101'']\<rparr>)
   \<and> loop_body (print_prog CHR ''x'') 0 (print_intr (- 1))
        = Inr (None, (print_intr (- 1))\<lparr>printed := [''0xffffffffffffffff'']\<rparr>)
   \<and> loop_body (print_prog CHR ''d'') 0 (print_intr (- 1))
        = Inr (None, (print_intr (- 1))\<lparr>printed := [''-1'']\<rparr>)"
proof -
  have 1: "cmd_type (print_prog CHR ''b'' 0) = CMD_PRINT" by (simp add: print_prog_def ex_defs)
  have 2: "\<not> had_error (print_intr 0)" by (simp add: print_intr_def ex_defs)
  have 3: "fetch_number_value (print_intr 0) (val_a (print_prog CHR ''b'' 0))
        (is_a_immediate (print_prog CHR ''b'' 0)) = (0, print_intr 0)"
    by (simp add: fetch_number_value_def print_prog_def print_intr_def ex_defs)
  have 4: "base (val_b (print_prog CHR ''b'' 0)) = CHR ''b''" "cmd_next (print_prog CHR ''b'' 0) = None"
    "printed (print_intr 0) = []"
    by (simp_all add: print_prog_def print_intr_def ex_defs)
  have a: "loop_body (print_prog CHR ''b'') 0 (print_intr 0)
        = Inr (None, (print_intr 0)\<lparr>printed := [''0b0'']\<rparr>)"
    using print_formats [of "print_prog CHR ''b''" 0, OF 1 2 3] 4 by simp
  have five: "to_binary_string 5 67 = ''0b101''" by code_simp
  have b: "loop_body (print_prog CHR ''b'') 0 (print_intr 5)
        = Inr (None, (print_intr 5)\<lparr>printed := [''0b101'']\<rparr>)"
    by (simp add: step_defs exec_PRINT_def print_base_def print_prog_def print_intr_def ex_defs five)
  have c: "loop_body (print_prog CHR ''x'') 0 (print_intr (- 1))
        = Inr (None, (print_intr (- 1))\<lparr>printed := [''0xffffffffffffffff'']\<rparr>)"
    by (simp add: step_defs exec_PRINT_def print_base_def print_prog_def print_intr_def ex_defs
          printf_x_minus_one)
  have d: "loop_body (print_prog CHR ''d'') 0 (print_intr (- 1))
        = Inr (None, (print_intr (- 1))\<lparr>printed := [''-1'']\<rparr>)"
    by (simp add: step_defs exec_PRINT_def print_base_def print_prog_def print_intr_def ex_defs
          printf_d_examples)
  from 1 2 3 a b c d show ?thesis by blast
qed

lemma skip_nls_NL:
  "tok_type (p_current parser) = TOK_NL \<Longrightarrow> skip_nls parser = skip_nls (advance parser)"
  by (subst skip_nls.simps) (simp add: consume_def)

lemma skip_nls_other:
  "tok_type (p_current parser) \<noteq> TOK_NL \<Longrightarrow> skip_nls parser = parser"
  by (subst skip_nls.simps) (simp add: consume_def)

lemma parse_cmd_label:
  "tok_type (p_current (skip_nls parser0)) = TOK_IDENT \<Longrightarrow>
   tok_type (p_next (skip_nls parser0)) = TOK_COLON \<Longrightarrow>
   parse_cmd parser0 =
     (case parse_cmd (advance (advance (skip_nls parser0))) of
        (None, parser') \<Rightarrow> (None, parser')
      | (Some labeled_cmd, parser') \<Rightarrow>
          (case put_label (p_label_map parser')
                  (take (tok_length (p_current (skip_nls parser0)))
                        (lexeme (p_current (skip_nls parser0))))
                  (Some labeled_cmd) of
             (False, m) \<Rightarrow> (Some labeled_cmd, parser'\<lparr>p_label_map := m, p_had_error := True\<rparr>)
           | (True, m) \<Rightarrow> (Some labeled_cmd, parser'\<lparr>p_label_map := m\<rparr>)))"
  by (subst parse_cmd.simps) (simp add: Let_def)

lemma parse_cmd_eof:
  "tok_type (p_current (skip_nls parser0)) = TOK_EOF \<Longrightarrow>
   parse_cmd parser0 = (None, skip_nls parser0)"
  by (subst parse_cmd.simps) (simp add: Let_def)

lemma parse_cmd_instruction:
  "\<not> (tok_type (p_current (skip_nls parser0)) = TOK_IDENT
       \<and> tok_type (p_next (skip_nls parser0)) = TOK_COLON) \<Longrightarrow>
   tok_type (p_current (skip_nls parser0)) \<noteq> TOK_EOF \<Longrightarrow>
   parse_cmd parser0 = parse_instruction (skip_nls parser0)"
  by (subst parse_cmd.simps) (auto simp: Let_def)

lemma parse_commands_loop_stop:
  "p_had_error parser \<or> is_at_end parser \<Longrightarrow> parse_commands_loop head tail parser = (head, parser)"
  by (subst parse_commands_loop.simps) auto

lemma parse_commands_loop_none:
  "\<not> p_had_error parser \<Longrightarrow> \<not> is_at_end parser \<Longrightarrow> parse_cmd parser = (None, parser') \<Longrightarrow>
   parse_commands_loop head tail parser = (head, parser')"
  by (subst parse_commands_loop.simps) simp

lemma parse_commands_loop_first:
  "\<not> p_had_error parser \<Longrightarrow> \<not> is_at_end parser \<Longrightarrow> parse_cmd parser = (Some cmd, parser') \<Longrightarrow>
   parse_commands_loop head None parser = parse_commands_loop (Some cmd) (Some cmd) parser'"
  by (subst parse_commands_loop.simps) simp

lemma parse_commands_loop_link:
  "\<not> p_had_error parser \<Longrightarrow> \<not> is_at_end parser \<Longrightarrow> parse_cmd parser = (Some cmd, parser') \<Longrightarrow>
   parse_commands_loop head (Some t) parser =
     parse_commands_loop head (Some cmd)
       (parser'\<lparr>p_heap := (p_heap parser')(t := (p_heap parser' t)\<lparr>cmd_next := Some cmd\<rparr>)\<rparr>)"
  by (subst parse_commands_loop.simps) simp

text \<open>The source text \<^verbatim>\<open>mov x0\<close>, newline, \<^verbatim>\<open>5\<close>, newline.\<close>

subsection \<open>Numeric literals\<close>











subsection \<open>Labels\<close>

lemma put_label_present:
  "get_label m name = Some e \<Longrightarrow> put_label m name cmd = (False, m)"
  by (simp add: get_label_def put_label_def Let_def)

lemma put_label_fresh:
  assumes "map_ok m" "put_label m name c1 = (True, m1)"
  shows "get_label m1 name = Some \<lparr>e_id = name, e_command = c1\<rparr>"
proof -
  let ?h = "unat (hash_function name) mod capacity m"
  from assms(1) have h: "?h < length (entries m)" by (simp add: map_ok_def)
  from assms(2) have "m1 = m\<lparr>entries := (entries m)
        [?h := entry_init name c1 # entries m ! ?h]\<rparr>"
    by (auto simp: put_label_def Let_def split: option.splits)
  with h show ?thesis
    by (simp add: get_label_def Let_def entry_init_def)
qed

text \<open>
  C9.  \<^verbatim>\<open>put_label\<close> of a name that \<^verbatim>\<open>get_label\<close> finds returns \<^verbatim>\<open>false\<close>
  and leaves the table as it is; so after a first successful registration a
  second one fails and the name still maps to the first command.  In
  \<^verbatim>\<open>parse_cmd\<close>, a label line whose instruction parses and whose name is
  already in the table returns the instruction with the error flag set (and
  the table unchanged); \<^verbatim>\<open>parse_commands\<close> then links that instruction into
  the list and stops.
\<close>

theorem duplicate_label:
  "(\<forall>e. get_label m name = Some e \<longrightarrow> put_label m name c2 = (False, m))
   \<and> (map_ok m \<and> put_label m name c1 = (True, m1) \<longrightarrow>
        put_label m1 name c2 = (False, m1)
        \<and> get_label m1 name = Some \<lparr>e_id = name, e_command = c1\<rparr>)
   \<and> (tok_type (p_current (skip_nls parser)) = TOK_IDENT
        \<and> tok_type (p_next (skip_nls parser)) = TOK_COLON
        \<and> parse_cmd (advance (advance (skip_nls parser))) = (Some cmd, parser_in)
        \<and> get_label (p_label_map parser_in)
             (take (tok_length (p_current (skip_nls parser))) (lexeme (p_current (skip_nls parser))))
             \<noteq> None \<longrightarrow>
        parse_cmd parser = (Some cmd, parser_in\<lparr>p_had_error := True\<rparr>))
   \<and> (\<not> p_had_error parser \<and> \<not> is_at_end parser \<and> parse_cmd parser = (Some cmd, parser')
        \<and> p_had_error parser' \<longrightarrow>
        parse_commands_loop head tail parser =
          (case tail of
             None \<Rightarrow> (Some cmd, parser')
           | Some t \<Rightarrow>
               (head, parser'\<lparr>p_heap := (p_heap parser')
                                 (t := (p_heap parser' t)\<lparr>cmd_next := Some cmd\<rparr>)\<rparr>)))"
proof (intro conjI allI impI)
  fix e assume "get_label m name = Some e"
  then show "put_label m name c2 = (False, m)" by (rule put_label_present)
next
  assume a: "map_ok m \<and> put_label m name c1 = (True, m1)"
  then have g: "get_label m1 name = Some \<lparr>e_id = name, e_command = c1\<rparr>"
    using put_label_fresh by blast
  then show "put_label m1 name c2 = (False, m1)" by (rule put_label_present)
  from g show "get_label m1 name = Some \<lparr>e_id = name, e_command = c1\<rparr>" .
next
  assume a: "tok_type (p_current (skip_nls parser)) = TOK_IDENT
        \<and> tok_type (p_next (skip_nls parser)) = TOK_COLON
        \<and> parse_cmd (advance (advance (skip_nls parser))) = (Some cmd, parser_in)
        \<and> get_label (p_label_map parser_in)
             (take (tok_length (p_current (skip_nls parser))) (lexeme (p_current (skip_nls parser))))
             \<noteq> None"
  then obtain e where "get_label (p_label_map parser_in)
             (take (tok_length (p_current (skip_nls parser))) (lexeme (p_current (skip_nls parser))))
             = Some e" by auto
  from put_label_present [OF this] a
  show "parse_cmd parser = (Some cmd, parser_in\<lparr>p_had_error := True\<rparr>)"
    by (simp add: parse_cmd_label)
next
  assume a: "\<not> p_had_error parser \<and> \<not> is_at_end parser \<and> parse_cmd parser = (Some cmd, parser')
        \<and> p_had_error parser'"
  show "parse_commands_loop head tail parser =
          (case tail of
             None \<Rightarrow> (Some cmd, parser')
           | Some t \<Rightarrow>
               (head, parser'\<lparr>p_heap := (p_heap parser')
                                 (t := (p_heap parser' t)\<lparr>cmd_next := Some cmd\<rparr>)\<rparr>))"
  proof (cases tail)
    case None
    with a show ?thesis
      by (simp add: parse_commands_loop_first parse_commands_loop_stop)
  next
    case (Some t)
    with a show ?thesis
      by (simp add: parse_commands_loop_link parse_commands_loop_stop)
  qed
qed

theorem duplicate_label_witness:
  "fst (parse_cmd dup_second) = Some 1
   \<and> p_had_error (snd (parse_cmd dup_second))
   \<and> fst (parse_commands_loop (Some 0) (Some 0) dup_second) = Some 0
   \<and> cmd_next (p_heap (snd (parse_commands_loop (Some 0) (Some 0) dup_second)) 0) = Some 1
   \<and> fst (parse_commands dup_parser) = Some 0
   \<and> p_had_error (snd (parse_commands dup_parser))
   \<and> cmd_next (p_heap (snd (parse_commands dup_parser)) 0) = Some 1
   \<and> cmd_type (p_heap (snd (parse_commands dup_parser)) 1) = CMD_RET
   \<and> get_label (p_label_map (snd (parse_commands dup_parser))) ''L''
        = Some \<lparr>e_id = ''L'', e_command = Some 0\<rparr>"
proof -
  let ?inner = "parse_cmd (advance (advance (skip_nls dup_second)))"
  have h1: "tok_type (p_current (skip_nls dup_second)) = TOK_IDENT" by code_simp
  have h2: "tok_type (p_next (skip_nls dup_second)) = TOK_COLON" by code_simp
  have "fst ?inner = Some 1" by code_simp
  then have h3: "?inner = (Some 1, snd ?inner)" by (metis prod.collapse)
  have h4: "get_label (p_label_map (snd ?inner))
      (take (tok_length (p_current (skip_nls dup_second))) (lexeme (p_current (skip_nls dup_second))))
      \<noteq> None"
    by code_simp
  note T = duplicate_label [where parser = dup_second and cmd = 1 and parser_in = "snd ?inner"
      and parser' = "(snd ?inner)\<lparr>p_had_error := True\<rparr>" and head = "Some 0" and tail = "Some 0"]
  from T h1 h2 h3 h4
  have pc: "parse_cmd dup_second = (Some 1, (snd ?inner)\<lparr>p_had_error := True\<rparr>)"
    by blast
  have h5: "\<not> p_had_error dup_second" by code_simp
  have h6: "\<not> is_at_end dup_second" by code_simp
  have h7: "p_had_error ((snd ?inner)\<lparr>p_had_error := True\<rparr>)" by simp
  from T h5 h6 pc h7
  have lp: "parse_commands_loop (Some 0) (Some 0) dup_second =
      (Some 0, (snd ?inner)\<lparr>p_had_error := True,
          p_heap := (p_heap ((snd ?inner)\<lparr>p_had_error := True\<rparr>))
            (0 := (p_heap ((snd ?inner)\<lparr>p_had_error := True\<rparr>) 0)\<lparr>cmd_next := Some 1\<rparr>)\<rparr>)"
    by simp
  have full: "fst (parse_commands dup_parser) = Some 0"
    "p_had_error (snd (parse_commands dup_parser))"
    "cmd_next (p_heap (snd (parse_commands dup_parser)) 0) = Some 1"
    "cmd_type (p_heap (snd (parse_commands dup_parser)) 1) = CMD_RET"
    "get_label (p_label_map (snd (parse_commands dup_parser))) ''L''
        = Some \<lparr>e_id = ''L'', e_command = Some 0\<rparr>"
    by code_simp+
  from pc lp full show ?thesis by simp
qed

subsection \<open>Lines and newlines\<close>

lemma eof_not_base: "\<not> is_base eof_token"
  by (simp add: is_base_def eof_token_def)

lemma nl_tokens_ok_peek:
  "nl_tokens_ok parser \<Longrightarrow> tok_type (peek parser i) = TOK_NL \<or> tok_type (peek parser i) = TOK_EOF \<Longrightarrow>
   \<not> is_base (peek parser i)"
  by (auto simp: nl_tokens_ok_def peek_def list_all_length eof_not_base)

lemma nl_tokens_ok_base:
  "nl_tokens_ok parser \<Longrightarrow> is_base (peek parser i) \<Longrightarrow>
   tok_type (peek parser i) \<noteq> TOK_NL \<and> tok_type (peek parser i) \<noteq> TOK_EOF"
  using nl_tokens_ok_peek by blast

lemma peek_0: "p_current parser = peek parser 0"
  by (simp add: peek_def upcoming_def)

lemma peek_advance:
  "tok_type (peek parser 0) \<noteq> TOK_EOF \<Longrightarrow> peek (advance parser) i = peek parser (Suc i)"
  by (cases "p_lexer parser"; cases i)
     (auto simp: peek_def upcoming_def advance_def is_at_end_def lexer_next_token_def Let_def)

lemma peek_upd [simp]:
  "peek (parser\<lparr>p_had_error := e\<rparr>) = peek parser"
  "peek (parser\<lparr>p_heap := h\<rparr>) = peek parser"
  "peek (parser\<lparr>p_brk := b\<rparr>) = peek parser"
  "peek (parser\<lparr>p_label_map := m\<rparr>) = peek parser"
  by (simp_all add: peek_def upcoming_def fun_eq_iff)

lemma peek_create: "create_command ty parser = (a, parser') \<Longrightarrow> peek parser' = peek parser"
  by (auto simp: create_command_def)

lemma parse_variable_operand_ok:
  "parse_variable_operand parser = Some (v, parser') \<Longrightarrow>
   tok_type (peek parser 0) = TOK_IDENT \<and> parser' = advance parser"
  by (auto simp: parse_variable_operand_def peek_0 split: if_splits option.splits)

lemma parse_im_ok:
  "parse_im parser = Some v \<Longrightarrow> tok_type (peek parser 0) = TOK_NUM"
  by (auto simp: parse_im_def peek_0 split: if_splits)

lemma parse_var_or_imm_ok:
  "parse_var_or_imm parser = Some (v, i, parser') \<Longrightarrow>
   (tok_type (peek parser 0) = TOK_IDENT \<or> tok_type (peek parser 0) = TOK_NUM)
   \<and> parser' = advance parser"
  by (auto simp: parse_var_or_imm_def parse_variable_operand_def peek_0
      split: if_splits option.splits)

lemma parse_base_ok:
  "parse_base parser = Some (b, parser') \<Longrightarrow> is_base (peek parser 0) \<and> parser' = advance parser"
  by (auto simp: parse_base_def peek_0 split: if_splits)

lemma parse_ADD_SUB_tokens:
  assumes "parse_ADD_SUB ty parser = (fl, parser')" "tok_type (peek parser 0) \<noteq> TOK_EOF"
  shows "(fl = Returned None \<and> p_had_error parser')
       \<or> ((\<exists>a. fl = Broke (Some a)) \<and> tok_type (peek parser 1) \<noteq> TOK_NL \<and> tok_type (peek parser 2) \<noteq> TOK_NL \<and> tok_type (peek parser 3) \<noteq> TOK_NL \<and> peek parser' 0 = peek parser 4)"
proof -
  obtain a p1 where cr: "create_command ty parser = (a, p1)"
    by (cases "create_command ty parser")
  note pk = peek_create [OF cr]
  show ?thesis
    using assms
    by (auto simp: parse_ADD_SUB_def cr fail_def break_with_def Let_def pk peek_0 peek_advance
          eval_nat_numeral
        split: option.splits if_splits
        dest!: parse_variable_operand_ok parse_var_or_imm_ok parse_base_ok parse_im_ok)
qed

lemma parse_CMP_tokens:
  assumes "parse_CMP ty parser = (fl, parser')" "tok_type (peek parser 0) \<noteq> TOK_EOF"
  shows "(fl = Returned None \<and> p_had_error parser')
       \<or> ((\<exists>a. fl = Broke (Some a)) \<and> tok_type (peek parser 1) \<noteq> TOK_NL \<and> tok_type (peek parser 2) \<noteq> TOK_NL \<and> peek parser' 0 = peek parser 3)"
proof -
  obtain a p1 where cr: "create_command ty parser = (a, p1)"
    by (cases "create_command ty parser")
  note pk = peek_create [OF cr]
  show ?thesis
    using assms
    by (auto simp: parse_CMP_def cr fail_def break_with_def Let_def pk peek_0 peek_advance
          eval_nat_numeral
        split: option.splits if_splits
        dest!: parse_variable_operand_ok parse_var_or_imm_ok parse_base_ok parse_im_ok)
qed

lemma parse_PRINT_tokens:
  assumes "parse_PRINT parser = (fl, parser')" "tok_type (peek parser 0) \<noteq> TOK_EOF" "nl_tokens_ok parser"
  shows "(fl = Returned None \<and> p_had_error parser')
       \<or> ((\<exists>a. fl = Broke (Some a)) \<and> tok_type (peek parser 1) \<noteq> TOK_NL \<and> tok_type (peek parser 2) \<noteq> TOK_NL \<and> peek parser' 0 = peek parser 3)"
proof -
  obtain a p1 where cr: "create_command CMD_PRINT parser = (a, p1)"
    by (cases "create_command CMD_PRINT parser")
  note pk = peek_create [OF cr]
  show ?thesis
    using assms nl_tokens_ok_base [OF assms(3), of "Suc (Suc 0)"]
    by (auto simp: parse_PRINT_def cr fail_def break_with_def Let_def pk peek_0 peek_advance
          eval_nat_numeral
        split: option.splits if_splits
        dest!: parse_variable_operand_ok parse_var_or_imm_ok parse_base_ok parse_im_ok)
qed

lemma parse_AND_EOR_ORR_tokens:
  assumes "parse_AND_EOR_ORR ty parser = (fl, parser')" "tok_type (peek parser 0) \<noteq> TOK_EOF"
  shows "(fl = Returned None \<and> p_had_error parser')
       \<or> ((\<exists>a. fl = Broke (Some a)) \<and> tok_type (peek parser 1) \<noteq> TOK_NL \<and> tok_type (peek parser 2) \<noteq> TOK_NL \<and> tok_type (peek parser 3) \<noteq> TOK_NL \<and> peek parser' 0 = peek parser 4)"
proof -
  obtain a p1 where cr: "create_command ty parser = (a, p1)"
    by (cases "create_command ty parser")
  note pk = peek_create [OF cr]
  show ?thesis
    using assms
    by (auto simp: parse_AND_EOR_ORR_def cr fail_def break_with_def Let_def pk peek_0 peek_advance
          eval_nat_numeral
        split: option.splits if_splits
        dest!: parse_variable_operand_ok parse_var_or_imm_ok parse_base_ok parse_im_ok)
qed

lemma parse_SHIFT_tokens:
  assumes "parse_SHIFT ty parser = (fl, parser')" "tok_type (peek parser 0) \<noteq> TOK_EOF"
  shows "(fl = Returned None \<and> p_had_error parser')
       \<or> ((\<exists>a. fl = Broke (Some a)) \<and> tok_type (peek parser 1) \<noteq> TOK_NL \<and> tok_type (peek parser 2) \<noteq> TOK_NL \<and> tok_type (peek parser 3) \<noteq> TOK_NL \<and> peek parser' 0 = peek parser 4)"
proof -
  obtain a p1 where cr: "create_command ty parser = (a, p1)"
    by (cases "create_command ty parser")
  note pk = peek_create [OF cr]
  show ?thesis
    using assms
    by (auto simp: parse_SHIFT_def cr fail_def break_with_def Let_def pk peek_0 peek_advance
          eval_nat_numeral
        split: option.splits if_splits
        dest!: parse_variable_operand_ok parse_var_or_imm_ok parse_base_ok parse_im_ok)
qed

lemma parse_LOAD_tokens:
  assumes "parse_LOAD parser = (fl, parser')" "tok_type (peek parser 0) \<noteq> TOK_EOF"
  shows "(fl = Returned None \<and> p_had_error parser')
       \<or> ((\<exists>a. fl = Broke (Some a)) \<and> tok_type (peek parser 1) \<noteq> TOK_NL \<and> tok_type (peek parser 2) \<noteq> TOK_NL \<and> tok_type (peek parser 3) \<noteq> TOK_NL \<and> peek parser' 0 = peek parser 4)"
proof -
  obtain a p1 where cr: "create_command CMD_LOAD parser = (a, p1)"
    by (cases "create_command CMD_LOAD parser")
  note pk = peek_create [OF cr]
  show ?thesis
    using assms
    by (auto simp: parse_LOAD_def cr fail_def break_with_def Let_def pk peek_0 peek_advance
          eval_nat_numeral
        split: option.splits if_splits
        dest!: parse_variable_operand_ok parse_var_or_imm_ok parse_base_ok parse_im_ok)
qed

lemma parse_STORE_tokens:
  assumes "parse_STORE parser = (fl, parser')" "tok_type (peek parser 0) \<noteq> TOK_EOF"
  shows "(fl = Returned None \<and> p_had_error parser')
       \<or> ((\<exists>a. fl = Broke (Some a)) \<and> tok_type (peek parser 1) \<noteq> TOK_NL \<and> tok_type (peek parser 2) \<noteq> TOK_NL \<and> tok_type (peek parser 3) \<noteq> TOK_NL \<and> peek parser' 0 = peek parser 4)"
proof -
  obtain a p1 where cr: "create_command CMD_STORE parser = (a, p1)"
    by (cases "create_command CMD_STORE parser")
  note pk = peek_create [OF cr]
  show ?thesis
    using assms
    by (auto simp: parse_STORE_def cr fail_def break_with_def Let_def pk peek_0 peek_advance
          eval_nat_numeral
        split: option.splits if_splits
        dest!: parse_variable_operand_ok parse_var_or_imm_ok parse_base_ok parse_im_ok)
qed

lemma parse_PUT_tokens:
  assumes "parse_PUT parser = (fl, parser')" "tok_type (peek parser 0) \<noteq> TOK_EOF"
  shows "(fl = Returned None \<and> p_had_error parser')
       \<or> ((\<exists>a. fl = Broke (Some a)) \<and> tok_type (peek parser 1) \<noteq> TOK_NL \<and> tok_type (peek parser 2) \<noteq> TOK_NL \<and> peek parser' 0 = peek parser 3)"
proof -
  obtain a p1 where cr: "create_command CMD_PUT parser = (a, p1)"
    by (cases "create_command CMD_PUT parser")
  note pk = peek_create [OF cr]
  show ?thesis
    using assms
    by (auto simp: parse_PUT_def cr fail_def break_with_def Let_def pk peek_0 peek_advance
          eval_nat_numeral
        split: option.splits if_splits
        dest!: parse_variable_operand_ok parse_var_or_imm_ok parse_base_ok parse_im_ok)
qed

lemma parse_BRANCH_tokens:
  assumes "parse_BRANCH tk parser = (fl, parser')" "tok_type (peek parser 0) \<noteq> TOK_EOF"
  shows "(fl = Returned None \<and> p_had_error parser')
       \<or> ((\<exists>a. fl = Broke (Some a)) \<and> tok_type (peek parser 1) \<noteq> TOK_NL \<and> peek parser' 0 = peek parser 2)"
proof -
  obtain a p1 where cr: "create_command CMD_BRANCH parser = (a, p1)"
    by (cases "create_command CMD_BRANCH parser")
  note pk = peek_create [OF cr]
  show ?thesis
    using assms
    by (auto simp: parse_BRANCH_def cr fail_def break_with_def Let_def pk peek_0 peek_advance
          eval_nat_numeral
        split: option.splits if_splits
        dest!: parse_variable_operand_ok parse_var_or_imm_ok parse_base_ok parse_im_ok)
qed

lemma parse_CALL_tokens:
  assumes "parse_CALL parser = (fl, parser')" "tok_type (peek parser 0) \<noteq> TOK_EOF"
  shows "(fl = Returned None \<and> p_had_error parser')
       \<or> ((\<exists>a. fl = Broke (Some a)) \<and> tok_type (peek parser 1) \<noteq> TOK_NL \<and> peek parser' 0 = peek parser 2)"
proof -
  obtain a p1 where cr: "create_command CMD_CALL parser = (a, p1)"
    by (cases "create_command CMD_CALL parser")
  note pk = peek_create [OF cr]
  show ?thesis
    using assms
    by (auto simp: parse_CALL_def cr fail_def break_with_def Let_def pk peek_0 peek_advance
          eval_nat_numeral
        split: option.splits if_splits
        dest!: parse_variable_operand_ok parse_var_or_imm_ok parse_base_ok parse_im_ok)
qed

lemma parse_RET_tokens:
  assumes "parse_RET parser = (fl, parser')" "tok_type (peek parser 0) \<noteq> TOK_EOF"
  shows "(fl = Returned None \<and> p_had_error parser')
       \<or> ((\<exists>a. fl = Broke (Some a)) \<and> peek parser' 0 = peek parser 1)"
proof -
  obtain a p1 where cr: "create_command CMD_RET parser = (a, p1)"
    by (cases "create_command CMD_RET parser")
  note pk = peek_create [OF cr]
  show ?thesis
    using assms
    by (auto simp: parse_RET_def cr fail_def break_with_def Let_def pk peek_0 peek_advance
          eval_nat_numeral
        split: option.splits if_splits
        dest!: parse_variable_operand_ok parse_var_or_imm_ok parse_base_ok parse_im_ok)
qed

lemma parse_MOV_first_token:
  assumes "parse_MOV parser = (fl, parser')" "tok_type (peek parser 0) \<noteq> TOK_EOF"
  shows "(fl = Returned None \<and> p_had_error parser')
       \<or> ((\<exists>a. fl = Broke (Some a)) \<and> tok_type (peek parser 1) \<noteq> TOK_NL)"
proof -
  obtain a p1 where cr: "create_command CMD_MOV parser = (a, p1)"
    by (cases "create_command CMD_MOV parser")
  note pk = peek_create [OF cr]
  show ?thesis
    using assms
    by (auto simp: parse_MOV_def cr fail_def break_with_def Let_def pk peek_0 peek_advance
        split: option.splits if_splits
        dest!: parse_variable_operand_ok)
qed

lemma all_operand_positions:
  "(\<forall>i::nat. Suc 0 \<le> i \<and> i \<le> 0 \<longrightarrow> P i) = True"
  "(\<forall>i::nat. Suc 0 \<le> i \<and> i \<le> Suc 0 \<longrightarrow> P i) = P (Suc 0)"
  "(\<forall>i::nat. Suc 0 \<le> i \<and> i \<le> 2 \<longrightarrow> P i) = (P (Suc 0) \<and> P 2)"
  "(\<forall>i::nat. Suc 0 \<le> i \<and> i \<le> 3 \<longrightarrow> P i) = (P (Suc 0) \<and> P 2 \<and> P 3)"
proof -
  have 1: "i = Suc 0" if "Suc 0 \<le> i" "i \<le> Suc 0" for i :: nat using that by arith
  have 2: "i = Suc 0 \<or> i = 2" if "Suc 0 \<le> i" "i \<le> 2" for i :: nat using that by arith
  have 3: "i = Suc 0 \<or> i = 2 \<or> i = 3" if "Suc 0 \<le> i" "i \<le> 3" for i :: nat
    using that by arith
  show "(\<forall>i::nat. Suc 0 \<le> i \<and> i \<le> 0 \<longrightarrow> P i) = True" by auto
  show "(\<forall>i::nat. Suc 0 \<le> i \<and> i \<le> Suc 0 \<longrightarrow> P i) = P (Suc 0)" using 1 by auto
  show "(\<forall>i::nat. Suc 0 \<le> i \<and> i \<le> 2 \<longrightarrow> P i) = (P (Suc 0) \<and> P 2)" using 2 by auto
  show "(\<forall>i::nat. Suc 0 \<le> i \<and> i \<le> 3 \<longrightarrow> P i) = (P (Suc 0) \<and> P 2 \<and> P 3)"
    using 3 by auto
qed

lemma parse_switch_tokens:
  assumes sw: "parse_switch parser = (fl, parser')"
    and kw: "is_keyword (tok_type (peek parser 0))" "tok_type (peek parser 0) \<noteq> TOK_MOV"
    and wf: "nl_tokens_ok parser"
  shows "(fl = Returned None \<and> p_had_error parser')
       \<or> ((\<exists>a. fl = Broke (Some a))
           \<and> (\<forall>i. 1 \<le> i \<and> i \<le> operand_count (tok_type (peek parser 0)) \<longrightarrow>
                  tok_type (peek parser i) \<noteq> TOK_NL)
           \<and> peek parser' 0 = peek parser (operand_count (tok_type (peek parser 0)) + 1))"
proof -
  have ne: "tok_type (peek parser 0) \<noteq> TOK_EOF" using kw by (auto simp: is_keyword_def)
  note arms = parse_ADD_SUB_tokens [OF _ ne] parse_CMP_tokens [OF _ ne]
    parse_PRINT_tokens [OF _ ne wf] parse_AND_EOR_ORR_tokens [OF _ ne]
    parse_SHIFT_tokens [OF _ ne] parse_LOAD_tokens [OF _ ne] parse_STORE_tokens [OF _ ne]
    parse_PUT_tokens [OF _ ne] parse_BRANCH_tokens [OF _ ne] parse_CALL_tokens [OF _ ne]
    parse_RET_tokens [OF _ ne]
  show ?thesis
    using sw kw
    by (cases "tok_type (peek parser 0)")
       (auto simp: parse_switch_def peek_0 [symmetric] operand_count_def all_operand_positions
          is_keyword_def numeral_2_eq_2 [symmetric] dest!: arms)
qed

lemma consume_newline_ok:
  "consume_newline parser = (True, parser') \<Longrightarrow>
   tok_type (peek parser 0) = TOK_NL \<or> tok_type (peek parser 0) = TOK_EOF"
  by (auto simp: consume_newline_def consume_def peek_0 split: if_splits)

lemma parse_cmd_keyword:
  "is_keyword (tok_type (p_current parser)) \<Longrightarrow> parse_cmd parser = parse_instruction parser"
  by (simp add: is_keyword_def skip_nls_other parse_cmd_instruction)

lemma parse_instruction_failed:
  "parse_switch parser = (Returned None, parser') \<Longrightarrow> p_had_error parser' \<Longrightarrow>
   fst (parse_instruction parser) = None \<and> p_had_error (snd (parse_instruction parser))"
  by (simp add: parse_instruction_def)

lemma parse_commands_loop_failed:
  assumes "is_keyword (tok_type (p_current parser))" "fst (parse_cmd parser) = None"
    "\<not> p_had_error parser"
  shows "parse_commands_loop head tail parser = (head, snd (parse_cmd parser))"
proof -
  from assms(1) have "\<not> is_at_end parser" by (auto simp: is_at_end_def is_keyword_def)
  moreover from assms(2) have "parse_cmd parser = (None, snd (parse_cmd parser))"
    by (metis prod.collapse)
  ultimately show ?thesis using assms(3) by (rule parse_commands_loop_none [rotated])
qed

text \<open>
  The cases of the \<^verbatim>\<open>switch\<close> other than \<^verbatim>\<open>TOK_MOV\<close> follow the grammar of a
  line.  With the parser on an instruction keyword other than MOV, a newline
  token at any operand position sets the error flag, \<^verbatim>\<open>parse_cmd\<close> returns
  \<^verbatim>\<open>NULL\<close> and \<^verbatim>\<open>parse_commands\<close> stops with the list built so far; and
  when such an instruction parses, the token after its operands is the
  terminator, a newline or the end of input.  For MOV a newline right after
  the keyword is an error in the same way.
\<close>

lemma newline_in_operands:
  assumes kw: "is_keyword (tok_type (p_current parser))"
    and wf: "nl_tokens_ok parser"
  shows
   "(tok_type (p_current parser) \<noteq> TOK_MOV
       \<and> (\<exists>i. 1 \<le> i \<and> i \<le> operand_count (tok_type (p_current parser))
              \<and> tok_type (peek parser i) = TOK_NL) \<longrightarrow>
       fst (parse_cmd parser) = None \<and> p_had_error (snd (parse_cmd parser))
       \<and> (\<not> p_had_error parser \<longrightarrow>
            parse_commands_loop head tail parser = (head, snd (parse_cmd parser))))
    \<and> (tok_type (p_current parser) = TOK_MOV \<and> tok_type (peek parser 1) = TOK_NL \<longrightarrow>
       fst (parse_cmd parser) = None \<and> p_had_error (snd (parse_cmd parser))
       \<and> (\<not> p_had_error parser \<longrightarrow>
            parse_commands_loop head tail parser = (head, snd (parse_cmd parser))))
    \<and> (tok_type (p_current parser) \<noteq> TOK_MOV \<and> fst (parse_cmd parser) \<noteq> None \<longrightarrow>
       tok_type (peek parser (operand_count (tok_type (p_current parser)) + 1)) = TOK_NL
       \<or> tok_type (peek parser (operand_count (tok_type (p_current parser)) + 1)) = TOK_EOF)"
proof -
  note pc = parse_cmd_keyword [OF kw]
  obtain fl p1 where sw: "parse_switch parser = (fl, p1)" by (cases "parse_switch parser")
  have kw0: "is_keyword (tok_type (peek parser 0))" using kw by (simp add: peek_0)
  have ne: "tok_type (peek parser 0) \<noteq> TOK_EOF" using kw0 by (auto simp: is_keyword_def)
  have fail1: "fst (parse_cmd parser) = None \<and> p_had_error (snd (parse_cmd parser))"
    if "tok_type (p_current parser) \<noteq> TOK_MOV"
       "\<exists>i. 1 \<le> i \<and> i \<le> operand_count (tok_type (p_current parser))
              \<and> tok_type (peek parser i) = TOK_NL"
  proof -
    from parse_switch_tokens [OF sw kw0 _ wf] that
    have "fl = Returned None \<and> p_had_error p1" by (auto simp: peek_0)
    with sw show ?thesis by (simp add: pc parse_instruction_failed)
  qed
  have fail2: "fst (parse_cmd parser) = None \<and> p_had_error (snd (parse_cmd parser))"
    if "tok_type (p_current parser) = TOK_MOV" "tok_type (peek parser 1) = TOK_NL"
  proof -
    from that(1) sw have "parse_MOV parser = (fl, p1)" by (simp add: parse_switch_def)
    from parse_MOV_first_token [OF this ne] that(2)
    have "fl = Returned None \<and> p_had_error p1" by auto
    with sw show ?thesis by (simp add: pc parse_instruction_failed)
  qed
  have terminated: "tok_type (peek parser (operand_count (tok_type (p_current parser)) + 1)) = TOK_NL
       \<or> tok_type (peek parser (operand_count (tok_type (p_current parser)) + 1)) = TOK_EOF"
    if "tok_type (p_current parser) \<noteq> TOK_MOV" "fst (parse_cmd parser) \<noteq> None"
  proof -
    from parse_switch_tokens [OF sw kw0 _ wf] that(1)
    have "(fl = Returned None \<and> p_had_error p1)
       \<or> ((\<exists>a. fl = Broke (Some a))
           \<and> peek p1 0 = peek parser (operand_count (tok_type (peek parser 0)) + 1))"
      by (auto simp: peek_0)
    then show ?thesis
    proof
      assume "fl = Returned None \<and> p_had_error p1"
      with sw that(2) show ?thesis by (simp add: pc parse_instruction_def)
    next
      assume b: "(\<exists>a. fl = Broke (Some a))
           \<and> peek p1 0 = peek parser (operand_count (tok_type (peek parser 0)) + 1)"
      then obtain a where fl: "fl = Broke (Some a)" by blast
      obtain ok p2 where cn: "consume_newline p1 = (ok, p2)" by (cases "consume_newline p1")
      from that(2) sw fl cn have "ok" by (cases ok) (simp_all add: pc parse_instruction_def)
      with cn consume_newline_ok [of p1 p2] b show ?thesis by (simp add: peek_0)
    qed
  qed
  from fail1 fail2 terminated parse_commands_loop_failed [OF kw, of head tail]
  show ?thesis by blast
qed

text \<open>
  The source \<^verbatim>\<open>add x1\<close>, newline, \<^verbatim>\<open>x2 x3\<close> is such a line: the newline
  after \<^verbatim>\<open>x1\<close> sets the error flag and stops the parse.
\<close>

lemma newline_in_operands_add:
  "is_keyword (tok_type (p_current add_nl_parser))
   \<and> nl_tokens_ok add_nl_parser
   \<and> tok_type (p_current add_nl_parser) = TOK_ADD
   \<and> tok_type (peek add_nl_parser 2) = TOK_NL
   \<and> fst (parse_cmd add_nl_parser) = None
   \<and> p_had_error (snd (parse_cmd add_nl_parser))
   \<and> parse_commands_loop None None add_nl_parser = (None, snd (parse_cmd add_nl_parser))"
proof -
  have h1: "is_keyword (tok_type (p_current add_nl_parser))" by code_simp
  have h2: "nl_tokens_ok add_nl_parser" by code_simp
  have h3: "tok_type (p_current add_nl_parser) = TOK_ADD" by code_simp
  have h4: "tok_type (peek add_nl_parser 2) = TOK_NL" by code_simp
  have h5: "\<not> p_had_error add_nl_parser" by code_simp
  have "1 \<le> (2::nat) \<and> 2 \<le> operand_count (tok_type (p_current add_nl_parser))
      \<and> tok_type (peek add_nl_parser 2) = TOK_NL"
    using h3 h4 by (simp add: operand_count_def)
  then have h6: "tok_type (p_current add_nl_parser) \<noteq> TOK_MOV
       \<and> (\<exists>i. 1 \<le> i \<and> i \<le> operand_count (tok_type (p_current add_nl_parser))
              \<and> tok_type (peek add_nl_parser i) = TOK_NL)"
    using h3 by (intro conjI exI [of _ 2]) simp_all
  from newline_in_operands [OF h1 h2, where head = None and tail = None,
      THEN conjunct1, rule_format, OF h6] h5
  have "fst (parse_cmd add_nl_parser) = None \<and> p_had_error (snd (parse_cmd add_nl_parser))
      \<and> parse_commands_loop None None add_nl_parser = (None, snd (parse_cmd add_nl_parser))"
    by simp
  with h1 h2 h3 h4 show ?thesis by simp
qed

lemma advance_fields [simp]:
  "p_had_error (advance p) = p_had_error p"
  "p_heap (advance p) = p_heap p"
  "p_brk (advance p) = p_brk p"
  "p_label_map (advance p) = p_label_map p"
  by (auto simp: advance_def Let_def split: prod.splits)

lemma skip_nls_peek:
  "(\<forall>i<k. tok_type (peek p i) = TOK_NL) \<Longrightarrow> tok_type (peek p k) \<noteq> TOK_NL \<Longrightarrow>
   peek (skip_nls p) i = peek p (k + i) \<and> p_had_error (skip_nls p) = p_had_error p
   \<and> p_heap (skip_nls p) = p_heap p \<and> p_brk (skip_nls p) = p_brk p
   \<and> p_label_map (skip_nls p) = p_label_map p"
proof (induction k arbitrary: p)
  case 0
  then show ?case by (simp add: skip_nls_other peek_0)
next
  case (Suc k)
  from Suc.prems(1) have nl: "tok_type (p_current p) = TOK_NL" by (auto simp: peek_0)
  then have ne: "tok_type (peek p 0) \<noteq> TOK_EOF" by (simp add: peek_0)
  have "\<forall>i<k. tok_type (peek (advance p) i) = TOK_NL"
    using Suc.prems(1) by (auto simp: peek_advance [OF ne])
  moreover have "tok_type (peek (advance p) k) \<noteq> TOK_NL"
    using Suc.prems(2) by (simp add: peek_advance [OF ne])
  ultimately show ?case
    using Suc.IH [of "advance p"] nl by (simp add: skip_nls_NL peek_advance [OF ne])
qed

text \<open>
  The case \<^verbatim>\<open>TOK_MOV\<close> does not: however many newline tokens stand between
  the destination and the immediate (\<open>k\<close> of them), \<^verbatim>\<open>parse_cmd\<close> returns
  the command and leaves the error flag as it was.
\<close>

lemma mov_skips_newlines:
  assumes mov: "tok_type (p_current parser) = TOK_MOV"
    and dst: "tok_type (peek parser 1) = TOK_IDENT" "is_variable (peek parser 1)"
      "parse_variable (peek parser 1) = Some d"
    and nls: "\<forall>i<k. tok_type (peek parser (2 + i)) = TOK_NL"
    and imm: "tok_type (peek parser (2 + k)) = TOK_NUM"
      "parse_number (peek parser (2 + k)) = (True, v)"
    and fin: "tok_type (peek parser (3 + k)) = TOK_NL \<or> tok_type (peek parser (3 + k)) = TOK_EOF"
  shows "fst (parse_cmd parser) = Some (p_brk parser)
    \<and> p_had_error (snd (parse_cmd parser)) = p_had_error parser
    \<and> p_heap (snd (parse_cmd parser)) (p_brk parser) = mov_cmd d v None"
proof -
  have kw: "is_keyword (tok_type (p_current parser))" using mov by (simp add: is_keyword_def)
  note pc = parse_cmd_keyword [OF kw]
  obtain a p1 where cr: "create_command CMD_MOV parser = (a, p1)"
    by (cases "create_command CMD_MOV parser")
  then have a: "a = p_brk parser" and p1: "peek p1 = peek parser" "p_had_error p1 = p_had_error parser"
    by (auto simp: create_command_def)
  have ne: "tok_type (peek p1 0) \<noteq> TOK_EOF" using mov by (simp add: p1 peek_0 [symmetric])
  define p2 where "p2 = advance p1"
  have pk2: "peek p2 i = peek parser (Suc i)" for i
    by (simp add: p2_def peek_advance [OF ne] p1)
  have ne2: "tok_type (peek p2 0) \<noteq> TOK_EOF" using dst by (simp add: pk2)
  have pv: "parse_variable_operand p2 = Some (d, advance p2)"
    using dst by (simp add: parse_variable_operand_def peek_0 pk2)
  define p3 where "p3 = advance p2"
  have pk3: "peek p3 i = peek parser (2 + i)" for i
    by (simp add: p3_def peek_advance [OF ne2] pk2)
  define p4 where "p4 = skip_nls p3"
  have sk: "peek p4 i = peek parser (2 + k + i) \<and> p_had_error p4 = p_had_error p3
     \<and> p_heap p4 = p_heap p3 \<and> p_brk p4 = p_brk p3" for i
    unfolding p4_def using skip_nls_peek [of k p3 i] nls imm by (simp add: pk3 add.assoc)
  have pi: "parse_im p4 = Some v"
    using imm sk [of 0] by (simp add: parse_im_def peek_0)
  have ne4: "tok_type (peek p4 0) \<noteq> TOK_EOF" using imm sk [of 0] by simp
  define p5 where "p5 = advance p4"
  have pk5: "peek p5 0 = peek parser (3 + k)"
    using sk [of 1] by (simp add: p5_def peek_advance [OF ne4] numeral_3_eq_3 numeral_2_eq_2)
  have hp: "p_heap p1 a = blank_command CMD_MOV"
    using cr by (auto simp: create_command_def blank_command_def zero_operand_def num_operand_def)
  have mv: "parse_MOV parser = break_with a
      ((p_heap p1 a)\<lparr>destination := set_num d (destination (p_heap p1 a)),
         val_a := set_num v (val_a (p_heap p1 a)), is_a_immediate := True\<rparr>) p5"
    using pv pi by (simp add: parse_MOV_def cr Let_def p2_def [symmetric] p3_def [symmetric]
        p4_def [symmetric] p5_def [symmetric])
  have cmd: "(p_heap p1 a)\<lparr>destination := set_num d (destination (p_heap p1 a)),
         val_a := set_num v (val_a (p_heap p1 a)), is_a_immediate := True\<rparr> = mov_cmd d v None"
    by (simp add: hp mov_cmd_def blank_command_def set_num_def num_operand_def zero_operand_def)
  obtain ok p6 where cn: "consume_newline (p5\<lparr>p_heap := (p_heap p5)(a := mov_cmd d v None)\<rparr>) = (ok, p6)"
    by (cases "consume_newline (p5\<lparr>p_heap := (p_heap p5)(a := mov_cmd d v None)\<rparr>)")
  have he5: "p_had_error p5 = p_had_error parser"
    using sk [of 0] by (simp add: p5_def p3_def p2_def p1)
  have c5: "tok_type (p_current p5) = TOK_NL \<or> tok_type (p_current p5) = TOK_EOF"
    using fin pk5 by (simp add: peek_0)
  have ok: "ok" and p6: "p_had_error p6 = p_had_error parser" "p_heap p6 a = mov_cmd d v None"
    using cn c5 he5 by (auto simp: consume_newline_def consume_def split: if_splits)
  have mv': "parse_MOV parser = break_with a (mov_cmd d v None) p5"
    using mv cmd by simp
  have "parse_instruction parser = (Some a, p6)"
    using mov ok cn by (simp add: parse_instruction_def parse_switch_def mv' break_with_def)
  then show ?thesis
    using p6 by (simp add: pc a)
qed

text \<open>
  C8: each line is one instruction keyword, its complete operand sequence
  and a terminator, so that a newline token in the middle of the operands
  sets the error flag and halts parsing.  The case \<^verbatim>\<open>TOK_MOV\<close> of
  \<^verbatim>\<open>parse_cmd\<close> breaks this: between the destination and the immediate it
  calls \<^verbatim>\<open>skip_nls\<close>, which no other case does.  On the source \<^verbatim>\<open>mov x0\<close>,
  newline, \<^verbatim>\<open>5\<close>, newline (the tokens MOV, IDENT, NL, NUM, NL) the newline
  stands between the two operands of MOV, and yet \<^verbatim>\<open>parse_cmd\<close> and
  \<^verbatim>\<open>parse_commands\<close> return the command \<^verbatim>\<open>mov x0 5\<close> with the error flag
  clear, having read both lines as one.
\<close>

theorem mov_accepts_newline:
  "tok_type (p_current mov_nl_parser) = TOK_MOV
   \<and> tok_type (peek mov_nl_parser 1) = TOK_IDENT
   \<and> tok_type (peek mov_nl_parser 2) = TOK_NL
   \<and> tok_type (peek mov_nl_parser 3) = TOK_NUM
   \<and> tok_type (peek mov_nl_parser 4) = TOK_NL
   \<and> tok_type (peek mov_nl_parser 5) = TOK_EOF
   \<and> fst (parse_cmd mov_nl_parser) = Some 0
   \<and> \<not> p_had_error (snd (parse_cmd mov_nl_parser))
   \<and> p_heap (snd (parse_cmd mov_nl_parser)) 0 = mov_cmd 0 5 None
   \<and> is_at_end (snd (parse_cmd mov_nl_parser))
   \<and> fst (parse_commands mov_nl_parser) = Some 0
   \<and> \<not> p_had_error (snd (parse_commands mov_nl_parser))
   \<and> p_heap (snd (parse_commands mov_nl_parser)) 0 = mov_cmd 0 5 None"
  by code_simp

end
